(* ===== verification/Prelude.thy ===== *)
theory Prelude
  imports Main "HOL-Library.AList" "HOL-Library.Sublist" "HOL-Library.Multiset" "HOL-Library.Word"
    "HOL-Library.List_Lexorder" "HOL-Library.Char_ord"
begin

text \<open>
  The vocabulary shared by every component: what the sources use of the Go language and its
  standard library (strings, maps, error values, the shuffle of \<open>math/rand\<close>), the result type of
  a reconcile call, and the generic lemmas and fact collections the component theories rely on.

  Go strings are byte strings, here \<open>string\<close>. A Go map is an association list with distinct keys
  whose order stands for the order in which one \<open>range\<close> loop happens to visit it; a map or slice
  that may be \<open>nil\<close> is an option of it. A function returning a value and an error is a sum with the
  error on the left; a function returning only an error is an option of the error.
\<close>

named_theorems frame_simps \<open>what an update of one field leaves unchanged\<close>
named_theorems handler_defs \<open>definitions unfolded when a handler is evaluated on a concrete input\<close>

section \<open>Strings\<close>

type_synonym gomap = "(string \<times> string) list"
type_synonym int32 = "32 word"
type_synonym int64 = "64 word"
type_synonym duration = int

text \<open>\<open>strings.Contains\<close>: is the second string a substring of the first?\<close>

fun strings_Contains :: "string \<Rightarrow> string \<Rightarrow> bool" where
  "strings_Contains [] t = (t = [])"
| "strings_Contains (c # s) t = (prefix t (c # s) \<or> strings_Contains s t)"

lemma strings_Contains_iff: "strings_Contains s t \<longleftrightarrow> sublist t s"
  by (induction s) (auto simp: sublist_Cons_right)

text \<open>\<open>strings.SplitN(s, sep, n)\<close> for a one-byte separator: at most \<open>n\<close> parts, the last unsplit.\<close>

fun strings_SplitN :: "string \<Rightarrow> char \<Rightarrow> nat \<Rightarrow> string list" where
  "strings_SplitN s c 0 = []"
| "strings_SplitN s c (Suc 0) = [s]"
| "strings_SplitN s c (Suc (Suc n)) =
     (case dropWhile (\<lambda>x. x \<noteq> c) s of
        [] \<Rightarrow> [s]
      | _ # rest \<Rightarrow> takeWhile (\<lambda>x. x \<noteq> c) s # strings_SplitN rest c (Suc n))"

lemma strings_SplitN_two_sep:
  assumes "c \<notin> set a"
  shows "strings_SplitN (a @ c # b) c 2 = [a, b]"
proof -
  have "dropWhile (\<lambda>x. x \<noteq> c) (a @ c # b) = c # b" "takeWhile (\<lambda>x. x \<noteq> c) (a @ c # b) = a"
    using assms by (auto simp: dropWhile_append takeWhile_append dropWhile_eq_self_iff)
  then show ?thesis by (simp add: numeral_2_eq_2)
qed

lemma strings_SplitN_two_no_sep:
  assumes "c \<notin> set s"
  shows "strings_SplitN s c 2 = [s]"
proof -
  have none: "dropWhile (\<lambda>x. x \<noteq> c) s = []" using assms by auto
  show ?thesis unfolding numeral_2_eq_2 strings_SplitN.simps none by simp
qed

lemma strings_SplitN_two_cases:
  assumes "strings_SplitN s c 2 = parts" and "length parts = 2"
  shows "\<exists>a b. parts = [a, b] \<and> s = a @ c # b \<and> c \<notin> set a"
proof (cases "c \<in> set s")
  case True
  then obtain a b where s: "s = a @ c # b" and a: "c \<notin> set a"
    by (metis split_list_first)
  then show ?thesis using assms(1) strings_SplitN_two_sep[OF a, of b] by auto
next
  case False
  then have "parts = [s]" using assms(1) strings_SplitN_two_no_sep[OF False] by simp
  then show ?thesis using assms(2) by simp
qed

text \<open>\<open>strings.ReplaceAll(s, old, new)\<close> for a one-byte \<open>old\<close>.\<close>

fun strings_ReplaceAll :: "string \<Rightarrow> char \<Rightarrow> string \<Rightarrow> string" where
  "strings_ReplaceAll [] old new = []"
| "strings_ReplaceAll (c # s) old new =
     (if c = old then new else [c]) @ strings_ReplaceAll s old new"

lemma strings_ReplaceAll_append [simp]:
  "strings_ReplaceAll (s @ t) old new = strings_ReplaceAll s old new @ strings_ReplaceAll t old new"
  by (induction s) auto

text \<open>The verb \<open>%q\<close> of \<open>fmt\<close>: the string in double quotes, with \<open>"\<close> and \<open>\\<close> escaped.\<close>

definition go_quote :: "string \<Rightarrow> string" where
  "go_quote s =
     CHR 0x22 # concat (map (\<lambda>c. if c = CHR 0x22 \<or> c = CHR 0x5C then [CHR 0x5C, c] else [c]) s)
       @ [CHR 0x22]"

text \<open>Values decoded from JSON or YAML into \<open>any\<close>.\<close>

datatype json =
    JNull
  | JBool bool
  | JNum int
  | JString string
  | JArray "json list"
  | JObject "(string \<times> json) list"

section \<open>Lists\<close>

lemma find_eq_Some_split:
  "find P xs = Some x \<longleftrightarrow> (\<exists>ys zs. xs = ys @ x # zs \<and> P x \<and> (\<forall>y \<in> set ys. \<not> P y))"
proof (induction xs)
  case (Cons a xs)
  show ?case
  proof (cases "P a")
    case True
    then show ?thesis by (auto simp: Cons_eq_append_conv)
  next
    case False
    have "(\<exists>ys zs. a # xs = ys @ x # zs \<and> P x \<and> (\<forall>y \<in> set ys. \<not> P y)) \<longleftrightarrow>
        (\<exists>ys zs. xs = ys @ x # zs \<and> P x \<and> (\<forall>y \<in> set ys. \<not> P y))" (is "?l \<longleftrightarrow> ?r")
    proof
      assume ?l
      then show ?r using False by (auto simp: Cons_eq_append_conv)
    next
      assume ?r
      then obtain ys zs where "xs = ys @ x # zs" "P x" "\<forall>y \<in> set ys. \<not> P y" by blast
      then show ?l using False by (intro exI[of _ "a # ys"] exI[of _ zs]) simp
    qed
    then show ?thesis using Cons.IH False by simp
  qed
qed simp

section \<open>Maps\<close>

text \<open>The zero value on a missing key, and reading or ranging over a map that may be \<open>nil\<close>.\<close>

definition map_index :: "gomap \<Rightarrow> string \<Rightarrow> string" where
  "map_index m k = (case map_of m k of None \<Rightarrow> '''' | Some v \<Rightarrow> v)"

definition entries :: "'a list option \<Rightarrow> 'a list" where
  "entries m = (case m of None \<Rightarrow> [] | Some xs \<Rightarrow> xs)"

lemma entries_simps [simp]: "entries None = []" "entries (Some xs) = xs"
  by (simp_all add: entries_def)

definition wf_map :: "('k \<times> 'v) list \<Rightarrow> bool" where
  "wf_map m \<longleftrightarrow> distinct (map fst m)"

lemma wf_map_Nil [simp]: "wf_map []"
  by (simp add: wf_map_def)

lemma wf_map_Cons [simp]: "wf_map ((k, v) # m) \<longleftrightarrow> k \<notin> fst ` set m \<and> wf_map m"
  by (simp add: wf_map_def)

lemma wf_map_update [simp]: "wf_map m \<Longrightarrow> wf_map (AList.update k v m)"
  by (simp add: wf_map_def distinct_update)

lemma wf_map_delete [simp]: "wf_map m \<Longrightarrow> wf_map (AList.delete k m)"
  by (simp add: wf_map_def distinct_delete)

text \<open>\<open>maps.Copy(dst, src)\<close> assigns every entry of \<open>src\<close> to \<open>dst\<close>.\<close>

fun maps_Copy :: "('k \<times> 'v) list \<Rightarrow> ('k \<times> 'v) list \<Rightarrow> ('k \<times> 'v) list" where
  "maps_Copy dst [] = dst"
| "maps_Copy dst ((k, v) # src) = maps_Copy (AList.update k v dst) src"

lemma wf_map_Copy [simp]: "wf_map dst \<Longrightarrow> wf_map (maps_Copy dst src)"
  by (induction dst src rule: maps_Copy.induct) auto

lemma map_of_maps_Copy:
  "wf_map src \<Longrightarrow> map_of (maps_Copy dst src) = map_of dst ++ map_of src"
proof (induction dst src rule: maps_Copy.induct)
  case (2 dst k v src)
  then have "map_of src k = None" by (simp add: map_of_eq_None_iff)
  then show ?case using 2 by (auto simp: update_conv' fun_eq_iff map_add_def split: option.split)
qed simp

text \<open>A loop that assigns \<open>m[f k] = v\<close> for every entry, with an injective key translation.\<close>

fun assign_all :: "('k \<Rightarrow> 'k) \<Rightarrow> ('k \<times> 'v) list \<Rightarrow> ('k \<times> 'v) list \<Rightarrow> ('k \<times> 'v) list" where
  "assign_all f [] m = m"
| "assign_all f ((k, v) # es) m = assign_all f es (AList.update (f k) v m)"

lemma map_of_assign_all_other:
  "(\<And>k. k \<in> fst ` set es \<Longrightarrow> f k \<noteq> k') \<Longrightarrow> map_of (assign_all f es m) k' = map_of m k'"
  by (induction f es m rule: assign_all.induct) (auto simp: update_conv')

lemma map_of_assign_all_hit:
  "inj f \<Longrightarrow> wf_map es \<Longrightarrow> map_of es k = Some v \<Longrightarrow> map_of (assign_all f es m) (f k) = Some v"
proof (induction f es m rule: assign_all.induct)
  case (2 f k' v' es m)
  show ?case
  proof (cases "k = k'")
    case True
    with 2 have "map_of (assign_all f es (AList.update (f k) v m)) (f k) = map_of (AList.update (f k) v m) (f k)"
      by (intro map_of_assign_all_other) (auto simp: inj_eq)
    with 2 True show ?thesis by (simp add: update_conv')
  qed (use 2 in auto)
qed simp

lemma wf_map_assign_all [simp]: "wf_map m \<Longrightarrow> wf_map (assign_all f es m)"
  by (induction f es m rule: assign_all.induct) auto

text \<open>A loop that deletes every key of a list.\<close>

lemma map_of_fold_delete:
  "map_of (fold (\<lambda>k. AList.delete (f k)) ks m) x = (if x \<in> f ` set ks then None else map_of m x)"
  by (induction ks arbitrary: m) (auto simp: delete_conv')

section \<open>Random order\<close>

text \<open>
  \<open>rand.Shuffle(n, swap)\<close>: for \<open>i\<close> from \<open>n - 1\<close> down to 1 it draws \<open>j\<close> with \<open>0 \<le> j \<le> i\<close> and
  swaps the elements \<open>i\<close> and \<open>j\<close>. The draws are a parameter.
\<close>

definition swap_elems :: "nat \<Rightarrow> nat \<Rightarrow> 'a list \<Rightarrow> 'a list" where
  "swap_elems i j xs = xs[i := xs ! j, j := xs ! i]"

fun shuffle_from :: "(nat \<Rightarrow> nat) \<Rightarrow> nat \<Rightarrow> 'a list \<Rightarrow> 'a list" where
  "shuffle_from draw 0 xs = xs"
| "shuffle_from draw (Suc i) xs =
     shuffle_from draw i (swap_elems (Suc i) (draw (Suc i) mod Suc (Suc i)) xs)"

definition rand_Shuffle :: "(nat \<Rightarrow> nat) \<Rightarrow> 'a list \<Rightarrow> 'a list" where
  "rand_Shuffle draw xs = shuffle_from draw (length xs - 1) xs"

lemma mset_shuffle_from: "i < length xs \<Longrightarrow> mset (shuffle_from draw i xs) = mset xs"
proof (induction draw i xs rule: shuffle_from.induct)
  case (2 draw i xs)
  let ?j = "draw (Suc i) mod Suc (Suc i)"
  have "?j < length xs" using 2(2) mod_less_divisor[of "Suc (Suc i)" "draw (Suc i)"] by linarith
  then have "mset (swap_elems (Suc i) ?j xs) = mset xs"
    using 2(2) by (simp add: swap_elems_def mset_swap)
  then show ?case using 2 by (simp add: swap_elems_def)
qed simp

lemma mset_rand_Shuffle [simp]: "mset (rand_Shuffle draw xs) = mset xs"
  by (cases xs) (simp_all add: rand_Shuffle_def mset_shuffle_from)

lemma set_rand_Shuffle [simp]: "set (rand_Shuffle draw xs) = set xs"
  by (metis mset_rand_Shuffle set_mset_mset)

lemma length_rand_Shuffle [simp]: "length (rand_Shuffle draw xs) = length xs"
  by (metis mset_rand_Shuffle size_mset)

lemma distinct_rand_Shuffle [simp]: "distinct (rand_Shuffle draw xs) = distinct xs"
  by (metis mset_rand_Shuffle mset_eq_imp_distinct_iff)

lemma rand_Shuffle_Nil_iff [simp]: "rand_Shuffle draw xs = [] \<longleftrightarrow> xs = []"
  by (metis length_0_conv length_rand_Shuffle)

section \<open>Error values\<close>

text \<open>
  The error values that occur: texts made by \<open>fmt.Errorf\<close> or \<open>errors.New\<close>, a text wrapping another
  error (\<open>"...: %w"\<close>), the sentinel \<open>management.ErrTransitioning\<close>, the two error types of the
  gophercloud library the code looks for, and any other error made by code outside the repository.
\<close>

datatype go_error =
    ErrorText string
  | ErrorWrap string go_error
  | ErrTransitioning
  | ErrUnableToReauthenticate string
  | ErrErrorAfterReauthentication string
  | ForeignError string

fun error_text :: "go_error \<Rightarrow> string" where
  "error_text (ErrorText m) = m"
| "error_text (ErrorWrap m e) = m @ '': '' @ error_text e"
| "error_text ErrTransitioning = ''power state transition already in progress''"
| "error_text (ErrUnableToReauthenticate m) = m"
| "error_text (ErrErrorAfterReauthentication m) = m"
| "error_text (ForeignError m) = m"

text \<open>\<open>errors.Is\<close> and \<open>errors.As\<close> walk the chain of wrapped errors.\<close>

fun errors_Is :: "go_error \<Rightarrow> go_error \<Rightarrow> bool" where
  "errors_Is (ErrorWrap m e) t = (ErrorWrap m e = t \<or> errors_Is e t)"
| "errors_Is e t = (e = t)"

fun errors_As :: "(go_error \<Rightarrow> bool) \<Rightarrow> go_error \<Rightarrow> bool" where
  "errors_As p (ErrorWrap m e) = (p (ErrorWrap m e) \<or> errors_As p e)"
| "errors_As p e = p e"

fun is_UnableToReauthenticate :: "go_error \<Rightarrow> bool" where
  "is_UnableToReauthenticate (ErrUnableToReauthenticate _) = True"
| "is_UnableToReauthenticate _ = False"

fun is_ErrorAfterReauthentication :: "go_error \<Rightarrow> bool" where
  "is_ErrorAfterReauthentication (ErrErrorAfterReauthentication _) = True"
| "is_ErrorAfterReauthentication _ = False"

section \<open>Results of a reconcile call\<close>

text \<open>The fields of \<open>ctrl.Result\<close> and the pair \<open>(ctrl.Result, error)\<close> a reconcile function returns.\<close>

record ctrl_result =
  requeue :: bool
  requeueAfter :: duration

definition no_requeue :: ctrl_result where
  "no_requeue = \<lparr>requeue = False, requeueAfter = 0\<rparr>"

definition requeue_after :: "duration \<Rightarrow> ctrl_result" where
  "requeue_after d = \<lparr>requeue = False, requeueAfter = d\<rparr>"

type_synonym outcome = "ctrl_result \<times> go_error option"

abbreviation ok_done :: outcome where
  "ok_done \<equiv> (no_requeue, None)"

abbreviation failed_with :: "go_error \<Rightarrow> outcome" where
  "failed_with e \<equiv> (no_requeue, Some e)"

lemma requeueAfter_simps [simp]:
  "requeueAfter no_requeue = 0" "requeueAfter (requeue_after d) = d"
  "requeue no_requeue = False" "requeue (requeue_after d) = False"
  by (simp_all add: no_requeue_def requeue_after_def)

lemma requeue_after_eq_no_requeue [simp]: "requeue_after d = no_requeue \<longleftrightarrow> d = 0"
  by (simp add: no_requeue_def requeue_after_def)

end
