(* ===== verification/Host_Lock.thy ===== *)
theory Host_Lock
  imports Prelude
begin

text \<open>
  The per-host lock of \<open>internal/inventory/lock.go\<close>: a process-global map from host IDs to mutexes
  that only grows. A mutex is its locked bit; unlocking an unlocked mutex is a fatal error of the
  Go runtime, recorded in the field \<open>fatal\<close>. After the operations come the abstract view (the set
  of held hosts), the contract the controllers use as a locale with its interpretation, and the
  protocol of concurrent reconcile workers as a step relation with mutual exclusion.
\<close>

section \<open>The operations\<close>

record host_locks =
  mutexes :: "string \<rightharpoonup> bool"
  fatal :: bool

definition no_locks :: host_locks where
  "no_locks = \<lparr>mutexes = Map.empty, fatal = False\<rparr>"

definition LoadOrStore :: "string \<Rightarrow> host_locks \<Rightarrow> bool \<times> host_locks" where
  "LoadOrStore hostID l =
     (case mutexes l hostID of
        Some locked \<Rightarrow> (locked, l)
      | None \<Rightarrow> (False, l\<lparr>mutexes := (mutexes l)(hostID \<mapsto> False)\<rparr>))"

definition TryLock :: "string \<Rightarrow> host_locks \<Rightarrow> bool \<times> host_locks" where
  "TryLock hostID l =
     (let (locked, l') = LoadOrStore hostID l in
      if locked then (False, l')
      else (True, l'\<lparr>mutexes := (mutexes l')(hostID \<mapsto> True)\<rparr>))"

definition Unlock :: "string \<Rightarrow> host_locks \<Rightarrow> host_locks" where
  "Unlock hostID l =
     (case mutexes l hostID of
        Some True \<Rightarrow> l\<lparr>mutexes := (mutexes l)(hostID \<mapsto> False)\<rparr>
      | Some False \<Rightarrow> l\<lparr>fatal := True\<rparr>
      | None \<Rightarrow> l)"

section \<open>The set of held hosts\<close>

definition held :: "host_locks \<Rightarrow> string set" where
  "held l = {h. mutexes l h = Some True}"

lemma held_no_locks [simp]: "held no_locks = {}" "fatal no_locks = False"
  by (simp_all add: held_def no_locks_def)

lemma TryLock_result: "fst (TryLock h l) \<longleftrightarrow> h \<notin> held l"
  by (auto simp: TryLock_def LoadOrStore_def held_def split: option.split)

lemma TryLock_held: "held (snd (TryLock h l)) = insert h (held l)"
  by (auto simp: TryLock_def LoadOrStore_def held_def split: option.splits if_splits)

lemma TryLock_fatal [simp]: "fatal (snd (TryLock h l)) = fatal l"
  by (auto simp: TryLock_def LoadOrStore_def split: option.split)

lemma TryLock_known: "dom (mutexes (snd (TryLock h l))) = insert h (dom (mutexes l))"
  by (auto simp: TryLock_def LoadOrStore_def split: option.split)

lemma Unlock_held: "held (Unlock h l) = held l - {h}"
  by (auto simp: Unlock_def held_def split: option.split bool.split if_splits)

lemma Unlock_fatal: "fatal (Unlock h l) \<longleftrightarrow> fatal l \<or> mutexes l h = Some False"
  by (auto simp: Unlock_def split: option.split bool.split)

lemma Unlock_held_fatal: "h \<in> held l \<Longrightarrow> fatal (Unlock h l) = fatal l"
  by (simp add: Unlock_fatal held_def)

section \<open>The contract of the lock, and what a client gets from it\<close>

locale try_lock =
  fixes try_acquire :: "'h \<Rightarrow> 's \<Rightarrow> bool \<times> 's"
    and release :: "'h \<Rightarrow> 's \<Rightarrow> 's"
    and holding :: "'s \<Rightarrow> 'h set"
    and broken :: "'s \<Rightarrow> bool"
  assumes try_iff_free: "fst (try_acquire h s) \<longleftrightarrow> h \<notin> holding s"
    and try_holding: "holding (snd (try_acquire h s)) = insert h (holding s)"
    and try_broken: "broken (snd (try_acquire h s)) = broken s"
    and release_holding: "holding (release h s) = holding s - {h}"
    and release_broken: "h \<in> holding s \<Longrightarrow> broken (release h s) = broken s"
begin

lemma busy_is_noop:
  "h \<in> holding s \<Longrightarrow> \<not> fst (try_acquire h s) \<and> holding (snd (try_acquire h s)) = holding s"
  using try_iff_free try_holding by auto

lemma others_unaffected:
  "h' \<noteq> h \<Longrightarrow> fst (try_acquire h' (snd (try_acquire h s))) = fst (try_acquire h' s)"
  by (simp add: try_iff_free try_holding)

text \<open>A section between a successful acquire and the deferred release leaves no trace.\<close>

lemma bracket:
  assumes "fst (try_acquire h s)"
    and "holding t = holding (snd (try_acquire h s))" and "broken t = broken (snd (try_acquire h s))"
  shows "holding (release h t) = holding s \<and> broken (release h t) = broken s"
proof -
  have "h \<notin> holding s" using assms(1) by (simp add: try_iff_free)
  then show ?thesis using assms(2,3) by (simp add: try_holding try_broken release_holding release_broken)
qed

lemma reacquire_after_release:
  "fst (try_acquire h (release h s))"
  by (simp add: try_iff_free release_holding)

end

interpretation hostlock: try_lock TryLock Unlock held fatal
  by unfold_locales (auto simp: TryLock_result TryLock_held Unlock_held Unlock_held_fatal)

section \<open>Concurrent workers\<close>

text \<open>
  Reconcile workers run concurrently. Each one is outside a critical section or inside the one of
  a host; it enters by \<open>TryLock\<close>, goes on without entering when that fails, and leaves by the
  deferred \<open>Unlock\<close>. Between two steps of one worker any other may move.
\<close>

datatype worker_pc = Outside | Inside string

record workers =
  pc :: "nat \<Rightarrow> worker_pc"
  wlocks :: host_locks

definition init_workers :: workers where
  "init_workers = \<lparr>pc = (\<lambda>_. Outside), wlocks = no_locks\<rparr>"

inductive worker_step :: "workers \<Rightarrow> workers \<Rightarrow> bool" where
  enter: "pc s w = Outside \<Longrightarrow> TryLock h (wlocks s) = (True, l) \<Longrightarrow>
     worker_step s (s\<lparr>pc := (pc s)(w := Inside h), wlocks := l\<rparr>)"
| give_up: "pc s w = Outside \<Longrightarrow> TryLock h (wlocks s) = (False, l) \<Longrightarrow>
     worker_step s (s\<lparr>wlocks := l\<rparr>)"
| leave: "pc s w = Inside h \<Longrightarrow>
     worker_step s (s\<lparr>pc := (pc s)(w := Outside), wlocks := Unlock h (wlocks s)\<rparr>)"

inductive_cases worker_stepE: "worker_step s t"

inductive workers_reachable :: "workers \<Rightarrow> bool" where
  start: "workers_reachable init_workers"
| step: "workers_reachable s \<Longrightarrow> worker_step s t \<Longrightarrow> workers_reachable t"

definition workers_inv :: "workers \<Rightarrow> bool" where
  "workers_inv s \<longleftrightarrow>
     (\<forall>w h. pc s w = Inside h \<longrightarrow> h \<in> held (wlocks s)) \<and>
     (\<forall>v w h. pc s v = Inside h \<longrightarrow> pc s w = Inside h \<longrightarrow> v = w) \<and>
     (\<forall>h \<in> held (wlocks s). \<exists>w. pc s w = Inside h) \<and>
     \<not> fatal (wlocks s)"

lemma TryLock_pair:
  assumes "TryLock h l = (got, l')"
  shows "got \<longleftrightarrow> h \<notin> held l" "held l' = insert h (held l)" "fatal l' = fatal l"
  using TryLock_result[of h l] TryLock_held[of h l] TryLock_fatal[of h l] assms by simp_all

lemma worker_step_inv:
  assumes "worker_step s t" and "workers_inv s"
  shows "workers_inv t"
  using assms
proof (induction rule: worker_step.induct)
  case (enter s w h l)
  note tr = TryLock_pair[OF enter(2)]
  show ?case using enter(1,3) tr unfolding workers_inv_def
    by (auto split: if_splits) (metis worker_pc.distinct(1))
next
  case (give_up s w h l)
  note tr = TryLock_pair[OF give_up(2)]
  show ?case using give_up(1,3) tr unfolding workers_inv_def by (auto simp: insert_absorb)
next
  case (leave s w h)
  have "h \<in> held (wlocks s)" using leave unfolding workers_inv_def by blast
  then show ?case using leave unfolding workers_inv_def
    by (auto simp: Unlock_held Unlock_held_fatal split: if_splits) (metis worker_pc.inject)
qed

lemma workers_reachable_inv: "workers_reachable s \<Longrightarrow> workers_inv s"
proof (induction rule: workers_reachable.induct)
  case start
  show ?case by (simp add: workers_inv_def init_workers_def)
next
  case (step s t)
  then show ?case by (blast intro: worker_step_inv)
qed

section \<open>Properties\<close>

text \<open>C17: In every state the concurrent workers can reach, no host is worked on by two workers at
  once, a host's mutex is locked exactly while some worker is in its critical section, and no
  \<open>Unlock\<close> has hit an unlocked mutex.\<close>

theorem lock_mutual_exclusion:
  assumes "workers_reachable s"
  shows "(\<forall>v w h. pc s v = Inside h \<and> pc s w = Inside h \<longrightarrow> v = w) \<and>
    (\<forall>h. mutexes (wlocks s) h = Some True \<longleftrightarrow> (\<exists>w. pc s w = Inside h)) \<and> \<not> fatal (wlocks s)"
  using workers_reachable_inv[OF assms] unfolding workers_inv_def held_def by blast

theorem lock_mutual_exclusion_witness:
  "\<exists>s. workers_reachable s \<and> pc s 1 = Inside ''a'' \<and> mutexes (wlocks s) ''a'' = Some True \<and>
     (\<forall>v. pc s v = Inside ''a'' \<longrightarrow> v = 1)"
proof -
  let ?l = "snd (TryLock ''a'' no_locks)"
  let ?s = "init_workers\<lparr>pc := (pc init_workers)(1 := Inside ''a''), wlocks := ?l\<rparr>"
  have "TryLock ''a'' (wlocks init_workers) = (True, ?l)"
    by (simp add: init_workers_def TryLock_def LoadOrStore_def no_locks_def)
  from workers_reachable.step[OF workers_reachable.start worker_step.enter[OF _ this, of 1]]
  have reach: "workers_reachable ?s" by (simp add: init_workers_def)
  have "pc ?s 1 = Inside ''a''" by simp
  with lock_mutual_exclusion[OF reach] reach show ?thesis by blast
qed

text \<open>Unlocking releases the one host and no other. Unlocking a host that was never tried is
  silently ignored, while unlocking one that was tried and is not locked is the fatal error of
  \<open>sync.Mutex\<close>: the two cases the comment on \<open>Unlock\<close> describes as the same.\<close>

theorem unlock_cases:
  "(mutexes l h = None \<longrightarrow> Unlock h l = l) \<and>
   (mutexes l h = Some False \<longrightarrow> fatal (Unlock h l)) \<and>
   (mutexes l h = Some True \<longrightarrow> fatal (Unlock h l) = fatal l \<and> fst (TryLock h (Unlock h l))) \<and>
   (h' \<noteq> h \<longrightarrow> mutexes (Unlock h l) h' = mutexes l h')"
proof -
  have "mutexes l h = Some True \<longrightarrow> fatal (Unlock h l) = fatal l"
    using hostlock.release_broken[of h l] by (simp add: held_def)
  moreover have "fst (TryLock h (Unlock h l))" by (rule hostlock.reacquire_after_release)
  ultimately show ?thesis by (auto simp: Unlock_def split: option.split bool.split)
qed

theorem unlock_cases_witness:
  "fatal (Unlock ''a'' \<lparr>mutexes = [''a'' \<mapsto> False], fatal = False\<rparr>) \<and>
   Unlock ''b'' \<lparr>mutexes = [''a'' \<mapsto> True], fatal = False\<rparr> = \<lparr>mutexes = [''a'' \<mapsto> True], fatal = False\<rparr>"
  using unlock_cases[of "\<lparr>mutexes = [''a'' \<mapsto> False], fatal = False\<rparr>" "''a''" "''b''"]
    unlock_cases[of "\<lparr>mutexes = [''a'' \<mapsto> True], fatal = False\<rparr>" "''b''" "''a''"] by simp

end
