(* ===== verification/Api_Types.thy ===== *)
theory Api_Types
  imports Prelude
begin

text \<open>
  The custom resources of \<open>api/v1alpha1\<close>: \<open>BareMetalInstance\<close> and \<open>BareMetalPool\<close> with their specs,
  statuses, phases and condition accessors, over the fields of the Kubernetes metadata the operator
  uses. The helper functions of the Kubernetes libraries that the code calls on these values are
  the fields of the record \<open>lib\<close>; what the code relies on of them is the predicate \<open>lib_laws\<close>, and
  \<open>ref_lib\<close> is an instance that satisfies it. The status-condition accessors of both resources
  meet one contract, the locale \<open>status_conditions\<close>.
\<close>

section \<open>Metadata and conditions\<close>

datatype condition_status = ConditionTrue | ConditionFalse | ConditionUnknown

record condition =
  cType :: string
  cStatus :: condition_status
  observedGeneration :: int64
  cReason :: string
  cMessage :: string
  lastTransitionTime :: int

record owner_reference =
  orAPIVersion :: string
  orKind :: string
  orName :: string
  orUID :: string
  orController :: "bool option"

record object_meta =
  objName :: string
  objNamespace :: string
  objUID :: string
  generation :: int64
  objLabels :: "gomap option"
  objAnnotations :: "gomap option"
  finalizers :: "string list"
  ownerReferences :: "owner_reference list"
  deletionTimestamp :: "int option"
  resourceVersion :: string

text \<open>Entries of the provisioning job history; the operator never looks inside one.\<close>

typedecl job_status

section \<open>Helper functions of the Kubernetes libraries\<close>

record lib =
  meta_SetStatusCondition :: "condition list \<Rightarrow> condition \<Rightarrow> condition list \<times> bool"
  meta_FindStatusCondition :: "condition list \<Rightarrow> string \<Rightarrow> condition option"
  meta_IsStatusConditionTrue :: "condition list \<Rightarrow> string \<Rightarrow> bool"
  meta_IsStatusConditionFalse :: "condition list \<Rightarrow> string \<Rightarrow> bool"
  AddFinalizer :: "string list \<Rightarrow> string \<Rightarrow> string list \<times> bool"
  RemoveFinalizer :: "string list \<Rightarrow> string \<Rightarrow> string list \<times> bool"
  ContainsFinalizer :: "string list \<Rightarrow> string \<Rightarrow> bool"
  IgnoreNotFound :: "go_error option \<Rightarrow> go_error option"
  IgnoreAlreadyExists :: "go_error option \<Rightarrow> go_error option"
  result_IsZero :: "ctrl_result \<Rightarrow> bool"
  time_IsZero :: "int option \<Rightarrow> bool"

definition condition_laws :: "lib \<Rightarrow> bool" where
  "condition_laws L \<longleftrightarrow>
     (\<forall>cs c. \<exists>tm. meta_FindStatusCondition L (fst (meta_SetStatusCondition L cs c)) (cType c)
        = Some (c\<lparr>lastTransitionTime := tm\<rparr>)) \<and>
     (\<forall>cs c t. t \<noteq> cType c \<longrightarrow>
        meta_FindStatusCondition L (fst (meta_SetStatusCondition L cs c)) t
          = meta_FindStatusCondition L cs t) \<and>
     (\<forall>t. meta_FindStatusCondition L [] t = None) \<and>
     (\<forall>cs t. meta_IsStatusConditionTrue L cs t =
        (\<exists>c. meta_FindStatusCondition L cs t = Some c \<and> cStatus c = ConditionTrue)) \<and>
     (\<forall>cs t. meta_IsStatusConditionFalse L cs t =
        (\<exists>c. meta_FindStatusCondition L cs t = Some c \<and> cStatus c = ConditionFalse))"

definition finalizer_laws :: "lib \<Rightarrow> bool" where
  "finalizer_laws L \<longleftrightarrow>
     (\<forall>fs f. set (fst (AddFinalizer L fs f)) = insert f (set fs)) \<and>
     (\<forall>fs f. snd (AddFinalizer L fs f) = (f \<notin> set fs)) \<and>
     (\<forall>fs f. f \<in> set fs \<longrightarrow> fst (AddFinalizer L fs f) = fs) \<and>
     (\<forall>fs f. set (fst (RemoveFinalizer L fs f)) = set fs - {f}) \<and>
     (\<forall>fs f. snd (RemoveFinalizer L fs f) = (f \<in> set fs)) \<and>
     (\<forall>fs f. f \<notin> set fs \<longrightarrow> fst (RemoveFinalizer L fs f) = fs) \<and>
     (\<forall>fs f. ContainsFinalizer L fs f = (f \<in> set fs))"

definition error_laws :: "lib \<Rightarrow> bool" where
  "error_laws L \<longleftrightarrow>
     IgnoreNotFound L None = None \<and>
     (\<forall>e. IgnoreNotFound L (Some e) = None \<or> IgnoreNotFound L (Some e) = Some e) \<and>
     IgnoreAlreadyExists L None = None \<and>
     (\<forall>e. IgnoreAlreadyExists L (Some e) = None \<or> IgnoreAlreadyExists L (Some e) = Some e)"

definition zero_laws :: "lib \<Rightarrow> bool" where
  "zero_laws L \<longleftrightarrow>
     (\<forall>r. result_IsZero L r = (r = no_requeue)) \<and>
     (\<forall>t. time_IsZero L t = (t = None \<or> t = Some 0))"

definition lib_laws :: "lib \<Rightarrow> bool" where
  "lib_laws L \<longleftrightarrow> condition_laws L \<and> finalizer_laws L \<and> error_laws L \<and> zero_laws L"

text \<open>The laws as conditional rewrite rules: under \<open>lib_laws L\<close> the simplifier uses them as they are.\<close>

lemma lib_find_set_same:
  assumes "lib_laws L"
  shows "\<exists>tm. meta_FindStatusCondition L (fst (meta_SetStatusCondition L cs c)) (cType c)
    = Some (c\<lparr>lastTransitionTime := tm\<rparr>)"
  using assms unfolding lib_laws_def condition_laws_def by blast

lemma lib_find_set_other [simp]:
  assumes "lib_laws L" and "t \<noteq> cType c"
  shows "meta_FindStatusCondition L (fst (meta_SetStatusCondition L cs c)) t = meta_FindStatusCondition L cs t"
  using assms unfolding lib_laws_def condition_laws_def by blast

lemma lib_find_Nil [simp]: "lib_laws L \<Longrightarrow> meta_FindStatusCondition L [] t = None"
  unfolding lib_laws_def condition_laws_def by blast

lemma lib_condition_true:
  "lib_laws L \<Longrightarrow> meta_IsStatusConditionTrue L cs t \<longleftrightarrow>
     (\<exists>c. meta_FindStatusCondition L cs t = Some c \<and> cStatus c = ConditionTrue)"
  unfolding lib_laws_def condition_laws_def by blast

lemma lib_condition_false:
  "lib_laws L \<Longrightarrow> meta_IsStatusConditionFalse L cs t \<longleftrightarrow>
     (\<exists>c. meta_FindStatusCondition L cs t = Some c \<and> cStatus c = ConditionFalse)"
  unfolding lib_laws_def condition_laws_def by blast

lemma lib_AddFinalizer [simp]:
  assumes "lib_laws L"
  shows "set (fst (AddFinalizer L fs f)) = insert f (set fs)"
    and "snd (AddFinalizer L fs f) \<longleftrightarrow> f \<notin> set fs"
    and "f \<in> set fs \<Longrightarrow> fst (AddFinalizer L fs f) = fs"
  using assms unfolding lib_laws_def finalizer_laws_def by simp_all

lemma lib_RemoveFinalizer [simp]:
  assumes "lib_laws L"
  shows "set (fst (RemoveFinalizer L fs f)) = set fs - {f}"
    and "snd (RemoveFinalizer L fs f) \<longleftrightarrow> f \<in> set fs"
    and "f \<notin> set fs \<Longrightarrow> fst (RemoveFinalizer L fs f) = fs"
  using assms unfolding lib_laws_def finalizer_laws_def by simp_all

lemma lib_ContainsFinalizer [simp]: "lib_laws L \<Longrightarrow> ContainsFinalizer L fs f \<longleftrightarrow> f \<in> set fs"
  unfolding lib_laws_def finalizer_laws_def by blast

lemma lib_Ignore_None [simp]:
  "lib_laws L \<Longrightarrow> IgnoreNotFound L None = None"
  "lib_laws L \<Longrightarrow> IgnoreAlreadyExists L None = None"
  unfolding lib_laws_def error_laws_def by blast+

lemma lib_IgnoreNotFound_cases:
  "lib_laws L \<Longrightarrow> IgnoreNotFound L e = None \<or> IgnoreNotFound L e = e"
  unfolding lib_laws_def error_laws_def by (cases e) auto

lemma lib_IgnoreAlreadyExists_cases:
  "lib_laws L \<Longrightarrow> IgnoreAlreadyExists L e = None \<or> IgnoreAlreadyExists L e = e"
  unfolding lib_laws_def error_laws_def by (cases e) auto

lemma lib_result_IsZero [simp]: "lib_laws L \<Longrightarrow> result_IsZero L r \<longleftrightarrow> r = no_requeue"
  unfolding lib_laws_def zero_laws_def by blast

lemma lib_time_IsZero [simp]: "lib_laws L \<Longrightarrow> time_IsZero L t \<longleftrightarrow> t = None \<or> t = Some 0"
  unfolding lib_laws_def zero_laws_def by blast

subsection \<open>An instance of the laws\<close>

fun ref_set_condition :: "condition list \<Rightarrow> condition \<Rightarrow> condition list" where
  "ref_set_condition [] c = [c]"
| "ref_set_condition (d # cs) c = (if cType d = cType c then c # cs else d # ref_set_condition cs c)"

definition ref_lib :: lib where
  "ref_lib = \<lparr>
     meta_SetStatusCondition = (\<lambda>cs c. (ref_set_condition cs c, ref_set_condition cs c \<noteq> cs)),
     meta_FindStatusCondition = (\<lambda>cs t. find (\<lambda>c. cType c = t) cs),
     meta_IsStatusConditionTrue =
       (\<lambda>cs t. case find (\<lambda>c. cType c = t) cs of None \<Rightarrow> False | Some c \<Rightarrow> cStatus c = ConditionTrue),
     meta_IsStatusConditionFalse =
       (\<lambda>cs t. case find (\<lambda>c. cType c = t) cs of None \<Rightarrow> False | Some c \<Rightarrow> cStatus c = ConditionFalse),
     AddFinalizer = (\<lambda>fs f. if f \<in> set fs then (fs, False) else (fs @ [f], True)),
     RemoveFinalizer = (\<lambda>fs f. (filter (\<lambda>x. x \<noteq> f) fs, f \<in> set fs)),
     ContainsFinalizer = (\<lambda>fs f. f \<in> set fs),
     IgnoreNotFound = (\<lambda>e. if e = Some (ForeignError ''not found'') then None else e),
     IgnoreAlreadyExists = (\<lambda>e. if e = Some (ForeignError ''already exists'') then None else e),
     result_IsZero = (\<lambda>r. r = no_requeue),
     time_IsZero = (\<lambda>t. t = None \<or> t = Some 0)\<rparr>"

lemma find_ref_set_same: "find (\<lambda>d. cType d = cType c) (ref_set_condition cs c) = Some c"
  by (induction cs) auto

lemma find_ref_set_other:
  "t \<noteq> cType c \<Longrightarrow> find (\<lambda>d. cType d = t) (ref_set_condition cs c) = find (\<lambda>d. cType d = t) cs"
  by (induction cs) auto

lemma ref_lib_laws: "lib_laws ref_lib"
proof -
  have self: "\<exists>tm. c = c\<lparr>lastTransitionTime := tm\<rparr>" for c :: condition
    by (rule exI[of _ "lastTransitionTime c"]) simp
  have "condition_laws ref_lib"
    unfolding condition_laws_def ref_lib_def
    by (simp add: find_ref_set_same find_ref_set_other self split: option.split)
  moreover have "finalizer_laws ref_lib"
    unfolding finalizer_laws_def ref_lib_def by (auto simp: filter_id_conv)
  moreover have "error_laws ref_lib"
    unfolding error_laws_def ref_lib_def by auto
  moreover have "zero_laws ref_lib"
    unfolding zero_laws_def ref_lib_def by simp
  ultimately show ?thesis by (simp add: lib_laws_def)
qed

section \<open>BareMetalInstance\<close>

datatype run_strategy = RunStrategyUnspecified | RunStrategyAlways | RunStrategyHalted

datatype bmi_phase =
    BareMetalInstancePhaseUnset
  | BareMetalInstancePhaseAllocating
  | BareMetalInstancePhaseProgressing
  | BareMetalInstancePhaseReady
  | BareMetalInstancePhaseFailed
  | BareMetalInstancePhaseDeleting

datatype bmi_condition_type =
    HostConditionAllocated
  | HostConditionAvailable
  | HostConditionPowerSynced
  | HostConditionProvisionTemplateComplete
  | HostConditionDeprovisionTemplateComplete

fun bmi_condition_string :: "bmi_condition_type \<Rightarrow> string" where
  "bmi_condition_string HostConditionAllocated = ''Allocated''"
| "bmi_condition_string HostConditionAvailable = ''Available''"
| "bmi_condition_string HostConditionPowerSynced = ''PowerSynced''"
| "bmi_condition_string HostConditionProvisionTemplateComplete = ''ProvisionTemplateComplete''"
| "bmi_condition_string HostConditionDeprovisionTemplateComplete = ''DeprovisionTemplateComplete''"

lemma bmi_condition_string_inj [simp]:
  "bmi_condition_string t = bmi_condition_string u \<longleftrightarrow> t = u"
  by (cases t; cases u) simp_all

abbreviation HostConditionReasonProgressing :: string where
  "HostConditionReasonProgressing \<equiv> ''Progressing''"
abbreviation HostConditionReasonTemplateFailed :: string where
  "HostConditionReasonTemplateFailed \<equiv> ''TemplateFailed''"
abbreviation HostConditionReasonPowerOn :: string where
  "HostConditionReasonPowerOn \<equiv> ''PowerOn''"
abbreviation HostConditionReasonPowerOff :: string where
  "HostConditionReasonPowerOff \<equiv> ''PowerOff''"
abbreviation HostConditionReasonIronicAPIFailure :: string where
  "HostConditionReasonIronicAPIFailure \<equiv> ''IronicAPIFailure''"
abbreviation HostConditionReasonPowerSyncFailed :: string where
  "HostConditionReasonPowerSyncFailed \<equiv> ''PowerSyncFailed''"

record bmi_spec =
  hostType :: string
  externalHostID :: string
  externalHostName :: string
  hostClass :: string
  networkClass :: string
  hostSelector :: "gomap option"
  inventoryLabels :: "gomap option"
  inventoryPersistentLabels :: "gomap option"
  templateID :: string
  templateParameters :: string
  runStrategy :: run_strategy
  restartTrigger :: int64

record bmi_status =
  phase :: bmi_phase
  provisioningJobs :: "job_status list option"
  conditions :: "condition list option"
  desiredConfigVersion :: string
  statusRunStrategy :: run_strategy
  statusRestartTrigger :: int64

record bmi =
  imeta :: object_meta
  ispec :: bmi_spec
  istatus :: bmi_status

text \<open>Assignments to one status or spec field, as the handlers make them.\<close>

definition set_phase :: "bmi_phase \<Rightarrow> bmi \<Rightarrow> bmi" where
  "set_phase ph b = b\<lparr>istatus := (istatus b)\<lparr>phase := ph\<rparr>\<rparr>"

definition set_bmi_finalizers :: "string list \<Rightarrow> bmi \<Rightarrow> bmi" where
  "set_bmi_finalizers fs b = b\<lparr>imeta := (imeta b)\<lparr>finalizers := fs\<rparr>\<rparr>"

definition set_externalHostID :: "string \<Rightarrow> bmi \<Rightarrow> bmi" where
  "set_externalHostID h b = b\<lparr>ispec := (ispec b)\<lparr>externalHostID := h\<rparr>\<rparr>"

lemma set_simps [simp]:
  "imeta (set_phase ph b) = imeta b" "ispec (set_phase ph b) = ispec b"
  "istatus (set_phase ph b) = (istatus b)\<lparr>phase := ph\<rparr>"
  "imeta (set_bmi_finalizers fs b) = (imeta b)\<lparr>finalizers := fs\<rparr>"
  "ispec (set_bmi_finalizers fs b) = ispec b" "istatus (set_bmi_finalizers fs b) = istatus b"
  "imeta (set_externalHostID h b) = imeta b" "istatus (set_externalHostID h b) = istatus b"
  "ispec (set_externalHostID h b) = (ispec b)\<lparr>externalHostID := h\<rparr>"
  by (simp_all add: set_phase_def set_bmi_finalizers_def set_externalHostID_def)

subsection \<open>Condition accessors\<close>

definition bmi_SetStatusCondition ::
    "lib \<Rightarrow> bmi_condition_type \<Rightarrow> condition_status \<Rightarrow> string \<Rightarrow> string \<Rightarrow> bmi \<Rightarrow> bmi \<times> bool" where
  "bmi_SetStatusCondition L conditionType status reason message h =
     (let condition = \<lparr>cType = bmi_condition_string conditionType, cStatus = status,
            observedGeneration = 0, cReason = reason, cMessage = message, lastTransitionTime = 0\<rparr>;
          h' = (if conditions (istatus h) = None
                then h\<lparr>istatus := (istatus h)\<lparr>conditions := Some []\<rparr>\<rparr> else h);
          (cs, changed) = meta_SetStatusCondition L (entries (conditions (istatus h'))) condition
      in (h'\<lparr>istatus := (istatus h')\<lparr>conditions := Some cs\<rparr>\<rparr>, changed))"

abbreviation set_bmi_condition ::
    "lib \<Rightarrow> bmi_condition_type \<Rightarrow> condition_status \<Rightarrow> string \<Rightarrow> string \<Rightarrow> bmi \<Rightarrow> bmi" where
  "set_bmi_condition L t s r m b \<equiv> fst (bmi_SetStatusCondition L t s r m b)"

definition bmi_GetStatusCondition :: "lib \<Rightarrow> bmi_condition_type \<Rightarrow> bmi \<Rightarrow> condition option" where
  "bmi_GetStatusCondition L conditionType h =
     (case conditions (istatus h) of
        None \<Rightarrow> None
      | Some cs \<Rightarrow> meta_FindStatusCondition L cs (bmi_condition_string conditionType))"

definition bmi_IsStatusConditionTrue :: "lib \<Rightarrow> bmi_condition_type \<Rightarrow> bmi \<Rightarrow> bool" where
  "bmi_IsStatusConditionTrue L conditionType h =
     meta_IsStatusConditionTrue L (entries (conditions (istatus h))) (bmi_condition_string conditionType)"

definition bmi_IsStatusConditionFalse :: "lib \<Rightarrow> bmi_condition_type \<Rightarrow> bmi \<Rightarrow> bool" where
  "bmi_IsStatusConditionFalse L conditionType h =
     meta_IsStatusConditionFalse L (entries (conditions (istatus h))) (bmi_condition_string conditionType)"

definition bmi_IsStatusConditionUnknown :: "lib \<Rightarrow> bmi_condition_type \<Rightarrow> bmi \<Rightarrow> bool" where
  "bmi_IsStatusConditionUnknown L conditionType h =
     (case bmi_GetStatusCondition L conditionType h of
        None \<Rightarrow> True
      | Some cond \<Rightarrow> cStatus cond = ConditionUnknown)"

lemma bmi_condition_frame [simp]:
  "imeta (set_bmi_condition L t s r m b) = imeta b"
  "ispec (set_bmi_condition L t s r m b) = ispec b"
  "phase (istatus (set_bmi_condition L t s r m b)) = phase (istatus b)"
  "provisioningJobs (istatus (set_bmi_condition L t s r m b)) = provisioningJobs (istatus b)"
  "desiredConfigVersion (istatus (set_bmi_condition L t s r m b)) = desiredConfigVersion (istatus b)"
  "statusRunStrategy (istatus (set_bmi_condition L t s r m b)) = statusRunStrategy (istatus b)"
  "statusRestartTrigger (istatus (set_bmi_condition L t s r m b)) = statusRestartTrigger (istatus b)"
  by (simp_all add: bmi_SetStatusCondition_def Let_def split: prod.split)

lemma bmi_condition_of_status [simp]:
  "bmi_GetStatusCondition L t (set_phase ph b) = bmi_GetStatusCondition L t b"
  "bmi_GetStatusCondition L t (set_bmi_finalizers fs b) = bmi_GetStatusCondition L t b"
  "bmi_GetStatusCondition L t (set_externalHostID h b) = bmi_GetStatusCondition L t b"
  "bmi_GetStatusCondition L t (b\<lparr>ispec := sp\<rparr>) = bmi_GetStatusCondition L t b"
  "bmi_GetStatusCondition L t (b\<lparr>istatus := (istatus b)\<lparr>statusRunStrategy := rs\<rparr>\<rparr>) = bmi_GetStatusCondition L t b"
  "bmi_GetStatusCondition L t (b\<lparr>istatus := (istatus b)\<lparr>statusRestartTrigger := tr\<rparr>\<rparr>) = bmi_GetStatusCondition L t b"
  "bmi_GetStatusCondition L t (b\<lparr>istatus := (istatus b)\<lparr>desiredConfigVersion := v\<rparr>\<rparr>) = bmi_GetStatusCondition L t b"
  "bmi_GetStatusCondition L t (b\<lparr>istatus := (istatus b)\<lparr>provisioningJobs := j\<rparr>\<rparr>) = bmi_GetStatusCondition L t b"
  by (simp_all add: bmi_GetStatusCondition_def)

subsection \<open>The owning pool\<close>

text \<open>\<open>GetPoolID\<close>: the UID of the first controlling owner that is a pool.\<close>

fun GetPoolID_loop :: "owner_reference list \<Rightarrow> string option" where
  "GetPoolID_loop [] = None"
| "GetPoolID_loop (ref # refs) =
     (if orController ref \<noteq> Some True then GetPoolID_loop refs
      else if strings_Contains (orAPIVersion ref) ''osac.openshift.io'' \<and> orKind ref = ''BareMetalPool''
      then Some (orUID ref)
      else GetPoolID_loop refs)"

definition GetPoolID :: "bmi \<Rightarrow> string option" where
  "GetPoolID h = GetPoolID_loop (ownerReferences (imeta h))"

definition is_pool_owner :: "owner_reference \<Rightarrow> bool" where
  "is_pool_owner ref \<longleftrightarrow> orController ref = Some True \<and>
     sublist ''osac.openshift.io'' (orAPIVersion ref) \<and> orKind ref = ''BareMetalPool''"

lemma GetPoolID_loop_find:
  "GetPoolID_loop refs = map_option orUID (find is_pool_owner refs)"
  by (induction refs) (auto simp: is_pool_owner_def strings_Contains_iff)

lemma GetPoolID_find: "GetPoolID h = map_option orUID (find is_pool_owner (ownerReferences (imeta h)))"
  by (simp add: GetPoolID_def GetPoolID_loop_find)

section \<open>BareMetalPool\<close>

datatype pool_phase =
    BareMetalPoolPhaseUnset
  | BareMetalPoolPhaseProgressing
  | BareMetalPoolPhaseFailed
  | BareMetalPoolPhaseReady
  | BareMetalPoolPhaseDeleting

record host_set =
  hsHostType :: string
  hsReplicas :: int32

record profile_spec =
  profileName :: string
  profileTemplateParameters :: string

record pool_spec =
  hostSets :: "host_set list"
  poolProfile :: "profile_spec option"

record pool_status =
  poolPhase :: pool_phase
  statusHostSets :: "host_set list option"
  poolJobs :: "job_status list option"
  poolDesiredConfigVersion :: string
  poolConditions :: "condition list option"

record pool =
  pmeta :: object_meta
  pspec :: pool_spec
  pstatus :: pool_status

abbreviation BareMetalPoolConditionTypeReady :: string where
  "BareMetalPoolConditionTypeReady \<equiv> ''Ready''"
abbreviation BareMetalPoolReasonReady :: string where
  "BareMetalPoolReasonReady \<equiv> ''Ready''"
abbreviation BareMetalPoolReasonProgressing :: string where
  "BareMetalPoolReasonProgressing \<equiv> ''Progressing''"
abbreviation BareMetalPoolReasonFailed :: string where
  "BareMetalPoolReasonFailed \<equiv> ''Failed''"
abbreviation BareMetalPoolReasonDeleting :: string where
  "BareMetalPoolReasonDeleting \<equiv> ''Deleting''"

definition set_pool_phase :: "pool_phase \<Rightarrow> pool \<Rightarrow> pool" where
  "set_pool_phase ph p = p\<lparr>pstatus := (pstatus p)\<lparr>poolPhase := ph\<rparr>\<rparr>"

lemma set_pool_phase_simps [simp]:
  "pmeta (set_pool_phase ph p) = pmeta p" "pspec (set_pool_phase ph p) = pspec p"
  "pstatus (set_pool_phase ph p) = (pstatus p)\<lparr>poolPhase := ph\<rparr>"
  by (simp_all add: set_pool_phase_def)

text \<open>The pool's setter takes the message before the reason, the instance's the reason first.\<close>

definition pool_SetStatusCondition ::
    "lib \<Rightarrow> string \<Rightarrow> condition_status \<Rightarrow> string \<Rightarrow> string \<Rightarrow> pool \<Rightarrow> pool \<times> bool" where
  "pool_SetStatusCondition L conditionType status message reason bmp =
     (let condition = \<lparr>cType = conditionType, cStatus = status,
            observedGeneration = generation (pmeta bmp), cReason = reason, cMessage = message,
            lastTransitionTime = 0\<rparr>;
          bmp' = (if poolConditions (pstatus bmp) = None
                  then bmp\<lparr>pstatus := (pstatus bmp)\<lparr>poolConditions := Some []\<rparr>\<rparr> else bmp);
          (cs, changed) = meta_SetStatusCondition L (entries (poolConditions (pstatus bmp'))) condition
      in (bmp'\<lparr>pstatus := (pstatus bmp')\<lparr>poolConditions := Some cs\<rparr>\<rparr>, changed))"

abbreviation set_pool_condition ::
    "lib \<Rightarrow> string \<Rightarrow> condition_status \<Rightarrow> string \<Rightarrow> string \<Rightarrow> pool \<Rightarrow> pool" where
  "set_pool_condition L t s m r p \<equiv> fst (pool_SetStatusCondition L t s m r p)"

definition pool_GetStatusCondition :: "lib \<Rightarrow> string \<Rightarrow> pool \<Rightarrow> condition option" where
  "pool_GetStatusCondition L conditionType bmp =
     meta_FindStatusCondition L (entries (poolConditions (pstatus bmp))) conditionType"

definition pool_IsStatusConditionTrue :: "lib \<Rightarrow> string \<Rightarrow> pool \<Rightarrow> bool" where
  "pool_IsStatusConditionTrue L conditionType bmp =
     meta_IsStatusConditionTrue L (entries (poolConditions (pstatus bmp))) conditionType"

definition pool_IsStatusConditionFalse :: "lib \<Rightarrow> string \<Rightarrow> pool \<Rightarrow> bool" where
  "pool_IsStatusConditionFalse L conditionType bmp =
     meta_IsStatusConditionFalse L (entries (poolConditions (pstatus bmp))) conditionType"

definition pool_IsStatusConditionUnknown :: "lib \<Rightarrow> string \<Rightarrow> pool \<Rightarrow> bool" where
  "pool_IsStatusConditionUnknown L conditionType bmp =
     (case pool_GetStatusCondition L conditionType bmp of
        None \<Rightarrow> True
      | Some condition \<Rightarrow> cStatus condition = ConditionUnknown)"

definition initializeStatusCondition :: "lib \<Rightarrow> string \<Rightarrow> condition_status \<Rightarrow> string \<Rightarrow> pool \<Rightarrow> pool" where
  "initializeStatusCondition L conditionType status reason bmp =
     (let bmp' = (if poolConditions (pstatus bmp) = None
                  then bmp\<lparr>pstatus := (pstatus bmp)\<lparr>poolConditions := Some []\<rparr>\<rparr> else bmp)
      in if meta_FindStatusCondition L (entries (poolConditions (pstatus bmp'))) conditionType \<noteq> None
         then bmp'
         else set_pool_condition L conditionType status ''Initialized'' reason bmp')"

definition InitializeStatusConditions :: "lib \<Rightarrow> pool \<Rightarrow> pool" where
  "InitializeStatusConditions L bmp =
     initializeStatusCondition L BareMetalPoolConditionTypeReady ConditionFalse
       BareMetalPoolReasonProgressing bmp"

lemma pool_condition_frame [simp]:
  "pmeta (set_pool_condition L t s m r p) = pmeta p"
  "pspec (set_pool_condition L t s m r p) = pspec p"
  "poolPhase (pstatus (set_pool_condition L t s m r p)) = poolPhase (pstatus p)"
  "statusHostSets (pstatus (set_pool_condition L t s m r p)) = statusHostSets (pstatus p)"
  "poolJobs (pstatus (set_pool_condition L t s m r p)) = poolJobs (pstatus p)"
  "poolDesiredConfigVersion (pstatus (set_pool_condition L t s m r p)) = poolDesiredConfigVersion (pstatus p)"
  by (simp_all add: pool_SetStatusCondition_def Let_def split: prod.split)

lemma InitializeStatusConditions_frame [simp]:
  "pmeta (InitializeStatusConditions L p) = pmeta p"
  "pspec (InitializeStatusConditions L p) = pspec p"
  "poolPhase (pstatus (InitializeStatusConditions L p)) = poolPhase (pstatus p)"
  "statusHostSets (pstatus (InitializeStatusConditions L p)) = statusHostSets (pstatus p)"
  by (simp_all add: InitializeStatusConditions_def initializeStatusCondition_def Let_def)

section \<open>The contract of the condition accessors\<close>

locale status_conditions =
  fixes set_cond :: "'t \<Rightarrow> condition_status \<Rightarrow> string \<Rightarrow> string \<Rightarrow> 'o \<Rightarrow> 'o"
    and get_cond :: "'t \<Rightarrow> 'o \<Rightarrow> condition option"
    and is_true :: "'t \<Rightarrow> 'o \<Rightarrow> bool"
    and is_unknown :: "'t \<Rightarrow> 'o \<Rightarrow> bool"
    and laws :: bool
  assumes get_set: "laws \<Longrightarrow> \<exists>c. get_cond t (set_cond t s r m x) = Some c \<and>
      cStatus c = s \<and> cReason c = r \<and> cMessage c = m"
    and get_set_other: "laws \<Longrightarrow> u \<noteq> t \<Longrightarrow> get_cond u (set_cond t s r m x) = get_cond u x"
    and true_iff: "laws \<Longrightarrow> is_true t x \<longleftrightarrow> (\<exists>c. get_cond t x = Some c \<and> cStatus c = ConditionTrue)"
    and unknown_iff: "is_unknown t x \<longleftrightarrow> (\<forall>c. get_cond t x = Some c \<longrightarrow> cStatus c = ConditionUnknown)"
begin

lemma true_after_set: "laws \<Longrightarrow> is_true t (set_cond t s r m x) \<longleftrightarrow> s = ConditionTrue"
  using get_set[of t s r m x] by (auto simp: true_iff)

lemma true_after_set_other: "laws \<Longrightarrow> u \<noteq> t \<Longrightarrow> is_true u (set_cond t s r m x) \<longleftrightarrow> is_true u x"
  by (simp add: true_iff get_set_other)

lemma set_is_known: "laws \<Longrightarrow> s \<noteq> ConditionUnknown \<Longrightarrow> \<not> is_unknown t (set_cond t s r m x)"
  using get_set[of t s r m x] by (auto simp: unknown_iff)

lemma last_set_wins:
  "laws \<Longrightarrow> \<exists>c. get_cond t (set_cond t s' r' m' (set_cond t s r m x)) = Some c \<and>
     cStatus c = s' \<and> cReason c = r' \<and> cMessage c = m'"
  by (rule get_set)

lemma status_after_set:
  "laws \<Longrightarrow> map_option cStatus (get_cond t (set_cond t s r m x)) = Some s"
  "laws \<Longrightarrow> map_option cReason (get_cond t (set_cond t s r m x)) = Some r"
  using get_set[of t s r m x] by auto

end

lemma bmi_get_set:
  assumes "lib_laws L"
  shows "\<exists>c. bmi_GetStatusCondition L t (set_bmi_condition L t s r m b) = Some c \<and>
    cStatus c = s \<and> cReason c = r \<and> cMessage c = m"
  using lib_find_set_same[OF assms, of "entries (conditions (istatus b))"
      "\<lparr>cType = bmi_condition_string t, cStatus = s, observedGeneration = 0, cReason = r,
        cMessage = m, lastTransitionTime = 0\<rparr>"]
  by (cases "conditions (istatus b)")
     (auto simp: bmi_GetStatusCondition_def bmi_SetStatusCondition_def Let_def split: prod.splits)

lemma bmi_get_set_other:
  assumes "lib_laws L" and "u \<noteq> t"
  shows "bmi_GetStatusCondition L u (set_bmi_condition L t s r m b) = bmi_GetStatusCondition L u b"
proof -
  let ?c = "\<lparr>cType = bmi_condition_string t, cStatus = s, observedGeneration = 0, cReason = r,
        cMessage = m, lastTransitionTime = 0\<rparr>"
  have "meta_FindStatusCondition L (fst (meta_SetStatusCondition L cs ?c)) (bmi_condition_string u)
      = meta_FindStatusCondition L cs (bmi_condition_string u)" for cs
    using assms by simp
  then show ?thesis
    using assms(1)
    by (cases "conditions (istatus b)")
       (auto simp: bmi_GetStatusCondition_def bmi_SetStatusCondition_def Let_def split: prod.splits,
         (metis fst_conv lib_find_Nil)+)
qed

interpretation bmi_conds: status_conditions "set_bmi_condition L" "bmi_GetStatusCondition L"
  "bmi_IsStatusConditionTrue L" "bmi_IsStatusConditionUnknown L" "lib_laws L" for L
proof unfold_locales
  fix t x
  assume L: "lib_laws L"
  show "bmi_IsStatusConditionTrue L t x \<longleftrightarrow>
      (\<exists>c. bmi_GetStatusCondition L t x = Some c \<and> cStatus c = ConditionTrue)"
    using L by (cases "conditions (istatus x)")
      (simp_all add: bmi_IsStatusConditionTrue_def bmi_GetStatusCondition_def lib_condition_true)
qed (auto simp: bmi_get_set bmi_get_set_other bmi_IsStatusConditionUnknown_def split: option.splits)

lemma pool_get_set:
  assumes "lib_laws L"
  shows "\<exists>c. pool_GetStatusCondition L t (set_pool_condition L t s m r p) = Some c \<and>
    cStatus c = s \<and> cReason c = r \<and> cMessage c = m"
  using lib_find_set_same[OF assms, of "entries (poolConditions (pstatus p))"
      "\<lparr>cType = t, cStatus = s, observedGeneration = generation (pmeta p), cReason = r,
        cMessage = m, lastTransitionTime = 0\<rparr>"]
  by (cases "poolConditions (pstatus p)")
     (auto simp: pool_GetStatusCondition_def pool_SetStatusCondition_def Let_def split: prod.splits)

lemma pool_get_set_other:
  assumes "lib_laws L" and "u \<noteq> t"
  shows "pool_GetStatusCondition L u (set_pool_condition L t s m r p) = pool_GetStatusCondition L u p"
proof -
  let ?c = "\<lparr>cType = t, cStatus = s, observedGeneration = generation (pmeta p), cReason = r,
        cMessage = m, lastTransitionTime = 0\<rparr>"
  have "meta_FindStatusCondition L (fst (meta_SetStatusCondition L cs ?c)) u
      = meta_FindStatusCondition L cs u" for cs
    using assms by simp
  then show ?thesis
    by (cases "poolConditions (pstatus p)")
       (auto simp: pool_GetStatusCondition_def pool_SetStatusCondition_def Let_def split: prod.splits,
         (metis fst_conv)+)
qed

interpretation pool_conds: status_conditions
  "\<lambda>t s r m. set_pool_condition L t s m r" "pool_GetStatusCondition L"
  "pool_IsStatusConditionTrue L" "pool_IsStatusConditionUnknown L" "lib_laws L" for L
proof unfold_locales
  fix t x
  assume L: "lib_laws L"
  show "pool_IsStatusConditionTrue L t x \<longleftrightarrow>
      (\<exists>c. pool_GetStatusCondition L t x = Some c \<and> cStatus c = ConditionTrue)"
    using L by (simp add: pool_IsStatusConditionTrue_def pool_GetStatusCondition_def lib_condition_true)
qed (auto simp: pool_get_set pool_get_set_other pool_IsStatusConditionUnknown_def split: option.splits)

section \<open>Properties\<close>

text \<open>\<open>GetPoolID\<close> reports the UID of the first owner reference that is marked as the controller
  and is a \<open>BareMetalPool\<close> of an API group containing \<open>osac.openshift.io\<close>, and none when no owner
  is one; an owner that is not a controller, or a controller of another kind, never decides.\<close>

theorem pool_id_is_first_controlling_pool:
  "(GetPoolID h = None \<longleftrightarrow> (\<forall>ref \<in> set (ownerReferences (imeta h)). \<not> is_pool_owner ref)) \<and>
   (GetPoolID h = Some u \<longleftrightarrow> (\<exists>before ref after. ownerReferences (imeta h) = before @ ref # after \<and>
      is_pool_owner ref \<and> orUID ref = u \<and> (\<forall>r \<in> set before. \<not> is_pool_owner r)))"
proof
  show "GetPoolID h = None \<longleftrightarrow> (\<forall>ref \<in> set (ownerReferences (imeta h)). \<not> is_pool_owner ref)"
    by (auto simp: GetPoolID_find find_None_iff)
  show "GetPoolID h = Some u \<longleftrightarrow> (\<exists>before ref after. ownerReferences (imeta h) = before @ ref # after \<and>
      is_pool_owner ref \<and> orUID ref = u \<and> (\<forall>r \<in> set before. \<not> is_pool_owner r))"
    by (auto simp: GetPoolID_find find_eq_Some_split)
qed

text \<open>A concrete instance object, for this and later examples.\<close>

definition demo_owner :: "string \<Rightarrow> string \<Rightarrow> bool option \<Rightarrow> owner_reference" where
  "demo_owner kind uid ctl = \<lparr>orAPIVersion = ''osac.openshift.io/v1alpha1'', orKind = kind,
     orName = ''owner'', orUID = uid, orController = ctl\<rparr>"

definition demo_bmi :: bmi where
  "demo_bmi = \<lparr>
     imeta = \<lparr>objName = ''bmi'', objNamespace = ''ns'', objUID = ''uid-2'', generation = 1, objLabels = None,
       objAnnotations = None, finalizers = [],
       ownerReferences = [demo_owner ''BareMetalPool'' ''p0'' None, demo_owner ''BareMetalPool'' ''p1'' (Some True)],
       deletionTimestamp = None, resourceVersion = ''1''\<rparr>,
     ispec = \<lparr>hostType = ''gpu'', externalHostID = '''', externalHostName = '''', hostClass = '''',
       networkClass = '''', hostSelector = None, inventoryLabels = None, inventoryPersistentLabels = None,
       templateID = ''noop'', templateParameters = '''', runStrategy = RunStrategyUnspecified,
       restartTrigger = 0\<rparr>,
     istatus = \<lparr>phase = BareMetalInstancePhaseUnset, provisioningJobs = None, conditions = None,
       desiredConfigVersion = '''', statusRunStrategy = RunStrategyUnspecified, statusRestartTrigger = 0\<rparr>\<rparr>"

theorem pool_id_is_first_controlling_pool_witness: "GetPoolID demo_bmi = Some ''p1''"
proof -
  let ?a = "demo_owner ''BareMetalPool'' ''p0'' None" and ?b = "demo_owner ''BareMetalPool'' ''p1'' (Some True)"
  have "ownerReferences (imeta demo_bmi) = [?a] @ ?b # []" by (simp add: demo_bmi_def)
  moreover have "strings_Contains ''osac.openshift.io/v1alpha1'' ''osac.openshift.io''" by simp
  then have "is_pool_owner ?b" "orUID ?b = ''p1''" "\<not> is_pool_owner ?a"
    unfolding strings_Contains_iff by (simp_all add: is_pool_owner_def demo_owner_def)
  ultimately show ?thesis
    using pool_id_is_first_controlling_pool[of demo_bmi "''p1''", THEN conjunct2]
    by (metis empty_iff list.set(1) set_ConsD)
qed

end
