(* ===== verification/Shared.thy ===== *)
theory Shared
  imports Prelude
begin

text \<open>The constants of \<open>internal/shared/shared.go\<close> and of the two \<open>names\<close> files of the controllers.\<close>

abbreviation OsacPrefix :: string where
  "OsacPrefix \<equiv> ''osac.openshift.io''"
abbreviation OsacNoopTemplate :: string where
  "OsacNoopTemplate \<equiv> ''noop''"
abbreviation OsacBareMetalPoolIDLabel :: string where
  "OsacBareMetalPoolIDLabel \<equiv> ''bareMetalPoolId''"
abbreviation OsacDefaultManagedByValue :: string where
  "OsacDefaultManagedByValue \<equiv> ''baremetal''"
abbreviation OsacDefaultProvisionStateValue :: string where
  "OsacDefaultProvisionStateValue \<equiv> ''available''"

definition second :: duration where
  "second = 1000000000"

definition DefaultNoFreeHostsPollIntervalDuration :: duration where
  "DefaultNoFreeHostsPollIntervalDuration = 30 * second"
definition DefaultTryLockFailPollIntervalDuration :: duration where
  "DefaultTryLockFailPollIntervalDuration = 1 * second"
definition DefaultManagementRecheckIntervalDuration :: duration where
  "DefaultManagementRecheckIntervalDuration = 10 * second"
definition DefaultHostReadyPollIntervalDuration :: duration where
  "DefaultHostReadyPollIntervalDuration = 10 * second"
definition DefaultHostDeletionPollIntervalDuration :: duration where
  "DefaultHostDeletionPollIntervalDuration = 5 * second"

lemma default_intervals_positive:
  "0 < DefaultNoFreeHostsPollIntervalDuration" "0 < DefaultTryLockFailPollIntervalDuration"
  "0 < DefaultManagementRecheckIntervalDuration" "0 < DefaultHostReadyPollIntervalDuration"
  "0 < DefaultHostDeletionPollIntervalDuration"
  by (simp_all add: DefaultNoFreeHostsPollIntervalDuration_def DefaultTryLockFailPollIntervalDuration_def
      DefaultManagementRecheckIntervalDuration_def DefaultHostReadyPollIntervalDuration_def
      DefaultHostDeletionPollIntervalDuration_def second_def)

text \<open>The interval a constructor argument stands for: zero or less selects the default.\<close>

definition interval_or :: "duration \<Rightarrow> duration \<Rightarrow> duration" where
  "interval_or dflt d = (if d \<le> 0 then dflt else d)"

lemma interval_or_positive: "0 < dflt \<Longrightarrow> 0 < interval_or dflt d"
  by (simp add: interval_or_def)

abbreviation BareMetalInstanceInventoryFinalizer :: string where
  "BareMetalInstanceInventoryFinalizer \<equiv> ''osac.openshift.io/inventory''"
abbreviation BareMetalInstanceManagementFinalizer :: string where
  "BareMetalInstanceManagementFinalizer \<equiv> ''osac.openshift.io/baremetalinstance''"
abbreviation BareMetalPoolFinalizer :: string where
  "BareMetalPoolFinalizer \<equiv> ''osac.openshift.io/bare-metal-pool''"
abbreviation BareMetalPoolLabelKey :: string where
  "BareMetalPoolLabelKey \<equiv> ''osac.openshift.io/bare-metal-pool-id''"
abbreviation HostTypeLabelKey :: string where
  "HostTypeLabelKey \<equiv> ''osac.openshift.io/host-type''"
abbreviation BareMetalPoolTemplateIDAnnotationKey :: string where
  "BareMetalPoolTemplateIDAnnotationKey \<equiv> ''osac.openshift.io/templateID''"

end
