(* ===== verification/Inventory.thy ===== *)
theory Inventory
  imports Shared
begin

text \<open>
  \<open>internal/inventory/client.go\<close>: the configuration, the host record every backend returns, the
  interface \<open>Client\<close> as a record of operations over the state \<open>'w\<close> of the outside world, and the
  registry of backends. The documented contract of the interface is the locale
  \<open>inventory_contract\<close>; the two backends interpret it in their own theories.
\<close>

section \<open>The interface\<close>

record inventory_config =
  invName :: string
  invType :: string
  invOptions :: "(string \<times> json) list option"
  invHostClass :: string
  invNetworkClass :: string

record host =
  hostBareMetalPoolID :: string
  hostBareMetalInstanceID :: string
  inventoryHostID :: string
  hostName :: string
  hostHostType :: string
  hostHostClass :: string
  hostNetworkClass :: string
  hostProvisionState :: string
  hostManagedBy :: string

record 'w inventory_client =
  FindFreeHost :: "gomap \<Rightarrow> 'w \<Rightarrow> (go_error + host option) \<times> 'w"
  AssignHost :: "string \<Rightarrow> string \<Rightarrow> gomap \<Rightarrow> 'w \<Rightarrow> (go_error + host option) \<times> 'w"
  UnassignHost :: "string \<Rightarrow> string list \<Rightarrow> 'w \<Rightarrow> go_error option \<times> 'w"

text \<open>
  The registry maps a backend type to its constructor. An unknown type is no error here: the
  result is a nil client, which the caller in \<open>cmd/main.go\<close> turns into one.
\<close>

definition inventory_NewClient ::
    "(string \<times> (inventory_config \<Rightarrow> 'w \<Rightarrow> (go_error + 'c) \<times> 'w)) list \<Rightarrow> inventory_config \<Rightarrow> 'w
      \<Rightarrow> (go_error + 'c option) \<times> 'w" where
  "inventory_NewClient newClientFuncs cfg w =
     (case map_of newClientFuncs (invType cfg) of
        None \<Rightarrow> (Inr None, w)
      | Some newClientFunc \<Rightarrow>
          (case newClientFunc cfg w of
             (Inl e, w') \<Rightarrow> (Inl e, w')
           | (Inr c, w') \<Rightarrow> (Inr (Some c), w')))"

section \<open>The contract\<close>

text \<open>
  \<open>consumer w h\<close> is the instance a host is marked for, \<open>None\<close> while it is free. \<open>laws\<close> collects what
  is assumed of the backend's own remote interface, and \<open>labels_ok\<close> what of the labels. A call takes
  several requests, and between them other parties may change the world; \<open>during h t\<close> relates the
  world at the start of a call that wants the mark of \<open>h\<close> to become \<open>t\<close> to the one just before the
  write that decides. Assigning takes a host only if at the moment of the write it is free or
  already marked for the same instance; a host marked for another one is reported as unavailable; a
  failed call changes at most this host's mark, and only to what was asked. Unassigning frees the
  host whoever holds it.
\<close>

locale inventory_contract =
  fixes assign :: "string \<Rightarrow> string \<Rightarrow> gomap \<Rightarrow> 'w \<Rightarrow> (go_error + host option) \<times> 'w"
    and unassign :: "string \<Rightarrow> string list \<Rightarrow> 'w \<Rightarrow> go_error option \<times> 'w"
    and consumer :: "'w \<Rightarrow> string \<Rightarrow> string option"
    and during :: "string \<Rightarrow> string option \<Rightarrow> 'w \<Rightarrow> 'w \<Rightarrow> bool"
    and labels_ok :: "gomap \<Rightarrow> bool"
    and laws :: bool
  assumes assign_takes: "laws \<Longrightarrow> labels_ok ls \<Longrightarrow> assign h c ls w = (Inr (Some x), w') \<Longrightarrow>
      \<exists>w1. during h (Some c) w w1 \<and> (consumer w1 h = None \<or> consumer w1 h = Some c) \<and>
        consumer w' = (consumer w1)(h \<mapsto> c)"
    and assign_busy: "laws \<Longrightarrow> labels_ok ls \<Longrightarrow> assign h c ls w = (Inr None, w') \<Longrightarrow>
      during h (Some c) w w' \<and> (\<exists>c'. c' \<noteq> c \<and> consumer w h = Some c')"
    and assign_fails: "laws \<Longrightarrow> labels_ok ls \<Longrightarrow> assign h c ls w = (Inl e, w') \<Longrightarrow>
      \<exists>w1. during h (Some c) w w1 \<and> (consumer w' = consumer w1 \<or>
        (consumer w1 h = None \<or> consumer w1 h = Some c) \<and> consumer w' = (consumer w1)(h \<mapsto> c))"
    and unassign_frees: "laws \<Longrightarrow> unassign h ks w = (None, w') \<Longrightarrow>
      \<exists>w1. during h None w w1 \<and> consumer w' = (consumer w1)(h := None)"
    and unassign_fails: "laws \<Longrightarrow> unassign h ks w = (Some e, w') \<Longrightarrow>
      \<exists>w1. during h None w w1 \<and>
        (consumer w' = consumer w1 \<or> consumer w' = (consumer w1)(h := None))"
begin

lemma assigned_is_held:
  "laws \<Longrightarrow> labels_ok ls \<Longrightarrow> assign h c ls w = (Inr (Some x), w') \<Longrightarrow> consumer w' h = Some c"
  by (drule (2) assign_takes) auto

text \<open>
  Where the mark of the host, set for another instance, outlasts the call's earlier requests, the
  host is not handed over.
\<close>

lemma never_stolen:
  assumes "laws" and "labels_ok ls" and "\<And>w1. during h (Some c) w w1 \<Longrightarrow> consumer w1 h = Some c'"
    and "c' \<noteq> c"
  shows "fst (assign h c ls w) \<noteq> Inr (Some x)"
proof
  assume "fst (assign h c ls w) = Inr (Some x)"
  then have "assign h c ls w = (Inr (Some x), snd (assign h c ls w))" by (simp add: prod_eq_iff)
  from assign_takes[OF assms(1,2) this] assms(3,4) show False by auto
qed

text \<open>Every way the call can end: the mark of a host held by another instance survives.\<close>

lemma mark_survives:
  assumes "laws" and "labels_ok ls" and "\<And>w1. during h (Some c) w w1 \<Longrightarrow> consumer w1 h = Some c'"
    and "c' \<noteq> c"
  shows "consumer (snd (assign h c ls w)) h = Some c'"
proof -
  obtain r w' where r: "assign h c ls w = (r, w')" by fastforce
  show ?thesis
  proof (cases r)
    case (Inl e)
    then show ?thesis using assign_fails[OF assms(1,2) r[unfolded Inl]] assms(3,4) r by auto
  next
    case (Inr a)
    show ?thesis
    proof (cases a)
      case None
      then show ?thesis using assign_busy[OF assms(1,2) r[unfolded Inr None]] assms(3,4) r by auto
    next
      case (Some x)
      then show ?thesis using assign_takes[OF assms(1,2) r[unfolded Inr Some]] assms(3,4) r by auto
    qed
  qed
qed

lemma unassign_ignores_holder:
  "laws \<Longrightarrow> unassign h ks w = (None, w') \<Longrightarrow> consumer w' h = None"
  by (drule (1) unassign_frees) auto

end

end
