(* ===== verification/Metal3_Api.thy ===== *)
theory Metal3_Api
  imports Shared
begin

text \<open>
  What the two Metal3 backends use of code outside the repository: the fields of a
  \<open>BareMetalHost\<close>, and the Kubernetes client on these objects as the record \<open>bmh_api\<close> of operations
  over the state \<open>'w\<close> of the outside world. The predicate \<open>bmh_laws\<close> states the documented behaviour
  the correctness of the backends rests on: reads return the stored object, an update succeeds only
  on the version it was read from (optimistic concurrency), a version identifies its contents, and
  a patch writes what it contains: the difference of two objects, whatever fields they differ in.
  \<open>ref_bmh_api\<close> is an instance over a plain object store. The decoding of the backend options with
  \<open>encoding/json\<close> is here too, since both backends share it.
\<close>

section \<open>Decoding the backend options\<close>

text \<open>
  Both backends take their namespace from the configuration by marshalling the value under
  \<open>"metal3"\<close> to JSON and unmarshalling it into a struct with one string field tagged \<open>namespace\<close>.
  \<open>encoding/json\<close> writes object keys in sorted order, matches field names ignoring case, lets a
  later match overwrite an earlier one, treats \<open>null\<close> as no value, and reports a value of another
  type as an error.
\<close>

definition ascii_lower :: "char \<Rightarrow> char" where
  "ascii_lower c = (if CHR ''A'' \<le> c \<and> c \<le> CHR ''Z'' then char_of (of_char c + (32::nat)) else c)"

fun decode_namespace_field :: "string option \<Rightarrow> string \<times> json \<Rightarrow> string option" where
  "decode_namespace_field acc (k, v) =
     (if map ascii_lower k \<noteq> ''namespace'' then acc
      else case v of
        JString s \<Rightarrow> map_option (\<lambda>_. s) acc
      | JNull \<Rightarrow> acc
      | _ \<Rightarrow> None)"

definition json_decode_namespace :: "json \<Rightarrow> string option" where
  "json_decode_namespace v =
     (case v of
        JNull \<Rightarrow> Some ''''
      | JObject kvs \<Rightarrow> foldl decode_namespace_field (Some '''') (sort_key fst kvs)
      | _ \<Rightarrow> None)"

text \<open>The text of a decoding error is the library's own.\<close>

definition json_type_error :: go_error where
  "json_type_error = ForeignError ''json: cannot unmarshal''"

section \<open>Objects and operations\<close>

record consumer_ref =
  crAPIVersion :: string
  crKind :: string
  crName :: string

record bmh =
  bmhNamespace :: string
  bmhName :: string
  bmhResourceVersion :: string
  bmhLabels :: "gomap option"
  bmhAnnotations :: "gomap option"
  bmhConsumerRef :: "consumer_ref option"
  bmhOnline :: bool
  bmhPoweredOn :: bool
  bmhOperationalStatus :: string
  bmhProvisioningState :: string

text \<open>The two patches the code sends: the JSON merge patch \<open>{"spec": {"online": b}}\<close>, and the
  difference between an object and its unmodified copy (\<open>client.MergeFrom\<close>).\<close>

datatype bmh_patch = PatchOnline bool | MergeFrom bmh

record 'w bmh_api =
  OperationalStatusOK :: string
  StateAvailable :: string
  RebootAnnotationPrefix :: string
  bmh_Get :: "string \<times> string \<Rightarrow> 'w \<Rightarrow> (go_error + bmh) \<times> 'w"
  bmh_List :: "string \<Rightarrow> gomap \<Rightarrow> 'w \<Rightarrow> (go_error + bmh list) \<times> 'w"
  bmh_Update :: "bmh \<Rightarrow> 'w \<Rightarrow> (go_error + bmh) \<times> 'w"
  bmh_Patch :: "bmh \<Rightarrow> bmh_patch \<Rightarrow> 'w \<Rightarrow> (go_error + bmh) \<times> 'w"

type_synonym 'w bmh_store = "'w \<Rightarrow> string \<times> string \<Rightarrow> bmh option"

definition bmh_key :: "bmh \<Rightarrow> string \<times> string" where
  "bmh_key b = (bmhNamespace b, bmhName b)"

definition matches_labels :: "gomap \<Rightarrow> bmh \<Rightarrow> bool" where
  "matches_labels ls b \<longleftrightarrow> list_all (\<lambda>(k, v). map_of (entries (bmhLabels b)) k = Some v) ls"

text \<open>The stored object after a write agrees with the one sent on what a client may write.\<close>

definition written :: "bmh \<Rightarrow> bmh \<Rightarrow> bool" where
  "written b b' \<longleftrightarrow> bmh_key b' = bmh_key b \<and> bmhLabels b' = bmhLabels b \<and>
     bmhAnnotations b' = bmhAnnotations b \<and> bmhConsumerRef b' = bmhConsumerRef b \<and>
     bmhOnline b' = bmhOnline b"

definition updates_store :: "'w bmh_store \<Rightarrow> bmh \<Rightarrow> 'w \<Rightarrow> bmh \<Rightarrow> 'w \<Rightarrow> bool" where
  "updates_store store b w b' w' \<longleftrightarrow>
     (\<exists>b0. store w (bmh_key b) = Some b0 \<and> bmhResourceVersion b0 = bmhResourceVersion b) \<and>
     written b b' \<and> store w' = (store w)(bmh_key b \<mapsto> b')"

text \<open>
  A patch changes the stored object, not the one the client has read. A merge patch computed by
  \<open>MergeFrom\<close> holds every field and every map entry in which the object sent differs from the original
  copy (with \<open>null\<close> for one that is gone) and nothing else, so that each of them ends with the sent
  value if it was changed and with the stored value if not. A field of a struct that is empty is
  omitted, so that an empty string is an absent one. The status is a subresource and is not
  touched by either patch.
\<close>

definition merge_field :: "'a \<Rightarrow> 'a \<Rightarrow> 'a \<Rightarrow> 'a" where
  "merge_field original sent stored = (if sent = original then stored else sent)"

definition consumer_field :: "(consumer_ref \<Rightarrow> string) \<Rightarrow> consumer_ref option \<Rightarrow> string" where
  "consumer_field f c = (case c of None \<Rightarrow> '''' | Some r \<Rightarrow> f r)"

definition merge_consumer ::
    "consumer_ref option \<Rightarrow> consumer_ref option \<Rightarrow> consumer_ref option \<Rightarrow> consumer_ref option" where
  "merge_consumer original sent stored =
     (if sent = original then stored
      else if sent = None then None
      else (let merged = (\<lambda>f. merge_field (consumer_field f original) (consumer_field f sent) (consumer_field f stored))
            in Some \<lparr>crAPIVersion = merged crAPIVersion, crKind = merged crKind, crName = merged crName\<rparr>))"

definition merged_entries :: "gomap option \<Rightarrow> gomap option \<Rightarrow> gomap option \<Rightarrow> gomap option \<Rightarrow> bool" where
  "merged_entries original sent stored result \<longleftrightarrow>
     (\<forall>k. map_of (entries result) k =
        merge_field (map_of (entries original) k) (map_of (entries sent) k) (map_of (entries stored) k))"

definition same_status :: "bmh \<Rightarrow> bmh \<Rightarrow> bool" where
  "same_status b b' \<longleftrightarrow> bmhPoweredOn b' = bmhPoweredOn b \<and>
     bmhOperationalStatus b' = bmhOperationalStatus b \<and> bmhProvisioningState b' = bmhProvisioningState b"

definition patched :: "bmh \<Rightarrow> bmh_patch \<Rightarrow> bmh \<Rightarrow> bmh \<Rightarrow> bool" where
  "patched b p b0 b' \<longleftrightarrow> bmh_key b' = bmh_key b0 \<and> same_status b0 b' \<and>
     (case p of
        PatchOnline on \<Rightarrow> bmhOnline b' = on \<and> bmhLabels b' = bmhLabels b0 \<and>
          bmhAnnotations b' = bmhAnnotations b0 \<and> bmhConsumerRef b' = bmhConsumerRef b0
      | MergeFrom orig \<Rightarrow> bmhOnline b' = merge_field (bmhOnline orig) (bmhOnline b) (bmhOnline b0) \<and>
          bmhConsumerRef b' = merge_consumer (bmhConsumerRef orig) (bmhConsumerRef b) (bmhConsumerRef b0) \<and>
          merged_entries (bmhLabels orig) (bmhLabels b) (bmhLabels b0) (bmhLabels b') \<and>
          merged_entries (bmhAnnotations orig) (bmhAnnotations b) (bmhAnnotations b0) (bmhAnnotations b'))"

definition patches_store :: "'w bmh_store \<Rightarrow> bmh \<Rightarrow> bmh_patch \<Rightarrow> 'w \<Rightarrow> bmh \<Rightarrow> 'w \<Rightarrow> bool" where
  "patches_store store b p w b' w' \<longleftrightarrow>
     (\<exists>b0. store w (bmh_key b) = Some b0 \<and> store w' = (store w)(bmh_key b \<mapsto> b') \<and> patched b p b0 b')"

definition bmh_laws :: "'w bmh_api \<Rightarrow> 'w bmh_store \<Rightarrow> ('w \<Rightarrow> 'w \<Rightarrow> bool) \<Rightarrow> bool" where
  "bmh_laws A store env \<longleftrightarrow>
     (\<forall>k w b w'. bmh_Get A k w = (Inr b, w') \<longrightarrow> store w k = Some b \<and> bmh_key b = k \<and> env w w') \<and>
     (\<forall>k w e w'. bmh_Get A k w = (Inl e, w') \<longrightarrow> env w w') \<and>
     (\<forall>ns ls w bs w'. bmh_List A ns ls w = (Inr bs, w') \<longrightarrow> env w w' \<and>
        (\<forall>b. b \<in> set bs \<longleftrightarrow> store w (bmh_key b) = Some b \<and> bmhNamespace b = ns \<and> matches_labels ls b)) \<and>
     (\<forall>w w' k b b'. env w w' \<longrightarrow> store w k = Some b \<longrightarrow> store w' k = Some b' \<longrightarrow>
        bmhResourceVersion b' = bmhResourceVersion b \<longrightarrow> b' = b) \<and>
     (\<forall>b w b' w'. bmh_Update A b w = (Inr b', w') \<longrightarrow> updates_store store b w b' w') \<and>
     (\<forall>b w e w'. bmh_Update A b w = (Inl e, w') \<longrightarrow>
        store w' = store w \<or> (\<exists>b'. updates_store store b w b' w')) \<and>
     (\<forall>b p w b' w'. bmh_Patch A b p w = (Inr b', w') \<longrightarrow> patches_store store b p w b' w')"

lemma bmh_Get_ok:
  assumes "bmh_laws A store env" and "bmh_Get A k w = (Inr b, w')"
  shows "store w k = Some b" and "bmh_key b = k" and "env w w'"
proof -
  have "store w k = Some b \<and> bmh_key b = k \<and> env w w'"
    using assms unfolding bmh_laws_def by metis
  then show "store w k = Some b" "bmh_key b = k" "env w w'" by simp_all
qed

lemma bmh_Get_error:
  assumes "bmh_laws A store env" and "bmh_Get A k w = (Inl e, w')"
  shows "env w w'"
  using assms unfolding bmh_laws_def by metis

lemma bmh_List_ok:
  assumes "bmh_laws A store env" and "bmh_List A ns ls w = (Inr bs, w')"
  shows "env w w'" and
    "b \<in> set bs \<longleftrightarrow> store w (bmh_key b) = Some b \<and> bmhNamespace b = ns \<and> matches_labels ls b"
proof -
  have "env w w' \<and> (\<forall>b. b \<in> set bs \<longleftrightarrow>
      store w (bmh_key b) = Some b \<and> bmhNamespace b = ns \<and> matches_labels ls b)"
    using assms unfolding bmh_laws_def by metis
  then show "env w w'"
    "b \<in> set bs \<longleftrightarrow> store w (bmh_key b) = Some b \<and> bmhNamespace b = ns \<and> matches_labels ls b"
    by simp_all
qed

lemma bmh_version_identifies:
  assumes "bmh_laws A store env" and "env w w'" and "store w k = Some b" and "store w' k = Some b'"
    and "bmhResourceVersion b' = bmhResourceVersion b"
  shows "b' = b"
  using assms unfolding bmh_laws_def by metis

lemma bmh_Update_ok:
  assumes "bmh_laws A store env" and "bmh_Update A b w = (Inr b', w')"
  shows "updates_store store b w b' w'"
  using assms unfolding bmh_laws_def by metis

lemma bmh_Update_error:
  assumes "bmh_laws A store env" and "bmh_Update A b w = (Inl e, w')"
  shows "store w' = store w \<or> (\<exists>b'. updates_store store b w b' w')"
  using assms unfolding bmh_laws_def by metis

lemma bmh_Patch_ok:
  assumes "bmh_laws A store env" and "bmh_Patch A b p w = (Inr b', w')"
  shows "patches_store store b p w b' w'"
  using assms unfolding bmh_laws_def by metis

text \<open>
  Read, modify, write: if the update of an object derived from the one read (same key, same
  version) changes the store, nobody changed the object between the read and the write.
\<close>

lemma bmh_compare_and_swap:
  assumes "bmh_laws A store env" and "bmh_Get A k w = (Inr b, w1)"
    and "updates_store store b1 w1 b' w2"
    and "bmh_key b1 = bmh_key b" and "bmhResourceVersion b1 = bmhResourceVersion b"
  shows "store w1 k = Some b" and "store w2 = (store w1)(k \<mapsto> b')" and "written b1 b'"
proof -
  note get = bmh_Get_ok[OF assms(1,2)]
  from assms(3,4) get(2) obtain b0 where
    b0: "store w1 k = Some b0" "bmhResourceVersion b0 = bmhResourceVersion b1"
    by (auto simp: updates_store_def)
  with bmh_version_identifies[OF assms(1) get(3,1), of b0] assms(5) show "store w1 k = Some b" by simp
  show "store w2 = (store w1)(k \<mapsto> b')" "written b1 b'"
    using assms(3,4) get(2) by (auto simp: updates_store_def)
qed

text \<open>A merge patch from an object with one more annotation adds this annotation to the stored object.\<close>

lemma patched_annotation:
  assumes "patched (orig\<lparr>bmhAnnotations := Some (AList.update k v (entries (bmhAnnotations orig)))\<rparr>) (MergeFrom orig) b0 b1"
    and "map_of (entries (bmhAnnotations orig)) k = None"
  shows "bmh_key b1 = bmh_key b0" and "same_status b0 b1" and "bmhOnline b1 = bmhOnline b0"
    and "bmhConsumerRef b1 = bmhConsumerRef b0" and "map_of (entries (bmhLabels b1)) = map_of (entries (bmhLabels b0))"
    and "map_of (entries (bmhAnnotations b1)) = (map_of (entries (bmhAnnotations b0)))(k \<mapsto> v)"
  using assms
  by (simp_all add: patched_def merge_field_def merge_consumer_def merged_entries_def update_conv' fun_eq_iff)

section \<open>An instance of the laws\<close>

text \<open>A store of objects in a list, a version counter written in unary, and an idle environment.\<close>

type_synonym ref_world = "bmh list"

definition ref_store :: "ref_world bmh_store" where
  "ref_store w k = find (\<lambda>b. bmh_key b = k) w"

fun ref_replace :: "bmh \<Rightarrow> ref_world \<Rightarrow> ref_world" where
  "ref_replace b [] = []"
| "ref_replace b (c # w) = (if bmh_key c = bmh_key b then b # w else c # ref_replace b w)"

definition ref_update :: "bmh \<Rightarrow> ref_world \<Rightarrow> (go_error + bmh) \<times> ref_world" where
  "ref_update b w =
     (case ref_store w (bmh_key b) of
        None \<Rightarrow> (Inl (ForeignError ''not found''), w)
      | Some b0 \<Rightarrow>
          (if bmhResourceVersion b0 \<noteq> bmhResourceVersion b then (Inl (ForeignError ''conflict''), w)
           else let b' = b\<lparr>bmhResourceVersion := CHR ''v'' # bmhResourceVersion b\<rparr>
                in (Inr b', ref_replace b' w)))"

text \<open>The entries of a map that is given by its lookup function on a list of keys.\<close>

fun entries_of :: "(string \<Rightarrow> string option) \<Rightarrow> string list \<Rightarrow> gomap" where
  "entries_of f [] = []"
| "entries_of f (k # ks) = (case f k of None \<Rightarrow> entries_of f ks | Some v \<Rightarrow> (k, v) # entries_of f ks)"

lemma map_of_entries_of: "map_of (entries_of f ks) k = (if k \<in> set ks then f k else None)"
  by (induction ks) (auto split: option.split)

definition ref_merge_entries :: "gomap option \<Rightarrow> gomap option \<Rightarrow> gomap option \<Rightarrow> gomap option" where
  "ref_merge_entries original sent stored =
     Some (entries_of
       (\<lambda>k. merge_field (map_of (entries original) k) (map_of (entries sent) k) (map_of (entries stored) k))
       (remdups (List.map fst (entries sent) @ List.map fst (entries stored))))"

lemma ref_merge_entries: "merged_entries original sent stored (ref_merge_entries original sent stored)"
proof -
  have absent: "map_of m k = None" if "k \<notin> fst ` set m" for m :: gomap and k
    using that by (simp add: map_of_eq_None_iff)
  show ?thesis
    unfolding merged_entries_def ref_merge_entries_def
    by (simp add: map_of_entries_of merge_field_def) (metis absent)
qed

definition ref_patched :: "bmh \<Rightarrow> bmh_patch \<Rightarrow> bmh \<Rightarrow> bmh" where
  "ref_patched b p b0 =
     (case p of
        PatchOnline on \<Rightarrow> b0\<lparr>bmhOnline := on, bmhResourceVersion := CHR ''v'' # bmhResourceVersion b0\<rparr>
      | MergeFrom orig \<Rightarrow> b0\<lparr>bmhOnline := merge_field (bmhOnline orig) (bmhOnline b) (bmhOnline b0),
          bmhConsumerRef := merge_consumer (bmhConsumerRef orig) (bmhConsumerRef b) (bmhConsumerRef b0),
          bmhLabels := ref_merge_entries (bmhLabels orig) (bmhLabels b) (bmhLabels b0),
          bmhAnnotations := ref_merge_entries (bmhAnnotations orig) (bmhAnnotations b) (bmhAnnotations b0),
          bmhResourceVersion := CHR ''v'' # bmhResourceVersion b0\<rparr>)"

definition ref_bmh_api :: "ref_world bmh_api" where
  "ref_bmh_api = \<lparr>OperationalStatusOK = ''OK'', StateAvailable = ''available'',
     RebootAnnotationPrefix = ''reboot.metal3.io'',
     bmh_Get = (\<lambda>k w. case ref_store w k of
        None \<Rightarrow> (Inl (ForeignError ''not found''), w) | Some b \<Rightarrow> (Inr b, w)),
     bmh_List = (\<lambda>ns ls w. (Inr (filter (\<lambda>b. ref_store w (bmh_key b) = Some b \<and>
        bmhNamespace b = ns \<and> matches_labels ls b) w), w)),
     bmh_Update = ref_update,
     bmh_Patch = (\<lambda>b p w. case ref_store w (bmh_key b) of
        None \<Rightarrow> (Inl (ForeignError ''not found''), w)
      | Some b0 \<Rightarrow> (Inr (ref_patched b p b0), ref_replace (ref_patched b p b0) w))\<rparr>"

lemma ref_store_SomeD: "ref_store w k = Some b \<Longrightarrow> b \<in> set w \<and> bmh_key b = k"
  by (auto simp: ref_store_def find_Some_iff)

lemma ref_store_replace:
  "ref_store w (bmh_key b) = Some b0 \<Longrightarrow> ref_store (ref_replace b w) = (ref_store w)(bmh_key b \<mapsto> b)"
  by (induction w) (auto simp: ref_store_def fun_eq_iff split: if_splits)

lemma bmh_key_version [simp]: "bmh_key (b\<lparr>bmhResourceVersion := v\<rparr>) = bmh_key b"
  by (simp add: bmh_key_def)

lemma ref_update_laws:
  "ref_update b w = (Inr b', w') \<Longrightarrow> updates_store ref_store b w b' w'"
  "ref_update b w = (Inl e, w') \<Longrightarrow> ref_store w' = ref_store w"
  using ref_store_replace[of w "b\<lparr>bmhResourceVersion := CHR ''v'' # bmhResourceVersion b\<rparr>"]
  by (auto simp: ref_update_def updates_store_def written_def bmh_key_def Let_def
      split: option.splits if_splits)

lemma ref_patched_patched: "patched b p b0 (ref_patched b p b0)"
  by (cases p) (simp_all add: patched_def same_status_def ref_patched_def bmh_key_def ref_merge_entries)

lemma ref_patched_key [simp]: "bmh_key (ref_patched b p b0) = bmh_key b0"
  using ref_patched_patched by (simp add: patched_def)

lemma ref_patch_laws:
  assumes "ref_store w (bmh_key b) = Some b0"
  shows "patches_store ref_store b p w (ref_patched b p b0) (ref_replace (ref_patched b p b0) w)"
proof -
  have "bmh_key b0 = bmh_key b" using ref_store_SomeD[OF assms] by simp
  then show ?thesis
    using ref_store_replace[of w "ref_patched b p b0"] assms ref_patched_patched by (auto simp: patches_store_def)
qed

lemma ref_bmh_laws: "bmh_laws ref_bmh_api ref_store (=)"
  unfolding bmh_laws_def ref_bmh_api_def
  by (auto simp: ref_update_laws ref_patch_laws dest: ref_store_SomeD split: option.splits)

text \<open>The operations as they act on a part of a larger world.\<close>

definition at_part :: "('w \<Rightarrow> 'v) \<Rightarrow> ('v \<Rightarrow> 'w \<Rightarrow> 'w) \<Rightarrow> ('v \<Rightarrow> 'a \<times> 'v) \<Rightarrow> 'w \<Rightarrow> 'a \<times> 'w" where
  "at_part get put f w = (case f (get w) of (x, v) \<Rightarrow> (x, put v w))"

definition bmh_api_at :: "('w \<Rightarrow> 'v) \<Rightarrow> ('v \<Rightarrow> 'w \<Rightarrow> 'w) \<Rightarrow> 'v bmh_api \<Rightarrow> 'w bmh_api" where
  "bmh_api_at get put A = \<lparr>OperationalStatusOK = OperationalStatusOK A, StateAvailable = StateAvailable A,
     RebootAnnotationPrefix = RebootAnnotationPrefix A,
     bmh_Get = (\<lambda>k. at_part get put (bmh_Get A k)), bmh_List = (\<lambda>ns ls. at_part get put (bmh_List A ns ls)),
     bmh_Update = (\<lambda>b. at_part get put (bmh_Update A b)), bmh_Patch = (\<lambda>b p. at_part get put (bmh_Patch A b p))\<rparr>"

lemma at_part_iff: "at_part get put f w = (x, w') \<longleftrightarrow> (\<exists>v. f (get w) = (x, v) \<and> w' = put v w)"
  by (auto simp: at_part_def split: prod.split)

lemma bmh_laws_at:
  assumes R: "bmh_laws A store (=)" and put: "\<And>v w. get (put v w) = v" "\<And>w. put (get w) w = w"
  shows "bmh_laws (bmh_api_at get put A) (\<lambda>w. store (get w)) (=)"
proof -
  have upd: "updates_store (\<lambda>w. store (get w)) b w b' (put v w) = updates_store store b (get w) b' v" for b w b' v
    by (simp add: updates_store_def put)
  have pat: "patches_store (\<lambda>w. store (get w)) b p w b' (put v w) = patches_store store b p (get w) b' v" for b p w b' v
    by (simp add: patches_store_def put)
  show ?thesis
    unfolding bmh_laws_def bmh_api_at_def
    using bmh_Get_ok[OF R] bmh_Get_error[OF R] bmh_List_ok[OF R] bmh_Update_ok[OF R] bmh_Update_error[OF R] bmh_Patch_ok[OF R]
    by (auto simp: at_part_iff upd pat put) (use put in metis)+
qed

end
