(* ===== verification/Inventory_Metal3.thy ===== *)
theory Inventory_Metal3
  imports Inventory Metal3_Api
begin

text \<open>
  The Metal3 inventory backend, \<open>internal/inventory/metal3.go\<close>: a host is a \<open>BareMetalHost\<close> object
  and is marked for an instance through its \<open>consumerRef\<close>. The definitions follow the file
  function by function; then come the host-ID round trip, what a search returns and when it returns
  nothing, the effect of assigning and unassigning on the stored object, and the interpretation of
  \<open>inventory_contract\<close>, which holds with other writers active between the read and the write.
\<close>

section \<open>The backend\<close>

abbreviation metal3LabelPrefix :: string where
  "metal3LabelPrefix \<equiv> ''osac.openshift.io/''"
abbreviation Metal3HostTypeLabel :: string where
  "Metal3HostTypeLabel \<equiv> ''osac.openshift.io/host-type''"
abbreviation Metal3ManagedByLabel :: string where
  "Metal3ManagedByLabel \<equiv> ''osac.openshift.io/managed-by''"
abbreviation Metal3PoolIDLabel :: string where
  "Metal3PoolIDLabel \<equiv> ''osac.openshift.io/pool-id''"

definition metal3Label :: "string \<Rightarrow> string" where
  "metal3Label key = metal3LabelPrefix @ key"

lemma inj_metal3Label: "inj metal3Label"
  by (rule injI) (simp add: metal3Label_def)

record 'w metal3_inventory =
  m3client :: "'w bmh_api"
  m3namespace :: string
  m3hostClass :: string
  m3networkClass :: string
  m3draws :: "'w \<Rightarrow> nat \<Rightarrow> nat"

definition parseMetal3Namespace :: "inventory_config \<Rightarrow> go_error + string" where
  "parseMetal3Namespace cfg =
     (case map_of (entries (invOptions cfg)) ''metal3'' of
        None \<Rightarrow> Inl (ErrorText ''metal3 options not found in config'')
      | Some metal3Opts \<Rightarrow>
          (case json_decode_namespace metal3Opts of
             None \<Rightarrow> Inl (ErrorWrap ''failed to unmarshal metal3 options'' json_type_error)
           | Some ns \<Rightarrow>
               if ns = '''' then Inl (ErrorText ''metal3 namespace is required in config'') else Inr ns))"

definition ParseHostID :: "string \<Rightarrow> go_error + string \<times> string" where
  "ParseHostID hostID =
     (let parts = strings_SplitN hostID (CHR ''/'') 2 in
      if length parts \<noteq> 2 \<or> parts ! 0 = '''' \<or> parts ! 1 = ''''
      then Inl (ErrorText (''invalid host ID '' @ go_quote hostID @ '': expected namespace/name format''))
      else Inr (parts ! 0, parts ! 1))"

definition bmhToHost :: "bmh \<Rightarrow> string \<Rightarrow> string \<Rightarrow> host" where
  "bmhToHost b hostCls networkCls =
     (let labels = entries (bmhLabels b);
          managedBy = map_index labels Metal3ManagedByLabel;
          managedBy = (if managedBy = '''' then OsacDefaultManagedByValue else managedBy);
          bareMetalInstanceID = (case bmhConsumerRef b of None \<Rightarrow> '''' | Some ref \<Rightarrow> crName ref)
      in \<lparr>hostBareMetalPoolID = map_index labels Metal3PoolIDLabel,
          hostBareMetalInstanceID = bareMetalInstanceID,
          inventoryHostID = bmhNamespace b @ ''/'' @ bmhName b,
          hostName = bmhName b,
          hostHostType = map_index labels Metal3HostTypeLabel,
          hostHostClass = hostCls,
          hostNetworkClass = networkCls,
          hostProvisionState = bmhProvisioningState b,
          hostManagedBy = managedBy\<rparr>)"

definition metal3_is_candidate :: "'w bmh_api \<Rightarrow> string \<Rightarrow> bmh \<Rightarrow> bool" where
  "metal3_is_candidate A matchManagedBy b =
     (if bmhOperationalStatus b \<noteq> OperationalStatusOK A then False
      else if bmhProvisioningState b \<noteq> StateAvailable A then False
      else if bmhConsumerRef b \<noteq> None then False
      else let managedBy = map_index (entries (bmhLabels b)) Metal3ManagedByLabel;
               managedBy = (if managedBy = '''' then OsacDefaultManagedByValue else managedBy)
           in managedBy = matchManagedBy)"

definition metal3_FindFreeHost ::
    "'w metal3_inventory \<Rightarrow> gomap \<Rightarrow> 'w \<Rightarrow> (go_error + host option) \<times> 'w" where
  "metal3_FindFreeHost m matchExpressions w =
     (let matchLabels = (case map_of matchExpressions ''hostType'' of
            Some hostTypeValue \<Rightarrow> if hostTypeValue \<noteq> '''' then [(Metal3HostTypeLabel, hostTypeValue)] else []
          | None \<Rightarrow> []);
          matchManagedBy = map_index matchExpressions ''managedBy'';
          matchManagedBy = (if matchManagedBy = '''' then OsacDefaultManagedByValue else matchManagedBy)
      in case bmh_List (m3client m) (m3namespace m) matchLabels w of
           (Inl err, w1) \<Rightarrow> (Inl (ErrorWrap ''failed to list BareMetalHosts'' err), w1)
         | (Inr items, w1) \<Rightarrow>
             (let candidates = filter (metal3_is_candidate (m3client m) matchManagedBy) items in
              if candidates = [] then (Inr None, w1)
              else (Inr (Some (bmhToHost (rand_Shuffle (m3draws m w1) candidates ! 0)
                      (m3hostClass m) (m3networkClass m))), w1)))"

definition metal3_AssignHost ::
    "'w metal3_inventory \<Rightarrow> string \<Rightarrow> string \<Rightarrow> gomap \<Rightarrow> 'w \<Rightarrow> (go_error + host option) \<times> 'w" where
  "metal3_AssignHost m hostID bareMetalInstanceID labels w =
     (if hostID = '''' then (Inl (ErrorText ''invalid input: inventoryHostID is empty''), w)
      else if bareMetalInstanceID = '''' then (Inl (ErrorText ''invalid input: bareMetalInstanceID is empty''), w)
      else case ParseHostID hostID of
        Inl err \<Rightarrow> (Inl err, w)
      | Inr key \<Rightarrow>
          (case bmh_Get (m3client m) key w of
             (Inl err, w1) \<Rightarrow> (Inl (ErrorWrap (''failed to get BareMetalHost '' @ hostID) err), w1)
           | (Inr b, w1) \<Rightarrow>
               (if (case bmhConsumerRef b of None \<Rightarrow> False | Some ref \<Rightarrow> crName ref \<noteq> bareMetalInstanceID)
                then (Inr None, w1)
                else let b1 = b\<lparr>bmhLabels := Some (assign_all metal3Label labels
                                  (entries (bmhLabels b)))\<rparr>;
                         b2 = b1\<lparr>bmhConsumerRef := Some \<lparr>crAPIVersion = ''osac.openshift.io/v1alpha1'',
                                   crKind = ''BareMetalInstance'', crName = bareMetalInstanceID\<rparr>\<rparr>
                     in case bmh_Update (m3client m) b2 w1 of
                          (Inl err, w2) \<Rightarrow> (Inl (ErrorWrap (''failed to assign BareMetalHost '' @ hostID) err), w2)
                        | (Inr b3, w2) \<Rightarrow> (Inr (Some (bmhToHost b3 (m3hostClass m) (m3networkClass m))), w2))))"

definition metal3_UnassignHost ::
    "'w metal3_inventory \<Rightarrow> string \<Rightarrow> string list \<Rightarrow> 'w \<Rightarrow> go_error option \<times> 'w" where
  "metal3_UnassignHost m hostID labels w =
     (case ParseHostID hostID of
        Inl err \<Rightarrow> (Some err, w)
      | Inr key \<Rightarrow>
          (case bmh_Get (m3client m) key w of
             (Inl err, w1) \<Rightarrow> (Some (ErrorWrap (''failed to get BareMetalHost '' @ hostID) err), w1)
           | (Inr b, w1) \<Rightarrow>
               (let b1 = b\<lparr>bmhLabels := map_option
                           (fold (\<lambda>label. AList.delete (metal3Label label)) labels) (bmhLabels b)\<rparr>;
                    b2 = b1\<lparr>bmhConsumerRef := None\<rparr>
                in case bmh_Update (m3client m) b2 w1 of
                     (Inl err, w2) \<Rightarrow> (Some (ErrorWrap (''failed to unassign BareMetalHost '' @ hostID) err), w2)
                   | (Inr _, w2) \<Rightarrow> (None, w2))))"

definition metal3_inventory_client :: "'w metal3_inventory \<Rightarrow> 'w inventory_client" where
  "metal3_inventory_client m = \<lparr>FindFreeHost = metal3_FindFreeHost m,
     AssignHost = metal3_AssignHost m, UnassignHost = metal3_UnassignHost m\<rparr>"

section \<open>Host IDs\<close>

lemma ParseHostID_join:
  "CHR ''/'' \<notin> set ns \<Longrightarrow> ns \<noteq> '''' \<Longrightarrow> name \<noteq> '''' \<Longrightarrow>
     ParseHostID (ns @ ''/'' @ name) = Inr (ns, name)"
  by (simp add: ParseHostID_def strings_SplitN_two_sep)

lemma ParseHostID_InrD:
  assumes "ParseHostID h = Inr (ns, name)"
  shows "h = ns @ ''/'' @ name" and "CHR ''/'' \<notin> set ns" and "ns \<noteq> ''''" and "name \<noteq> ''''"
proof -
  let ?parts = "strings_SplitN h (CHR ''/'') 2"
  from assms have two: "length ?parts = 2" and parts: "?parts ! 0 = ns" "?parts ! 1 = name"
    and ne: "ns \<noteq> ''''" "name \<noteq> ''''"
    by (auto simp: ParseHostID_def Let_def split: if_splits)
  from strings_SplitN_two_cases[OF refl two] obtain a b where
    "?parts = [a, b]" "h = a @ CHR ''/'' # b" "CHR ''/'' \<notin> set a" by blast
  with parts ne show "h = ns @ ''/'' @ name" "CHR ''/'' \<notin> set ns" "ns \<noteq> ''''" "name \<noteq> ''''"
    by auto
qed

lemma ParseHostID_inj: "ParseHostID h = Inr k \<Longrightarrow> ParseHostID h' = Inr k \<Longrightarrow> h = h'"
  using ParseHostID_InrD by (cases k) metis

lemma inventoryHostID_bmhToHost [simp]:
  "inventoryHostID (bmhToHost b hc nc) = bmhNamespace b @ ''/'' @ bmhName b"
  "hostHostClass (bmhToHost b hc nc) = hc" "hostNetworkClass (bmhToHost b hc nc) = nc"
  by (simp_all add: bmhToHost_def Let_def)

section \<open>Searching\<close>

definition managed_by :: "bmh \<Rightarrow> string" where
  "managed_by b = (let v = map_index (entries (bmhLabels b)) Metal3ManagedByLabel in
     if v = '''' then OsacDefaultManagedByValue else v)"

definition wanted_managed_by :: "gomap \<Rightarrow> string" where
  "wanted_managed_by match = (let v = map_index match ''managedBy'' in
     if v = '''' then OsacDefaultManagedByValue else v)"

definition wanted_host_type :: "gomap \<Rightarrow> bmh \<Rightarrow> bool" where
  "wanted_host_type match b \<longleftrightarrow>
     (case map_of match ''hostType'' of
        None \<Rightarrow> True
      | Some t \<Rightarrow> t = '''' \<or> map_of (entries (bmhLabels b)) Metal3HostTypeLabel = Some t)"

text \<open>The specification of a free host that matches.\<close>

definition metal3_free :: "'w metal3_inventory \<Rightarrow> gomap \<Rightarrow> bmh \<Rightarrow> bool" where
  "metal3_free m match b \<longleftrightarrow>
     bmhNamespace b = m3namespace m \<and> wanted_host_type match b \<and>
     bmhOperationalStatus b = OperationalStatusOK (m3client m) \<and>
     bmhProvisioningState b = StateAvailable (m3client m) \<and>
     bmhConsumerRef b = None \<and> managed_by b = wanted_managed_by match"

lemma metal3_is_candidate_iff:
  "metal3_is_candidate A mb b \<longleftrightarrow> bmhOperationalStatus b = OperationalStatusOK A \<and>
     bmhProvisioningState b = StateAvailable A \<and> bmhConsumerRef b = None \<and> managed_by b = mb"
  by (simp add: metal3_is_candidate_def managed_by_def Let_def)

lemma metal3_FindFreeHost_cases:
  assumes L: "bmh_laws (m3client m) store env"
  shows "case metal3_FindFreeHost m match w of
      (Inl e, w') \<Rightarrow> True
    | (Inr None, w') \<Rightarrow> \<forall>b. store w (bmh_key b) = Some b \<longrightarrow> \<not> metal3_free m match b
    | (Inr (Some x), w') \<Rightarrow> \<exists>b. store w (bmh_key b) = Some b \<and> metal3_free m match b \<and>
        x = bmhToHost b (m3hostClass m) (m3networkClass m)"
proof -
  define ls where "ls = (case map_of match ''hostType'' of
      Some t \<Rightarrow> if t \<noteq> '''' then [(Metal3HostTypeLabel, t)] else [] | None \<Rightarrow> [])"
  have ls: "matches_labels ls b = wanted_host_type match b" for b
    by (auto simp: ls_def matches_labels_def wanted_host_type_def split: option.split)
  define mb where "mb = wanted_managed_by match"
  obtain r w1 where lst: "bmh_List (m3client m) (m3namespace m) ls w = (r, w1)" by fastforce
  show ?thesis
  proof (cases r)
    case (Inl e)
    then show ?thesis using lst by (simp add: metal3_FindFreeHost_def Let_def ls_def)
  next
    case (Inr items)
    let ?cs = "filter (metal3_is_candidate (m3client m) mb) items"
    note listed = bmh_List_ok(2)[OF L lst[unfolded Inr]]
    have cand: "b \<in> set ?cs \<longleftrightarrow> store w (bmh_key b) = Some b \<and> metal3_free m match b" for b
      by (auto simp: listed metal3_is_candidate_iff metal3_free_def ls mb_def)
    have run: "metal3_FindFreeHost m match w =
        (if ?cs = [] then (Inr None, w1)
         else (Inr (Some (bmhToHost (rand_Shuffle (m3draws m w1) ?cs ! 0) (m3hostClass m) (m3networkClass m))), w1))"
      using lst Inr by (simp add: metal3_FindFreeHost_def Let_def ls_def mb_def wanted_managed_by_def)
    show ?thesis
    proof (cases "?cs = []")
      case True
      then have none: "\<not> (store w (bmh_key b) = Some b \<and> metal3_free m match b)" for b
        using cand[of b] by simp
      show ?thesis unfolding run using True none by auto
    next
      case False
      then have "rand_Shuffle (m3draws m w1) ?cs ! 0 \<in> set ?cs"
        by (metis length_greater_0_conv length_rand_Shuffle nth_mem set_rand_Shuffle)
      with False show ?thesis unfolding run using cand by auto
    qed
  qed
qed

section \<open>The mark of a host\<close>

definition bmh_consumer :: "'w bmh_store \<Rightarrow> 'w \<Rightarrow> string \<Rightarrow> string option" where
  "bmh_consumer store w h =
     (case ParseHostID h of
        Inl e \<Rightarrow> None
      | Inr k \<Rightarrow> (case store w k of
            None \<Rightarrow> None
          | Some b \<Rightarrow> map_option crName (bmhConsumerRef b)))"

lemma bmh_consumer_upd:
  assumes "store w' = (store w)(k \<mapsto> b)" and "ParseHostID h = Inr k"
  shows "bmh_consumer store w' = (bmh_consumer store w)(h := map_option crName (bmhConsumerRef b))"
proof
  fix h'
  show "bmh_consumer store w' h' = ((bmh_consumer store w)(h := map_option crName (bmhConsumerRef b))) h'"
    using assms ParseHostID_inj[of h' k h]
    by (cases "h' = h") (auto simp: bmh_consumer_def split: sum.splits)
qed

lemma bmh_consumer_same_store: "store w' = store w \<Longrightarrow> bmh_consumer store w' = bmh_consumer store w"
  by (rule ext) (simp add: bmh_consumer_def split: sum.split)

text \<open>The object an assignment writes.\<close>

definition assigned_bmh :: "string \<Rightarrow> gomap \<Rightarrow> bmh \<Rightarrow> bmh" where
  "assigned_bmh c labels b = b\<lparr>bmhLabels := Some (assign_all metal3Label labels
       (entries (bmhLabels b))),
     bmhConsumerRef := Some \<lparr>crAPIVersion = ''osac.openshift.io/v1alpha1'',
       crKind = ''BareMetalInstance'', crName = c\<rparr>\<rparr>"

lemma assigned_bmh_simps [simp]:
  "bmh_key (assigned_bmh c ls b) = bmh_key b"
  "bmhResourceVersion (assigned_bmh c ls b) = bmhResourceVersion b"
  "map_option crName (bmhConsumerRef (assigned_bmh c ls b)) = Some c"
  by (simp_all add: assigned_bmh_def bmh_key_def)

definition held_by_other :: "string \<Rightarrow> bmh \<Rightarrow> bool" where
  "held_by_other c b \<longleftrightarrow> (\<exists>ref. bmhConsumerRef b = Some ref \<and> crName ref \<noteq> c)"

lemma metal3_AssignHost_unfold:
  assumes "h \<noteq> ''''" "c \<noteq> ''''" "ParseHostID h = Inr k" "bmh_Get (m3client m) k w = (Inr b, w1)"
  shows "metal3_AssignHost m h c ls w =
    (if held_by_other c b then (Inr None, w1)
     else case bmh_Update (m3client m) (assigned_bmh c ls b) w1 of
            (Inl err, w2) \<Rightarrow> (Inl (ErrorWrap (''failed to assign BareMetalHost '' @ h) err), w2)
          | (Inr b3, w2) \<Rightarrow> (Inr (Some (bmhToHost b3 (m3hostClass m) (m3networkClass m))), w2))"
proof -
  have "(case bmhConsumerRef b of None \<Rightarrow> False | Some ref \<Rightarrow> crName ref \<noteq> c) = held_by_other c b"
    by (auto simp: held_by_other_def split: option.split)
  then show ?thesis using assms by (simp add: metal3_AssignHost_def Let_def assigned_bmh_def)
qed

text \<open>What each way of ending says about the store, with other writers active after the read.\<close>

lemma metal3_assign_effect:
  assumes L: "bmh_laws (m3client m) store env" and run: "metal3_AssignHost m h c ls w = (Inr (Some x), w')"
  obtains k b w1 b' where "ParseHostID h = Inr k" "env w w1" "store w k = Some b" "store w1 k = Some b"
    "\<not> held_by_other c b" "written (assigned_bmh c ls b) b'" "store w' = (store w1)(k \<mapsto> b')"
    "x = bmhToHost b' (m3hostClass m) (m3networkClass m)"
proof -
  from run obtain k where ne: "h \<noteq> ''''" "c \<noteq> ''''" and k: "ParseHostID h = Inr k"
    by (auto simp: metal3_AssignHost_def split: if_splits sum.splits)
  with run obtain b w1 where get: "bmh_Get (m3client m) k w = (Inr b, w1)"
    by (auto simp: metal3_AssignHost_def split: prod.splits sum.splits)
  from run metal3_AssignHost_unfold[where ls = ls, OF ne k get] obtain b' where
    free: "\<not> held_by_other c b" and upd: "bmh_Update (m3client m) (assigned_bmh c ls b) w1 = (Inr b', w')"
    and x: "x = bmhToHost b' (m3hostClass m) (m3networkClass m)"
    by (auto split: if_splits prod.splits sum.splits)
  note cas = bmh_compare_and_swap[OF L get bmh_Update_ok[OF L upd]]
  show thesis
    using that[OF k bmh_Get_ok(3,1)[OF L get]] cas free x by simp
qed

lemma metal3_assign_busy_effect:
  assumes L: "bmh_laws (m3client m) store env" and run: "metal3_AssignHost m h c ls w = (Inr None, w')"
  obtains k b where "ParseHostID h = Inr k" "env w w'" "store w k = Some b" "held_by_other c b"
proof -
  from run obtain k where ne: "h \<noteq> ''''" "c \<noteq> ''''" and k: "ParseHostID h = Inr k"
    by (auto simp: metal3_AssignHost_def split: if_splits sum.splits)
  with run obtain b w1 where get: "bmh_Get (m3client m) k w = (Inr b, w1)"
    by (auto simp: metal3_AssignHost_def split: prod.splits sum.splits)
  from run metal3_AssignHost_unfold[where ls = ls, OF ne k get] have "held_by_other c b" "w' = w1"
    by (auto split: if_splits prod.splits sum.splits)
  then show thesis using that[OF k _ bmh_Get_ok(1)[OF L get]] bmh_Get_ok(3)[OF L get] by simp
qed

lemma metal3_assign_fail_effect:
  assumes L: "bmh_laws (m3client m) store env" and run: "metal3_AssignHost m h c ls w = (Inl e, w')"
  shows "\<exists>w1. (w1 = w \<or> env w w1) \<and> (store w' = store w1 \<or>
    (\<exists>k b b'. ParseHostID h = Inr k \<and> store w1 k = Some b \<and> \<not> held_by_other c b \<and>
       written (assigned_bmh c ls b) b' \<and> store w' = (store w1)(k \<mapsto> b')))"
proof (cases "h = '''' \<or> c = '''' \<or> (\<exists>err. ParseHostID h = Inl err)")
  case True
  then have "w' = w" using run by (auto simp: metal3_AssignHost_def split: if_splits)
  then show ?thesis by blast
next
  case False
  then obtain k where ne: "h \<noteq> ''''" "c \<noteq> ''''" and k: "ParseHostID h = Inr k"
    by (cases "ParseHostID h") auto
  obtain r w1 where get: "bmh_Get (m3client m) k w = (r, w1)" by fastforce
  show ?thesis
  proof (cases r)
    case (Inl err)
    then have "w' = w1" using run ne k get by (simp add: metal3_AssignHost_def)
    then show ?thesis using bmh_Get_error[OF L get[unfolded Inl]] by blast
  next
    case (Inr b)
    note get = get[unfolded Inr]
    from run metal3_AssignHost_unfold[where ls = ls, OF ne k get] obtain err where
      free: "\<not> held_by_other c b" and upd: "bmh_Update (m3client m) (assigned_bmh c ls b) w1 = (Inl err, w')"
      by (auto split: if_splits prod.splits sum.splits)
    from bmh_Update_error[OF L upd] show ?thesis
    proof
      assume "store w' = store w1"
      then show ?thesis using bmh_Get_ok(3)[OF L get] by blast
    next
      assume "\<exists>b'. updates_store store (assigned_bmh c ls b) w1 b' w'"
      then obtain b' where "updates_store store (assigned_bmh c ls b) w1 b' w'" ..
      note cas = bmh_compare_and_swap[OF L get this]
      show ?thesis
        by (rule exI[of _ w1]) (use cas free k bmh_Get_ok(3)[OF L get] in auto)
    qed
  qed
qed

definition unassigned_bmh :: "string list \<Rightarrow> bmh \<Rightarrow> bmh" where
  "unassigned_bmh ks b = b\<lparr>bmhLabels := map_option
     (fold (\<lambda>label. AList.delete (metal3Label label)) ks) (bmhLabels b), bmhConsumerRef := None\<rparr>"

lemma unassigned_bmh_simps [simp]:
  "bmh_key (unassigned_bmh ks b) = bmh_key b"
  "bmhResourceVersion (unassigned_bmh ks b) = bmhResourceVersion b"
  "bmhConsumerRef (unassigned_bmh ks b) = None"
  by (simp_all add: unassigned_bmh_def bmh_key_def)

lemma metal3_UnassignHost_unfold:
  assumes "ParseHostID h = Inr k" "bmh_Get (m3client m) k w = (Inr b, w1)"
  shows "metal3_UnassignHost m h ks w =
    (case bmh_Update (m3client m) (unassigned_bmh ks b) w1 of
       (Inl err, w2) \<Rightarrow> (Some (ErrorWrap (''failed to unassign BareMetalHost '' @ h) err), w2)
     | (Inr _, w2) \<Rightarrow> (None, w2))"
  using assms by (simp add: metal3_UnassignHost_def Let_def unassigned_bmh_def)

lemma metal3_unassign_effect:
  assumes L: "bmh_laws (m3client m) store env" and run: "metal3_UnassignHost m h ks w = (None, w')"
  obtains k b w1 b' where "ParseHostID h = Inr k" "env w w1" "store w k = Some b" "store w1 k = Some b"
    "written (unassigned_bmh ks b) b'" "store w' = (store w1)(k \<mapsto> b')"
proof -
  from run obtain k where k: "ParseHostID h = Inr k"
    by (auto simp: metal3_UnassignHost_def split: sum.splits)
  with run obtain b w1 where get: "bmh_Get (m3client m) k w = (Inr b, w1)"
    by (auto simp: metal3_UnassignHost_def split: prod.splits sum.splits)
  from run metal3_UnassignHost_unfold[where ks = ks, OF k get] obtain b' where
    upd: "bmh_Update (m3client m) (unassigned_bmh ks b) w1 = (Inr b', w')"
    by (auto split: prod.splits sum.splits)
  note cas = bmh_compare_and_swap[OF L get bmh_Update_ok[OF L upd]]
  show thesis using that[OF k bmh_Get_ok(3,1)[OF L get]] cas by simp
qed

lemma metal3_unassign_fail_effect:
  assumes L: "bmh_laws (m3client m) store env" and run: "metal3_UnassignHost m h ks w = (Some e, w')"
  shows "\<exists>w1. (w1 = w \<or> env w w1) \<and> (store w' = store w1 \<or>
    (\<exists>k b b'. ParseHostID h = Inr k \<and> written (unassigned_bmh ks b) b' \<and> store w' = (store w1)(k \<mapsto> b')))"
proof (cases "ParseHostID h")
  case (Inl err)
  then show ?thesis using run by (auto simp: metal3_UnassignHost_def)
next
  case k: (Inr k)
  obtain r w1 where get: "bmh_Get (m3client m) k w = (r, w1)" by fastforce
  show ?thesis
  proof (cases r)
    case (Inl err)
    then have "w' = w1" using run k get by (simp add: metal3_UnassignHost_def)
    then show ?thesis using bmh_Get_error[OF L get[unfolded Inl]] by blast
  next
    case (Inr b)
    note get = get[unfolded Inr]
    from run metal3_UnassignHost_unfold[where ks = ks, OF k get] obtain err where
      upd: "bmh_Update (m3client m) (unassigned_bmh ks b) w1 = (Inl err, w')"
      by (auto split: prod.splits sum.splits)
    from bmh_Update_error[OF L upd] show ?thesis
    proof
      assume "store w' = store w1"
      then show ?thesis using bmh_Get_ok(3)[OF L get] by blast
    next
      assume "\<exists>b'. updates_store store (unassigned_bmh ks b) w1 b' w'"
      then obtain b' where "updates_store store (unassigned_bmh ks b) w1 b' w'" ..
      note cas = bmh_compare_and_swap[OF L get this]
      show ?thesis
        by (rule exI[of _ w1]) (use cas k bmh_Get_ok(3)[OF L get] in auto)
    qed
  qed
qed

section \<open>The contract holds\<close>

lemma consumer_of_assigned:
  "written (assigned_bmh c ls b) b' \<Longrightarrow> map_option crName (bmhConsumerRef b') = Some c"
  by (simp add: written_def assigned_bmh_def)

lemma consumer_of_unassigned: "written (unassigned_bmh ks b) b' \<Longrightarrow> bmhConsumerRef b' = None"
  by (simp add: written_def)

lemma consumer_not_other:
  "store w k = Some b \<Longrightarrow> ParseHostID h = Inr k \<Longrightarrow> \<not> held_by_other c b \<Longrightarrow>
     bmh_consumer store w h = None \<or> bmh_consumer store w h = Some c"
  by (auto simp: bmh_consumer_def held_by_other_def)

interpretation metal3_contract: inventory_contract "metal3_AssignHost m" "metal3_UnassignHost m"
  "bmh_consumer store" "\<lambda>h t w w1. w1 = w \<or> env w w1" "\<lambda>ls. True" "bmh_laws (m3client m) store env"
  for m store env
proof unfold_locales
  assume L: "bmh_laws (m3client m) store env"
  fix h c ls w x w'
  assume run: "metal3_AssignHost m h c ls w = (Inr (Some x), w')"
  obtain k b w1 b' where eff: "ParseHostID h = Inr k" "env w w1" "store w k = Some b"
    "store w1 k = Some b" "\<not> held_by_other c b" "written (assigned_bmh c ls b) b'"
    "store w' = (store w1)(k \<mapsto> b')" by (rule metal3_assign_effect[OF L run])
  from bmh_consumer_upd[OF eff(7,1)] consumer_of_assigned[OF eff(6)]
  have "bmh_consumer store w' = (bmh_consumer store w1)(h \<mapsto> c)" by simp
  with eff(2) consumer_not_other[of store w1 k b h c] eff(4,1,5)
  show "\<exists>w1. (w1 = w \<or> env w w1) \<and> (bmh_consumer store w1 h = None \<or> bmh_consumer store w1 h = Some c) \<and>
      bmh_consumer store w' = (bmh_consumer store w1)(h \<mapsto> c)" by blast
next
  assume L: "bmh_laws (m3client m) store env"
  fix h c ls w w'
  assume run: "metal3_AssignHost m h c ls w = (Inr None, w')"
  obtain k b where "ParseHostID h = Inr k" "env w w'" "store w k = Some b" "held_by_other c b"
    by (rule metal3_assign_busy_effect[OF L run])
  then show "(w' = w \<or> env w w') \<and> (\<exists>c'. c' \<noteq> c \<and> bmh_consumer store w h = Some c')"
    by (auto simp: bmh_consumer_def held_by_other_def)
next
  assume L: "bmh_laws (m3client m) store env"
  fix h c ls w e w'
  assume run: "metal3_AssignHost m h c ls w = (Inl e, w')"
  from metal3_assign_fail_effect[OF L run] obtain w1 where w1: "w1 = w \<or> env w w1" and
    eff: "store w' = store w1 \<or> (\<exists>k b b'. ParseHostID h = Inr k \<and> store w1 k = Some b \<and>
      \<not> held_by_other c b \<and> written (assigned_bmh c ls b) b' \<and> store w' = (store w1)(k \<mapsto> b'))" by blast
  from eff have "bmh_consumer store w' = bmh_consumer store w1 \<or>
      (bmh_consumer store w1 h = None \<or> bmh_consumer store w1 h = Some c) \<and>
       bmh_consumer store w' = (bmh_consumer store w1)(h \<mapsto> c)"
  proof (elim disjE exE conjE)
    assume "store w' = store w1"
    from bmh_consumer_same_store[OF this] show ?thesis by blast
  next
    fix k b b'
    assume eff: "ParseHostID h = Inr k" "store w1 k = Some b" "\<not> held_by_other c b"
      "written (assigned_bmh c ls b) b'" "store w' = (store w1)(k \<mapsto> b')"
    from bmh_consumer_upd[OF eff(5,1)] consumer_of_assigned[OF eff(4)]
      consumer_not_other[of store w1 k b h c] eff(1-3)
    show ?thesis by auto
  qed
  with w1 show "\<exists>w1. (w1 = w \<or> env w w1) \<and> (bmh_consumer store w' = bmh_consumer store w1 \<or>
      (bmh_consumer store w1 h = None \<or> bmh_consumer store w1 h = Some c) \<and>
       bmh_consumer store w' = (bmh_consumer store w1)(h \<mapsto> c))" by blast
next
  assume L: "bmh_laws (m3client m) store env"
  fix h ks w w'
  assume run: "metal3_UnassignHost m h ks w = (None, w')"
  obtain k b w1 b' where eff: "ParseHostID h = Inr k" "env w w1" "written (unassigned_bmh ks b) b'"
    "store w' = (store w1)(k \<mapsto> b')" by (rule metal3_unassign_effect[OF L run]) blast
  from bmh_consumer_upd[OF eff(4,1)] consumer_of_unassigned[OF eff(3)]
  have "bmh_consumer store w' = (bmh_consumer store w1)(h := None)" by simp
  with eff(2) show "\<exists>w1. (w1 = w \<or> env w w1) \<and> bmh_consumer store w' = (bmh_consumer store w1)(h := None)" by blast
next
  assume L: "bmh_laws (m3client m) store env"
  fix h ks w e w'
  assume run: "metal3_UnassignHost m h ks w = (Some e, w')"
  from metal3_unassign_fail_effect[OF L run] obtain w1 where w1: "w1 = w \<or> env w w1" and
    eff: "store w' = store w1 \<or> (\<exists>k b b'. ParseHostID h = Inr k \<and>
      written (unassigned_bmh ks b) b' \<and> store w' = (store w1)(k \<mapsto> b'))" by blast
  from eff have "bmh_consumer store w' = bmh_consumer store w1 \<or>
      bmh_consumer store w' = (bmh_consumer store w1)(h := None)"
  proof (elim disjE exE conjE)
    assume "store w' = store w1"
    from bmh_consumer_same_store[OF this] show ?thesis by blast
  next
    fix k b b'
    assume eff: "ParseHostID h = Inr k" "written (unassigned_bmh ks b) b'" "store w' = (store w1)(k \<mapsto> b')"
    from bmh_consumer_upd[OF eff(3,1)] consumer_of_unassigned[OF eff(2)] show ?thesis by simp
  qed
  with w1 show "\<exists>w1. (w1 = w \<or> env w w1) \<and> (bmh_consumer store w' = bmh_consumer store w1 \<or>
      bmh_consumer store w' = (bmh_consumer store w1)(h := None))" by blast
qed

section \<open>Labels\<close>

lemma labels_of_assigned:
  assumes "written (assigned_bmh c ls b) b'" and "wf_map ls"
  shows "map_of ls k = Some v \<Longrightarrow> map_of (entries (bmhLabels b')) (metal3Label k) = Some v"
    and "k' \<notin> metal3Label ` fst ` set ls \<Longrightarrow>
      map_of (entries (bmhLabels b')) k' = map_of (entries (bmhLabels b)) k'"
proof -
  have "bmhLabels b' = Some (assign_all metal3Label ls (entries (bmhLabels b)))"
    using assms(1) by (simp add: written_def assigned_bmh_def)
  then show "map_of ls k = Some v \<Longrightarrow> map_of (entries (bmhLabels b')) (metal3Label k) = Some v"
    "k' \<notin> metal3Label ` fst ` set ls \<Longrightarrow>
      map_of (entries (bmhLabels b')) k' = map_of (entries (bmhLabels b)) k'"
    using map_of_assign_all_hit[OF inj_metal3Label assms(2), of k v]
      map_of_assign_all_other[of ls metal3Label k' "entries (bmhLabels b)"]
    by auto
qed

lemma labels_of_unassigned:
  "written (unassigned_bmh ks b) b' \<Longrightarrow> map_of (entries (bmhLabels b')) k =
     (if k \<in> metal3Label ` set ks then None else map_of (entries (bmhLabels b)) k)"
  by (cases "bmhLabels b") (auto simp: written_def unassigned_bmh_def map_of_fold_delete)

section \<open>Properties\<close>

text \<open>A small world for the concrete instances below: two available hosts, one of them claimed.\<close>

definition demo_bmh :: "string \<Rightarrow> consumer_ref option \<Rightarrow> bmh" where
  "demo_bmh name ref = \<lparr>bmhNamespace = ''metal'', bmhName = name, bmhResourceVersion = ''1'',
     bmhLabels = Some [(Metal3HostTypeLabel, ''gpu'')], bmhAnnotations = None, bmhConsumerRef = ref,
     bmhOnline = False, bmhPoweredOn = False, bmhOperationalStatus = ''OK'',
     bmhProvisioningState = ''available''\<rparr>"

definition demo_claim :: "string \<Rightarrow> consumer_ref" where
  "demo_claim c = \<lparr>crAPIVersion = ''osac.openshift.io/v1alpha1'', crKind = ''BareMetalInstance'', crName = c\<rparr>"

definition demo_bmhs :: ref_world where
  "demo_bmhs = [demo_bmh ''a'' (Some (demo_claim ''uid-1'')), demo_bmh ''b'' None]"

definition demo_metal3 :: "ref_world metal3_inventory" where
  "demo_metal3 = \<lparr>m3client = ref_bmh_api, m3namespace = ''metal'', m3hostClass = ''metal3'',
     m3networkClass = ''net'', m3draws = (\<lambda>_ _. 0)\<rparr>"

lemma demo_metal3_laws: "bmh_laws (m3client demo_metal3) ref_store (=)"
  by (simp add: demo_metal3_def ref_bmh_laws)

lemmas demo_metal3_eval = demo_metal3_def demo_bmhs_def demo_bmh_def demo_claim_def ref_bmh_api_def
  ref_store_def ref_update_def bmh_key_def matches_labels_def metal3_FindFreeHost_def
  metal3_AssignHost_def metal3_UnassignHost_def metal3_is_candidate_def ParseHostID_def
  numeral_2_eq_2 Let_def rand_Shuffle_def map_index_def bmh_consumer_def

lemma ParseHostID_demo:
  "ParseHostID ''metal/a'' = Inr (''metal'', ''a'')" "ParseHostID ''metal/b'' = Inr (''metal'', ''b'')"
  using ParseHostID_join[of "''metal''" "''a''"] ParseHostID_join[of "''metal''" "''b''"] by simp_all

text \<open>A Metal3 host ID made from an object's namespace and name parses back to exactly that
  pair, as long as both are non-empty and the namespace has no slash; and no other string parses to
  that pair.\<close>

theorem host_id_roundtrip:
  assumes "bmhNamespace b \<noteq> ''''" and "bmhName b \<noteq> ''''" and "CHR ''/'' \<notin> set (bmhNamespace b)"
  shows "ParseHostID (inventoryHostID (bmhToHost b hc nc)) = Inr (bmh_key b) \<and>
    (\<forall>h. ParseHostID h = Inr (bmh_key b) \<longrightarrow> h = inventoryHostID (bmhToHost b hc nc))"
  using assms ParseHostID_join[of "bmhNamespace b" "bmhName b"]
  by (auto simp: bmh_key_def dest: ParseHostID_InrD)

theorem host_id_roundtrip_witness:
  "ParseHostID (inventoryHostID (bmhToHost (demo_bmh ''b'' None) ''m'' ''n'')) = Inr (''metal'', ''b'')"
proof -
  have "ParseHostID (inventoryHostID (bmhToHost (demo_bmh ''b'' None) ''m'' ''n''))
      = Inr (bmh_key (demo_bmh ''b'' None))"
    by (rule host_id_roundtrip[THEN conjunct1]) (simp_all add: demo_bmh_def)
  then show ?thesis by (simp add: demo_bmh_def bmh_key_def)
qed



text \<open>C19: Assigning a Metal3 host is a compare-and-swap, with other writers active between the read
  and the write: when it succeeds, the object stored at the moment of the write is the one that was
  read, it was free or already marked for the same instance, and the write marks it for that
  instance, stores every given label under the operator's prefix and leaves every other label, and
  every other object, as it was.\<close>

theorem metal3_assign_compare_and_swap:
  assumes "bmh_laws (m3client m) store env" and "wf_map ls"
    and "metal3_AssignHost m h c ls w = (Inr (Some x), w')"
  shows "\<exists>k b w1 b'. ParseHostID h = Inr k \<and> env w w1 \<and> store w k = Some b \<and> store w1 k = Some b \<and>
    \<not> held_by_other c b \<and> store w' = (store w1)(k \<mapsto> b') \<and>
    map_option crName (bmhConsumerRef b') = Some c \<and>
    (\<forall>key v. map_of ls key = Some v \<longrightarrow> map_of (entries (bmhLabels b')) (metal3Label key) = Some v) \<and>
    (\<forall>key. key \<notin> metal3Label ` fst ` set ls \<longrightarrow>
       map_of (entries (bmhLabels b')) key = map_of (entries (bmhLabels b)) key)"
proof -
  obtain k b w1 b' where eff: "ParseHostID h = Inr k" "env w w1" "store w k = Some b"
    "store w1 k = Some b" "\<not> held_by_other c b" "written (assigned_bmh c ls b) b'"
    "store w' = (store w1)(k \<mapsto> b')" by (rule metal3_assign_effect[OF assms(1,3)])
  then show ?thesis
    using consumer_of_assigned[OF eff(6)] labels_of_assigned[OF eff(6) assms(2)] by blast
qed

theorem metal3_assign_compare_and_swap_witness:
  "\<exists>x w'. metal3_AssignHost demo_metal3 ''metal/b'' ''uid-2'' [(''rack'', ''r1'')] demo_bmhs = (Inr (Some x), w') \<and>
     (\<exists>b'. ref_store w' (''metal'', ''b'') = Some b' \<and> map_option crName (bmhConsumerRef b') = Some ''uid-2'')"
proof -
  obtain x w' where run: "metal3_AssignHost demo_metal3 ''metal/b'' ''uid-2'' [(''rack'', ''r1'')] demo_bmhs
      = (Inr (Some x), w')"
    by (simp add: demo_metal3_eval)
  from metal3_assign_compare_and_swap[OF demo_metal3_laws _ run] obtain k w1 b' where
    "ParseHostID ''metal/b'' = Inr k" "ref_store w' = (ref_store w1)(k \<mapsto> b')"
    "map_option crName (bmhConsumerRef b') = Some ''uid-2''" by auto
  then show ?thesis using run ParseHostID_demo by auto
qed

text \<open>C1: A Metal3 host marked for one instance is never handed to another, whatever other writers
  do meanwhile: the call answers that the host is unavailable or fails, and writes nothing.\<close>

theorem metal3_never_double_books:
  assumes "bmh_laws (m3client m) store env" and "bmh_consumer store w h = Some c'" and "c' \<noteq> c"
    and "metal3_AssignHost m h c ls w = (r, w')"
  shows "(r = Inr None \<or> (\<exists>e. r = Inl e)) \<and> (w' = w \<or> env w w')"
proof -
  from assms(2,3) obtain k b where k: "ParseHostID h = Inr k" and b: "store w k = Some b"
    and other: "held_by_other c b"
    by (auto simp: bmh_consumer_def held_by_other_def split: sum.splits option.splits)
  show ?thesis
  proof (cases "h = '''' \<or> c = ''''")
    case True
    then show ?thesis using assms(4) by (auto simp: metal3_AssignHost_def split: if_splits)
  next
    case False
    obtain g w1 where get: "bmh_Get (m3client m) k w = (g, w1)" by fastforce
    show ?thesis
    proof (cases g)
      case (Inl e)
      then show ?thesis using assms(4) False k get bmh_Get_error[OF assms(1) get[unfolded Inl]]
        by (auto simp: metal3_AssignHost_def)
    next
      case (Inr b1)
      note read = bmh_Get_ok[OF assms(1) get[unfolded Inr]]
      have "metal3_AssignHost m h c ls w = (Inr None, w1)"
        using metal3_AssignHost_unfold[of h c k m w b1 w1 ls] False k get Inr other read(1) b by simp
      then show ?thesis using assms(4) read(3) by simp
    qed
  qed
qed

theorem metal3_never_double_books_witness:
  "metal3_AssignHost demo_metal3 ''metal/a'' ''uid-2'' [] demo_bmhs = (Inr None, demo_bmhs)"
proof -
  obtain r w' where run: "metal3_AssignHost demo_metal3 ''metal/a'' ''uid-2'' [] demo_bmhs = (r, w')" by fastforce
  have "bmh_consumer ref_store demo_bmhs ''metal/a'' = Some ''uid-1''"
    by (simp add: demo_metal3_eval)
  from metal3_never_double_books[OF demo_metal3_laws this _ run]
  have "(r = Inr None \<or> (\<exists>e. r = Inl e)) \<and> w' = demo_bmhs" by auto
  moreover have "\<nexists>e. r = Inl e" using run by (auto simp: demo_metal3_eval)
  ultimately show ?thesis using run by simp
qed

text \<open>C27: Assigning a Metal3 host with some labels and then unassigning it with a list of label keys
  leaves it free; each listed key is gone, each other assigned label stays (these are the persistent
  labels), and a label that was neither assigned nor listed is as it was before.\<close>

theorem metal3_assign_unassign_labels:
  assumes "bmh_laws (m3client m) store (=)" and "wf_map ls" and "ParseHostID h = Inr k"
    and "metal3_AssignHost m h c ls w = (Inr (Some x), w1)" and "metal3_UnassignHost m h ks w1 = (None, w2)"
  shows "\<exists>b b2. store w k = Some b \<and> store w2 k = Some b2 \<and> bmhConsumerRef b2 = None \<and>
    (\<forall>key \<in> set ks. map_of (entries (bmhLabels b2)) (metal3Label key) = None) \<and>
    (\<forall>key v. key \<notin> set ks \<longrightarrow> map_of ls key = Some v \<longrightarrow>
       map_of (entries (bmhLabels b2)) (metal3Label key) = Some v) \<and>
    (\<forall>l. l \<notin> metal3Label ` set ks \<longrightarrow> l \<notin> metal3Label ` fst ` set ls \<longrightarrow>
       map_of (entries (bmhLabels b2)) l = map_of (entries (bmhLabels b)) l)"
proof -
  obtain b b1 where a: "store w k = Some b" "written (assigned_bmh c ls b) b1" "store w1 = (store w)(k \<mapsto> b1)"
    using metal3_assign_effect[OF assms(1,4)] assms(3) by (metis sum.inject(2))
  obtain b2 where u: "written (unassigned_bmh ks b1) b2" "store w2 k = Some b2"
    using metal3_unassign_effect[OF assms(1,5)] assms(3) a(3) by (metis sum.inject(2) fun_upd_same option.inject)
  have "metal3Label key \<in> metal3Label ` set ks \<longleftrightarrow> key \<in> set ks" for key
    using inj_metal3Label by (auto simp: inj_eq)
  then show ?thesis
    using a(1) u(2) consumer_of_unassigned[OF u(1)] labels_of_unassigned[OF u(1)]
      labels_of_assigned[OF a(2) assms(2)] by simp
qed

theorem metal3_assign_unassign_labels_witness:
  "\<exists>x w1 w2 b2.
     metal3_AssignHost demo_metal3 ''metal/b'' ''uid-2'' [(''job'', ''j''), (''owner'', ''o'')] demo_bmhs = (Inr (Some x), w1) \<and>
     metal3_UnassignHost demo_metal3 ''metal/b'' [''job''] w1 = (None, w2) \<and>
     ref_store w2 (''metal'', ''b'') = Some b2 \<and>
     map_of (entries (bmhLabels b2)) (metal3Label ''owner'') = Some ''o'' \<and>
     map_of (entries (bmhLabels b2)) (metal3Label ''job'') = None"
proof -
  let ?ls = "[(''job'', ''j''), (''owner'', ''o'')]"
  obtain x w1 w2 where run: "metal3_AssignHost demo_metal3 ''metal/b'' ''uid-2'' ?ls demo_bmhs = (Inr (Some x), w1)"
    "metal3_UnassignHost demo_metal3 ''metal/b'' [''job''] w1 = (None, w2)"
    by (simp add: demo_metal3_eval)
  from metal3_assign_unassign_labels[OF demo_metal3_laws _ ParseHostID_demo(2) run] obtain b2 where
    "ref_store w2 (''metal'', ''b'') = Some b2"
    "map_of (entries (bmhLabels b2)) (metal3Label ''job'') = None"
    "\<forall>key v. key \<notin> set [''job''] \<longrightarrow> map_of ?ls key = Some v \<longrightarrow>
       map_of (entries (bmhLabels b2)) (metal3Label key) = Some v" by auto
  then show ?thesis using run by (intro exI[of _ x] exI[of _ w1] exI[of _ w2] exI[of _ b2]) simp
qed

text \<open>The pool ID the controller passes when it assigns a Metal3 host is stored under a label the
  backend never reads back: the host it returns reports the pool ID found before the call under
  another label, so after a first assignment the reported pool ID is empty. The same holds for the
  managing party, stored as \<open>managedBy\<close> and read as \<open>managed-by\<close>.\<close>

theorem metal3_pool_id_not_reported:
  assumes "bmh_laws (m3client m) store env" and "wf_map ls"
    and "''pool-id'' \<notin> fst ` set ls" and "''managed-by'' \<notin> fst ` set ls"
    and "metal3_AssignHost m h c ls w = (Inr (Some x), w')"
  shows "\<exists>k b. ParseHostID h = Inr k \<and> store w k = Some b \<and>
    hostBareMetalPoolID x = map_index (entries (bmhLabels b)) Metal3PoolIDLabel \<and>
    hostManagedBy x = managed_by b"
proof -
  obtain k b b' where eff: "ParseHostID h = Inr k" "store w k = Some b"
    "written (assigned_bmh c ls b) b'" "x = bmhToHost b' (m3hostClass m) (m3networkClass m)"
    by (rule metal3_assign_effect[OF assms(1,5)])
  have "Metal3PoolIDLabel = metal3Label ''pool-id''" "Metal3ManagedByLabel = metal3Label ''managed-by''"
    by (simp_all add: metal3Label_def)
  then have "Metal3PoolIDLabel \<notin> metal3Label ` fst ` set ls" "Metal3ManagedByLabel \<notin> metal3Label ` fst ` set ls"
    using assms(3,4) inj_metal3Label by (simp_all only: inj_image_mem_iff not_False_eq_True)
  with labels_of_assigned(2)[OF eff(3) assms(2)]
  have "map_index (entries (bmhLabels b')) Metal3PoolIDLabel = map_index (entries (bmhLabels b)) Metal3PoolIDLabel"
    "map_index (entries (bmhLabels b')) Metal3ManagedByLabel = map_index (entries (bmhLabels b)) Metal3ManagedByLabel"
    by (simp_all add: map_index_def)
  then show ?thesis using eff by (auto simp: bmhToHost_def managed_by_def Let_def)
qed

theorem metal3_pool_id_not_reported_witness:
  "\<exists>x w'. metal3_AssignHost demo_metal3 ''metal/b'' ''uid-2'' [(OsacBareMetalPoolIDLabel, ''pool-7'')] demo_bmhs
       = (Inr (Some x), w') \<and> hostBareMetalPoolID x = ''''"
proof -
  obtain x w' where run: "metal3_AssignHost demo_metal3 ''metal/b'' ''uid-2''
      [(OsacBareMetalPoolIDLabel, ''pool-7'')] demo_bmhs = (Inr (Some x), w')"
    by (simp add: demo_metal3_eval)
  from metal3_pool_id_not_reported[OF demo_metal3_laws _ _ _ run] obtain k b where
    "ParseHostID ''metal/b'' = Inr k" "ref_store demo_bmhs k = Some b"
    "hostBareMetalPoolID x = map_index (entries (bmhLabels b)) Metal3PoolIDLabel" by auto
  moreover from this have "b = demo_bmh ''b'' None"
    using ParseHostID_demo
    by (auto simp: ref_store_def demo_bmhs_def demo_bmh_def bmh_key_def split: if_splits)
  ultimately show ?thesis using run by (auto simp: demo_bmh_def map_index_def)
qed

end
