(* ===== verification/Ironic_Api.thy ===== *)
theory Ironic_Api
  imports Shared
begin

text \<open>
  What the two OpenStack backends use of code outside the repository: the fields of an Ironic node,
  and the service as the record \<open>ironic_api\<close> of operations of a service client \<open>'c\<close> over the state
  \<open>'w\<close> of the outside world. A node's labels live in its \<open>extra\<close> document and are changed by JSON
  Patch requests (RFC 6902), whose paths are JSON Pointers (RFC 6901); both standards are written
  out here as far as the requests of the code reach, and \<open>ironic_laws\<close> states that the service
  follows them: a read returns the stored node, and an update applies all operations to the node
  stored at that moment, or none.
\<close>

section \<open>JSON Pointers and patches\<close>

text \<open>The reference tokens of a pointer, each with \<open>~1\<close> read as a slash and \<open>~0\<close> as a tilde.\<close>

fun unescape_token :: "string \<Rightarrow> string" where
  "unescape_token [] = []"
| "unescape_token [c] = [c]"
| "unescape_token (c # d # s) =
     (if c = CHR ''~'' \<and> d = CHR ''1'' then CHR ''/'' # unescape_token s
      else if c = CHR ''~'' \<and> d = CHR ''0'' then CHR ''~'' # unescape_token s
      else c # unescape_token (d # s))"

fun split_slashes :: "string \<Rightarrow> string list" where
  "split_slashes [] = [[]]"
| "split_slashes (c # s) =
     (if c = CHR ''/'' then [] # split_slashes s
      else case split_slashes s of t # ts \<Rightarrow> (c # t) # ts | [] \<Rightarrow> [[c]])"

definition pointer_tokens :: "string \<Rightarrow> string list option" where
  "pointer_tokens path =
     (case path of
        [] \<Rightarrow> Some []
      | c # s \<Rightarrow> if c = CHR ''/'' then Some (map unescape_token (split_slashes s)) else None)"

datatype patch_op = AddOp string json | RemoveOp string

text \<open>An array index is \<open>-\<close> (the end) or a number with no leading zero, at most the array's length.\<close>

definition is_digit :: "char \<Rightarrow> bool" where
  "is_digit c \<longleftrightarrow> CHR ''0'' \<le> c \<and> c \<le> CHR ''9''"

definition array_index :: "string \<Rightarrow> nat \<Rightarrow> nat option" where
  "array_index token len =
     (if token = ''-'' then Some len
      else if token \<noteq> [] \<and> list_all is_digit token \<and> (token = ''0'' \<or> hd token \<noteq> CHR ''0'')
      then (let n = foldl (\<lambda>n c. 10 * n + (of_char c - 48)) 0 token in if n \<le> len then Some n else None)
      else None)"

text \<open>
  Adding a value at a pointer: the parent must exist; in an object the member is set, in an array
  the value is inserted before the index. Removing: the target must exist.
\<close>

fun json_add :: "string list \<Rightarrow> json \<Rightarrow> json \<Rightarrow> json option" where
  "json_add [] v doc = Some v"
| "json_add [k] v (JObject fs) = Some (JObject (AList.update k v fs))"
| "json_add [k] v (JArray xs) =
     (case array_index k (length xs) of
        Some i \<Rightarrow> Some (JArray (take i xs @ v # drop i xs)) | None \<Rightarrow> None)"
| "json_add (k # ks) v (JObject fs) =
     (case map_of fs k of
        None \<Rightarrow> None
      | Some d \<Rightarrow> map_option (\<lambda>d'. JObject (AList.update k d' fs)) (json_add ks v d))"
| "json_add (k # ks) v (JArray xs) =
     (case array_index k (length xs) of
        Some i \<Rightarrow> if i < length xs then map_option (\<lambda>d'. JArray (xs[i := d'])) (json_add ks v (xs ! i)) else None
      | None \<Rightarrow> None)"
| "json_add (k # ks) v doc = None"

fun json_remove :: "string list \<Rightarrow> json \<Rightarrow> json option" where
  "json_remove [] doc = None"
| "json_remove [k] (JObject fs) =
     (if map_of fs k = None then None else Some (JObject (AList.delete k fs)))"
| "json_remove [k] (JArray xs) =
     (case array_index k (length xs) of
        Some i \<Rightarrow> if i < length xs then Some (JArray (take i xs @ drop (Suc i) xs)) else None | None \<Rightarrow> None)"
| "json_remove (k # ks) (JObject fs) =
     (case map_of fs k of
        None \<Rightarrow> None
      | Some d \<Rightarrow> map_option (\<lambda>d'. JObject (AList.update k d' fs)) (json_remove ks d))"
| "json_remove (k # ks) (JArray xs) =
     (case array_index k (length xs) of
        Some i \<Rightarrow> if i < length xs then map_option (\<lambda>d'. JArray (xs[i := d'])) (json_remove ks (xs ! i)) else None
      | None \<Rightarrow> None)"
| "json_remove (k # ks) doc = None"

text \<open>A request on a node addresses the document \<open>{"extra": ...}\<close>; any other root is not described.\<close>

type_synonym extra = "(string \<times> json) list"

definition extra_patch :: "patch_op \<Rightarrow> extra \<Rightarrow> extra option" where
  "extra_patch p ex =
     (case pointer_tokens (case p of AddOp path v \<Rightarrow> path | RemoveOp path \<Rightarrow> path) of
        Some (r # k # ks) \<Rightarrow>
          (if r = ''extra''
           then case (case p of AddOp _ v \<Rightarrow> json_add (k # ks) v (JObject ex)
                              | RemoveOp _ \<Rightarrow> json_remove (k # ks) (JObject ex)) of
                  Some (JObject ex') \<Rightarrow> Some ex' | _ \<Rightarrow> None
           else None)
      | _ \<Rightarrow> None)"

fun extra_patches :: "patch_op list \<Rightarrow> extra \<Rightarrow> extra option" where
  "extra_patches [] ex = Some ex"
| "extra_patches (p # ps) ex =
     (case extra_patch p ex of None \<Rightarrow> None | Some ex' \<Rightarrow> extra_patches ps ex')"

section \<open>Nodes and operations\<close>

record node =
  nodeUUID :: string
  nodeName :: string
  nodeResourceClass :: string
  nodeProvisionState :: string
  nodePowerState :: string
  nodeTargetPowerState :: string
  nodeExtra :: extra

record list_opts =
  loResourceClass :: string
  loProvisionState :: string

text \<open>
  \<open>nodes_Pages\<close> is the sequence of pages a listing would serve, each decoded by \<open>ExtractNodes\<close>, with
  the error that would end the sequence; the code looks at it only as far as its callback asks.
  \<open>ResponseCodeIs\<close> looks for an HTTP status in an error chain.
\<close>

record ('c, 'w) ironic_api =
  ResponseCodeIs :: "go_error \<Rightarrow> nat \<Rightarrow> bool"
  nodes_Pages :: "'c \<Rightarrow> list_opts \<Rightarrow> 'w \<Rightarrow> ((go_error + node list) list \<times> go_error option) \<times> 'w"
  nodes_Get :: "'c \<Rightarrow> string \<Rightarrow> 'w \<Rightarrow> (go_error + node) \<times> 'w"
  nodes_Update :: "'c \<Rightarrow> string \<Rightarrow> patch_op list \<Rightarrow> 'w \<Rightarrow> (go_error + node) \<times> 'w"
  nodes_ChangePowerState :: "'c \<Rightarrow> string \<Rightarrow> string \<Rightarrow> 'w \<Rightarrow> go_error option \<times> 'w"

definition StatusUnauthorized :: nat where "StatusUnauthorized = 401"
definition StatusConflict :: nat where "StatusConflict = 409"

type_synonym 'w node_store = "'w \<Rightarrow> string \<Rightarrow> node option"

text \<open>
  An update writes one node; \<open>frame\<close> is whatever else of the world the reader cares about (the
  Kubernetes objects, say), which the service does not touch.
\<close>

definition patches_node ::
    "'w node_store \<Rightarrow> ('w \<Rightarrow> 'f) \<Rightarrow> string \<Rightarrow> patch_op list \<Rightarrow> 'w \<Rightarrow> node \<Rightarrow> 'w \<Rightarrow> bool" where
  "patches_node store frame h ops w n' w' \<longleftrightarrow> frame w' = frame w \<and>
     (\<exists>n. store w h = Some n \<and> store w' = (store w)(h \<mapsto> n') \<and>
        extra_patches ops (nodeExtra n) = Some (nodeExtra n') \<and> nodeUUID n' = nodeUUID n)"

lemma patches_node_frame: "patches_node store frame h ops w n' w' \<Longrightarrow> frame w' = frame w"
  by (simp add: patches_node_def)

text \<open>
  The laws. Requests address a node by its UUID. \<open>env h\<close> is what other parties may do to the stored
  nodes while a request on \<open>h\<close> is under way; it is reflexive and transitive. A request that ends in
  an error may still have been carried out.
\<close>

definition ironic_laws ::
    "('c, 'w) ironic_api \<Rightarrow> 'w node_store \<Rightarrow> ('w \<Rightarrow> 'f) \<Rightarrow> (string \<Rightarrow> 'w \<Rightarrow> 'w \<Rightarrow> bool) \<Rightarrow> bool" where
  "ironic_laws A store frame env \<longleftrightarrow>
     (\<forall>h w. env h w w) \<and> (\<forall>h u v w. env h u v \<longrightarrow> env h v w \<longrightarrow> env h u w) \<and>
     (\<forall>c h w n w'. nodes_Get A c h w = (Inr n, w') \<longrightarrow> env h w w' \<and> store w' h = Some n) \<and>
     (\<forall>c h w e w'. nodes_Get A c h w = (Inl e, w') \<longrightarrow> env h w w') \<and>
     (\<forall>c h ops w n' w'. nodes_Update A c h ops w = (Inr n', w') \<longrightarrow>
        (\<exists>w1. env h w w1 \<and> patches_node store frame h ops w1 n' w')) \<and>
     (\<forall>c h ops w e w'. nodes_Update A c h ops w = (Inl e, w') \<longrightarrow>
        env h w w' \<or> (\<exists>w1 n'. env h w w1 \<and> patches_node store frame h ops w1 n' w'))"

lemma ironic_env_refl: "ironic_laws A store frame env \<Longrightarrow> env h w w"
  unfolding ironic_laws_def by metis

lemma ironic_env_trans: "ironic_laws A store frame env \<Longrightarrow> env h u v \<Longrightarrow> env h v w \<Longrightarrow> env h u w"
  unfolding ironic_laws_def by metis

lemma ironic_Get_ok:
  assumes "ironic_laws A store frame env" and "nodes_Get A c h w = (Inr n, w')"
  shows "env h w w'" and "store w' h = Some n"
proof -
  have "env h w w' \<and> store w' h = Some n" using assms unfolding ironic_laws_def by metis
  then show "env h w w'" "store w' h = Some n" by simp_all
qed

lemma ironic_Get_error:
  assumes "ironic_laws A store frame env" and "nodes_Get A c h w = (Inl e, w')"
  shows "env h w w'"
  using assms unfolding ironic_laws_def by metis

lemma ironic_Update_ok:
  assumes "ironic_laws A store frame env" and "nodes_Update A c h ops w = (Inr n', w')"
  obtains w1 where "env h w w1" "patches_node store frame h ops w1 n' w'"
  using assms unfolding ironic_laws_def by metis

lemma ironic_Update_error:
  assumes "ironic_laws A store frame env" and "nodes_Update A c h ops w = (Inl e, w')"
  shows "env h w w' \<or> (\<exists>w1 n'. env h w w1 \<and> patches_node store frame h ops w1 n' w')"
  using assms unfolding ironic_laws_def by metis

section \<open>An instance of the laws\<close>

text \<open>Nodes in a list, one service client, and nobody else.\<close>

definition ref_nodes :: "node list node_store" where
  "ref_nodes w h = find (\<lambda>n. nodeUUID n = h) w"

definition ref_node_update :: "string \<Rightarrow> patch_op list \<Rightarrow> node list \<Rightarrow> (go_error + node) \<times> node list" where
  "ref_node_update h ops w =
     (case ref_nodes w h of
        None \<Rightarrow> (Inl (ForeignError ''not found''), w)
      | Some n \<Rightarrow>
          (case extra_patches ops (nodeExtra n) of
             None \<Rightarrow> (Inl (ForeignError ''bad patch''), w)
           | Some ex \<Rightarrow> (Inr (n\<lparr>nodeExtra := ex\<rparr>),
               map (\<lambda>x. if nodeUUID x = h then n\<lparr>nodeExtra := ex\<rparr> else x) w)))"

definition ref_ironic_api :: "(unit, node list) ironic_api" where
  "ref_ironic_api = \<lparr>
     ResponseCodeIs = (\<lambda>e code. code = 401 \<and> e = ForeignError ''401'' \<or> code = 409 \<and> e = ForeignError ''409''),
     nodes_Pages = (\<lambda>c opts w. (([Inr w], None), w)),
     nodes_Get = (\<lambda>c h w. (case ref_nodes w h of
        None \<Rightarrow> (Inl (ForeignError ''not found''), w) | Some n \<Rightarrow> (Inr n, w))),
     nodes_Update = (\<lambda>c. ref_node_update),
     nodes_ChangePowerState = (\<lambda>c h target w. (None,
        map (\<lambda>x. if nodeUUID x = h then x\<lparr>nodePowerState := target\<rparr> else x) w))\<rparr>"

lemma ref_nodes_map:
  assumes "ref_nodes w h = Some n" and "nodeUUID n' = h"
  shows "ref_nodes (map (\<lambda>x. if nodeUUID x = h then n' else x) w) = (ref_nodes w)(h \<mapsto> n')"
proof
  fix i
  show "ref_nodes (map (\<lambda>x. if nodeUUID x = h then n' else x) w) i = ((ref_nodes w)(h \<mapsto> n')) i"
  proof (cases "i = h")
    case True
    then show ?thesis using assms by (induction w) (auto simp: ref_nodes_def split: if_splits)
  next
    case False
    have "ref_nodes (map (\<lambda>x. if nodeUUID x = h then n' else x) w) i = ref_nodes w i"
      using assms(2) False by (induction w) (auto simp: ref_nodes_def)
    then show ?thesis using False by simp
  qed
qed

lemma ref_nodes_UUID: "ref_nodes w h = Some n \<Longrightarrow> nodeUUID n = h"
  by (auto simp: ref_nodes_def find_Some_iff)

lemma ref_node_update_laws:
  "ref_node_update h ops w = (Inr n', w') \<Longrightarrow> patches_node ref_nodes (\<lambda>_. ()) h ops w n' w'"
  "ref_node_update h ops w = (Inl e, w') \<Longrightarrow> w' = w"
  using ref_nodes_map[of w h] ref_nodes_UUID[of w h]
  by (auto simp: ref_node_update_def patches_node_def split: option.splits)

lemma ref_ironic_laws: "ironic_laws ref_ironic_api ref_nodes (\<lambda>_. ()) (\<lambda>h. (=))"
  unfolding ironic_laws_def ref_ironic_api_def
  by (auto simp: ref_node_update_laws(1) dest: ref_node_update_laws(2)[symmetric] split: option.splits)

end
