(* ===== verification/Inventory_OpenStack.thy ===== *)
theory Inventory_OpenStack
  imports Inventory Ironic_Api
begin

text \<open>
  The OpenStack inventory backend, \<open>internal/inventory/openstack.go\<close>: a host is an Ironic node and is
  marked for an instance by the entry \<open>bareMetalInstanceId\<close> of the map \<open>osac_labels\<close> in its \<open>extra\<close>
  document. The state of an operation is the backend's service client (replaced after an
  authentication failure) and the outside world. After the definitions come the addressing of a
  label by an escaped JSON Pointer, what a patch does to the labels, what a search returns, the
  effect of assigning and unassigning with the retry after an authentication error, and the
  interpretation of \<open>inventory_contract\<close>.
\<close>

section \<open>The backend\<close>

abbreviation BareMetalInstanceIDLabel :: string where
  "BareMetalInstanceIDLabel \<equiv> ''bareMetalInstanceId''"
abbreviation ManagedByLabel :: string where
  "ManagedByLabel \<equiv> ''managedBy''"

record ('c, 'w) openstack_inventory =
  osApi :: "('c, 'w) ironic_api"
  newServiceClient :: "'w \<Rightarrow> (go_error + 'c) \<times> 'w"
  osHostClass :: string
  osNetworkClass :: string
  osDraws :: "'w \<Rightarrow> nat \<Rightarrow> nat \<Rightarrow> nat"

definition isAuthError :: "('c, 'w) ironic_api \<Rightarrow> go_error option \<Rightarrow> bool" where
  "isAuthError A err =
     (case err of
        None \<Rightarrow> False
      | Some e \<Rightarrow>
          if ResponseCodeIs A e StatusUnauthorized then True
          else if errors_As is_UnableToReauthenticate e then True
          else errors_As is_ErrorAfterReauthentication e)"

definition reconnect ::
    "('c, 'w) openstack_inventory \<Rightarrow> 'c \<times> 'w \<Rightarrow> go_error option \<times> ('c \<times> 'w)" where
  "reconnect m s =
     (case newServiceClient m (snd s) of
        (Inl err, w1) \<Rightarrow> (Some (ErrorWrap ''failed to recreate baremetal client'' err), (fst s, w1))
      | (Inr sc, w1) \<Rightarrow> (None, (sc, w1)))"

text \<open>The string under a key of \<open>osac_labels\<close>; \<open>None\<close> is the second result being false.\<close>

definition getNestedLabel :: "node \<Rightarrow> string \<Rightarrow> string option" where
  "getNestedLabel n labelKey =
     (case map_of (nodeExtra n) ''osac_labels'' of
        Some (JObject labelsMap) \<Rightarrow>
          (case map_of labelsMap labelKey of Some (JString value) \<Rightarrow> Some value | _ \<Rightarrow> None)
      | _ \<Rightarrow> None)"

definition label_or_empty :: "string option \<Rightarrow> string" where
  "label_or_empty r = (case r of None \<Rightarrow> '''' | Some v \<Rightarrow> v)"

subsection \<open>FindFreeHost\<close>

text \<open>The body of the loop over the nodes of one page; \<open>None\<close> means \<open>continue\<close>.\<close>

definition openstack_visit ::
    "('c, 'w) openstack_inventory \<Rightarrow> gomap \<Rightarrow> node \<Rightarrow> host option" where
  "openstack_visit m matchExpressions n =
     (let bareMetalInstanceID = label_or_empty (getNestedLabel n BareMetalInstanceIDLabel) in
      if bareMetalInstanceID \<noteq> '''' then None
      else
        let bareMetalPoolID = label_or_empty (getNestedLabel n OsacBareMetalPoolIDLabel);
            managedBy = label_or_empty (getNestedLabel n ManagedByLabel);
            managedBy = (if managedBy = '''' then OsacDefaultManagedByValue else managedBy);
            matchManagedBy = map_index matchExpressions ''managedBy'';
            matchManagedBy = (if matchManagedBy = '''' then OsacDefaultManagedByValue else matchManagedBy)
        in if managedBy \<noteq> matchManagedBy then None
           else Some \<lparr>hostBareMetalPoolID = bareMetalPoolID, hostBareMetalInstanceID = bareMetalInstanceID,
             inventoryHostID = nodeUUID n, hostName = nodeName n, hostHostType = nodeResourceClass n,
             hostHostClass = osHostClass m, hostNetworkClass = osNetworkClass m,
             hostProvisionState = nodeProvisionState n, hostManagedBy = managedBy\<rparr>)"

fun openstack_scan ::
    "('c, 'w) openstack_inventory \<Rightarrow> gomap \<Rightarrow> node list \<Rightarrow> host option" where
  "openstack_scan m matchExpressions [] = None"
| "openstack_scan m matchExpressions (n # ns) =
     (case openstack_visit m matchExpressions n of
        Some h \<Rightarrow> Some h
      | None \<Rightarrow> openstack_scan m matchExpressions ns)"

text \<open>\<open>EachPage\<close> with the callback: stop at the first page with a host, or with a page that fails.\<close>

fun openstack_each_page ::
    "('c, 'w) openstack_inventory \<Rightarrow> gomap \<Rightarrow> (nat \<Rightarrow> nat \<Rightarrow> nat) \<Rightarrow> (go_error + node list) list
      \<Rightarrow> go_error option \<Rightarrow> go_error + host option" where
  "openstack_each_page m matchExpressions draws [] err =
     (case err of Some e \<Rightarrow> Inl e | None \<Rightarrow> Inr None)"
| "openstack_each_page m matchExpressions draws (page # pages) err =
     (case page of
        Inl e \<Rightarrow> Inl e
      | Inr nodeList \<Rightarrow>
          (case openstack_scan m matchExpressions (rand_Shuffle (draws (length pages)) nodeList) of
             Some h \<Rightarrow> Inr (Some h)
           | None \<Rightarrow> openstack_each_page m matchExpressions draws pages err))"

definition findFreeHost ::
    "('c, 'w) openstack_inventory \<Rightarrow> gomap \<Rightarrow> 'c \<times> 'w \<Rightarrow> (go_error + host option) \<times> ('c \<times> 'w)" where
  "findFreeHost m matchExpressions s =
     (let resourceClass = (case map_of matchExpressions ''hostType'' of Some t \<Rightarrow> t | None \<Rightarrow> '''');
          provisionState = map_index matchExpressions ''provisionState'';
          provisionState = (if provisionState = '''' then OsacDefaultProvisionStateValue else provisionState);
          listOpts = \<lparr>loResourceClass = resourceClass, loProvisionState = provisionState\<rparr>
      in case nodes_Pages (osApi m) (fst s) listOpts (snd s) of
           ((pages, err), w1) \<Rightarrow>
             (openstack_each_page m matchExpressions (osDraws m (snd s)) pages err, (fst s, w1)))"

definition openstack_FindFreeHost ::
    "('c, 'w) openstack_inventory \<Rightarrow> gomap \<Rightarrow> 'c \<times> 'w \<Rightarrow> (go_error + host option) \<times> ('c \<times> 'w)" where
  "openstack_FindFreeHost m matchExpressions s =
     (case findFreeHost m matchExpressions s of
        (Inr h, s1) \<Rightarrow> (Inr h, s1)
      | (Inl err, s1) \<Rightarrow>
          if \<not> isAuthError (osApi m) (Some err) then (Inl err, s1)
          else (case reconnect m s1 of
             (Some reconnErr, s2) \<Rightarrow> (Inl (ErrorWrap ''find free host: reconnect failed'' reconnErr), s2)
           | (None, s2) \<Rightarrow>
               (case findFreeHost m matchExpressions s2 of
                  (Inl err2, s3) \<Rightarrow> (Inl (ErrorWrap ''find free host after reconnect'' err2), s3)
                | (Inr h, s3) \<Rightarrow> (Inr h, s3))))"

subsection \<open>AssignHost\<close>

definition escapeJSONPointerToken :: "string \<Rightarrow> string" where
  "escapeJSONPointerToken s =
     (let s = strings_ReplaceAll s (CHR ''~'') ''~0'' in strings_ReplaceAll s (CHR ''/'') ''~1'')"

definition label_path :: "string \<Rightarrow> string" where
  "label_path label = ''/extra/osac_labels/'' @ escapeJSONPointerToken label"

definition openstack_host :: "('c, 'w) openstack_inventory \<Rightarrow> string \<Rightarrow> node \<Rightarrow> host" where
  "openstack_host m bareMetalInstanceID n =
     (let managedBy = (case getNestedLabel n ManagedByLabel of
            None \<Rightarrow> OsacDefaultManagedByValue | Some v \<Rightarrow> v);
          bareMetalPoolID = label_or_empty (getNestedLabel n OsacBareMetalPoolIDLabel)
      in \<lparr>hostBareMetalPoolID = bareMetalPoolID, hostBareMetalInstanceID = bareMetalInstanceID,
          inventoryHostID = nodeUUID n, hostName = nodeName n, hostHostType = nodeResourceClass n,
          hostHostClass = osHostClass m, hostNetworkClass = osNetworkClass m,
          hostProvisionState = nodeProvisionState n, hostManagedBy = managedBy\<rparr>)"

definition assignHost ::
    "('c, 'w) openstack_inventory \<Rightarrow> string \<Rightarrow> string \<Rightarrow> gomap \<Rightarrow> 'c \<times> 'w
      \<Rightarrow> (go_error + host option) \<times> ('c \<times> 'w)" where
  "assignHost m hostID bareMetalInstanceID labels s =
     (if hostID = '''' then (Inl (ErrorText ''invalid input: inventoryHostID is empty''), s)
      else if bareMetalInstanceID = '''' then (Inl (ErrorText ''invalid input: bareMetalInstanceID is empty''), s)
      else case nodes_Get (osApi m) (fst s) hostID (snd s) of
        (Inl err, w1) \<Rightarrow> (Inl err, (fst s, w1))
      | (Inr n, w1) \<Rightarrow>
          if (case getNestedLabel n BareMetalInstanceIDLabel of
                Some current \<Rightarrow> current \<noteq> '''' \<and> current \<noteq> bareMetalInstanceID | None \<Rightarrow> False)
          then (Inr None, (fst s, w1))
          else
            (case (if map_of (nodeExtra n) ''osac_labels'' = None
                   then (case nodes_Update (osApi m) (fst s) hostID
                           [AddOp ''/extra/osac_labels'' (JObject [])] w1 of
                           (Inl err, w2) \<Rightarrow> (Some err, w2) | (Inr _, w2) \<Rightarrow> (None, w2))
                   else (None, w1)) of
               (Some err, w2) \<Rightarrow> (Inl err, (fst s, w2))
             | (None, w2) \<Rightarrow>
                 (let updateOpts =
                        AddOp (label_path BareMetalInstanceIDLabel) (JString bareMetalInstanceID)
                        # map (\<lambda>(labelKey, labelValue). AddOp (label_path labelKey) (JString labelValue)) labels
                  in case nodes_Update (osApi m) (fst s) hostID updateOpts w2 of
                       (Inl err, w3) \<Rightarrow> (Inl err, (fst s, w3))
                     | (Inr n', w3) \<Rightarrow>
                         (Inr (Some (openstack_host m bareMetalInstanceID n')), (fst s, w3)))))"

definition openstack_AssignHost ::
    "('c, 'w) openstack_inventory \<Rightarrow> string \<Rightarrow> string \<Rightarrow> gomap \<Rightarrow> 'c \<times> 'w
      \<Rightarrow> (go_error + host option) \<times> ('c \<times> 'w)" where
  "openstack_AssignHost m hostID bareMetalInstanceID labels s =
     (case assignHost m hostID bareMetalInstanceID labels s of
        (Inr h, s1) \<Rightarrow> (Inr h, s1)
      | (Inl err, s1) \<Rightarrow>
          if \<not> isAuthError (osApi m) (Some err) then (Inl err, s1)
          else (case reconnect m s1 of
             (Some reconnErr, s2) \<Rightarrow>
               (Inl (ErrorWrap (''assign host '' @ hostID @ '': reconnect failed'') reconnErr), s2)
           | (None, s2) \<Rightarrow>
               (case assignHost m hostID bareMetalInstanceID labels s2 of
                  (Inl err2, s3) \<Rightarrow>
                    (Inl (ErrorWrap (''assign host '' @ hostID @ '' after reconnect'') err2), s3)
                | (Inr h, s3) \<Rightarrow> (Inr h, s3))))"

subsection \<open>UnassignHost\<close>

fun dedup_labels :: "string list \<Rightarrow> string list \<Rightarrow> string list" where
  "dedup_labels seen [] = []"
| "dedup_labels seen (label # labels) =
     (if label \<in> set seen then dedup_labels seen labels
      else label # dedup_labels (label # seen) labels)"

definition unassignHost ::
    "('c, 'w) openstack_inventory \<Rightarrow> string \<Rightarrow> string list \<Rightarrow> 'c \<times> 'w \<Rightarrow> go_error option \<times> ('c \<times> 'w)" where
  "unassignHost m hostID labels s =
     (case nodes_Get (osApi m) (fst s) hostID (snd s) of
        (Inl err, w1) \<Rightarrow> (Some err, (fst s, w1))
      | (Inr n, w1) \<Rightarrow>
          (let existing = (case map_of (nodeExtra n) ''osac_labels'' of Some (JObject ls) \<Rightarrow> ls | _ \<Rightarrow> []);
               labelsToRemove = BareMetalInstanceIDLabel # dedup_labels [BareMetalInstanceIDLabel] labels;
               updateOpts = map (\<lambda>label. RemoveOp (label_path label))
                 (filter (\<lambda>label. map_of existing label \<noteq> None) labelsToRemove)
           in if updateOpts = [] then (None, (fst s, w1))
              else (case nodes_Update (osApi m) (fst s) hostID updateOpts w1 of
                      (Inl err, w2) \<Rightarrow> (Some err, (fst s, w2))
                    | (Inr _, w2) \<Rightarrow> (None, (fst s, w2)))))"

definition openstack_UnassignHost ::
    "('c, 'w) openstack_inventory \<Rightarrow> string \<Rightarrow> string list \<Rightarrow> 'c \<times> 'w \<Rightarrow> go_error option \<times> ('c \<times> 'w)" where
  "openstack_UnassignHost m hostID labels s =
     (case unassignHost m hostID labels s of
        (None, s1) \<Rightarrow> (None, s1)
      | (Some err, s1) \<Rightarrow>
          if \<not> isAuthError (osApi m) (Some err) then (Some err, s1)
          else (case reconnect m s1 of
             (Some reconnErr, s2) \<Rightarrow>
               (Some (ErrorWrap (''unassign host '' @ hostID @ '': reconnect failed'') reconnErr), s2)
           | (None, s2) \<Rightarrow>
               (case unassignHost m hostID labels s2 of
                  (Some err2, s3) \<Rightarrow>
                    (Some (ErrorWrap (''unassign host '' @ hostID @ '' after reconnect'') err2), s3)
                | (None, s3) \<Rightarrow> (None, s3))))"

definition openstack_inventory_client ::
    "('c, 'w) openstack_inventory \<Rightarrow> ('c \<times> 'w) inventory_client" where
  "openstack_inventory_client m = \<lparr>FindFreeHost = openstack_FindFreeHost m,
     AssignHost = openstack_AssignHost m, UnassignHost = openstack_UnassignHost m\<rparr>"

section \<open>Addressing a label\<close>

lemma escape_simps [simp]:
  "escapeJSONPointerToken [] = []"
  "escapeJSONPointerToken (c # s) =
     (if c = CHR ''~'' then ''~0'' else if c = CHR ''/'' then ''~1'' else [c]) @ escapeJSONPointerToken s"
  by (simp_all add: escapeJSONPointerToken_def)

lemma no_slash_escape: "CHR ''/'' \<notin> set (escapeJSONPointerToken s)"
  by (induction s) auto

lemma unescape_plain: "c \<noteq> CHR ''~'' \<Longrightarrow> unescape_token (c # s) = c # unescape_token s"
  by (cases s) simp_all

lemma unescape_escape: "unescape_token (escapeJSONPointerToken s) = s"
  by (induction s) (simp_all add: unescape_plain)

lemma split_slashes_no_slash: "CHR ''/'' \<notin> set s \<Longrightarrow> split_slashes s = [s]"
  by (induction s) auto

lemma split_slashes_append:
  "CHR ''/'' \<notin> set a \<Longrightarrow> split_slashes (a @ CHR ''/'' # s) = a # split_slashes s"
  by (induction a) auto

lemma pointer_tokens_label [simp]: "pointer_tokens (label_path k) = Some [''extra'', ''osac_labels'', k]"
proof -
  have "split_slashes (''extra'' @ CHR ''/'' # ''osac_labels'' @ CHR ''/'' # escapeJSONPointerToken k)
      = [''extra'', ''osac_labels'', escapeJSONPointerToken k]"
    by (subst split_slashes_append, simp)+ (simp add: split_slashes_no_slash no_slash_escape)
  then show ?thesis
    by (simp add: pointer_tokens_def label_path_def unescape_escape)
qed

lemma pointer_tokens_labels [simp]:
  "pointer_tokens ''/extra/osac_labels'' = Some [''extra'', ''osac_labels'']"
  by (simp add: pointer_tokens_def)

section \<open>What a patch does to the labels\<close>

definition labels_obj :: "extra \<Rightarrow> (string \<times> json) list option" where
  "labels_obj ex = (case map_of ex ''osac_labels'' of Some (JObject ls) \<Rightarrow> Some ls | _ \<Rightarrow> None)"

definition nested_label :: "extra \<Rightarrow> string \<Rightarrow> string option" where
  "nested_label ex k = (case labels_obj ex of
     Some ls \<Rightarrow> (case map_of ls k of Some (JString v) \<Rightarrow> Some v | _ \<Rightarrow> None) | None \<Rightarrow> None)"

lemma getNestedLabel_eq: "getNestedLabel n k = nested_label (nodeExtra n) k"
  by (auto simp: getNestedLabel_def nested_label_def labels_obj_def split: option.splits json.splits)

lemma patch_init:
  "extra_patch (AddOp ''/extra/osac_labels'' (JObject [])) ex
     = Some (AList.update ''osac_labels'' (JObject []) ex)"
  by (simp add: extra_patch_def)

lemma array_index_word: "k \<noteq> ''-'' \<Longrightarrow> \<not> list_all is_digit k \<Longrightarrow> array_index k n = None"
  by (simp add: array_index_def)

lemma patch_add_label:
  assumes "labels_obj ex = Some ls"
  shows "extra_patch (AddOp (label_path k) v) ex
    = Some (AList.update ''osac_labels'' (JObject (AList.update k v ls)) ex)"
  using assms by (auto simp: extra_patch_def labels_obj_def split: option.splits json.splits)

text \<open>Adding the mark needs \<open>osac_labels\<close> to be an object: in an array the key is no index.\<close>

lemma patch_add_mark_object:
  assumes "extra_patch (AddOp (label_path BareMetalInstanceIDLabel) v) ex = Some ex'"
  shows "\<exists>ls. labels_obj ex = Some ls"
proof -
  have "array_index BareMetalInstanceIDLabel n = None" for n
    by (rule array_index_word) (simp_all add: is_digit_def)
  then show ?thesis using assms
    by (auto simp: extra_patch_def labels_obj_def split: option.splits json.splits)
qed

lemma labels_obj_update [simp]: "labels_obj (AList.update ''osac_labels'' (JObject ls) ex) = Some ls"
  by (simp add: labels_obj_def update_conv)

lemma labels_after_init:
  "extra_patches [AddOp ''/extra/osac_labels'' (JObject [])] ex = Some ex' \<Longrightarrow> labels_obj ex' = Some []"
  by (auto simp: patch_init)

lemma patch_add_labels:
  assumes "labels_obj ex = Some ls"
  shows "\<exists>ex'. extra_patches (map (\<lambda>(k, v). AddOp (label_path k) (JString v)) kvs) ex = Some ex' \<and>
    labels_obj ex' = Some (foldl (\<lambda>acc (k, v). AList.update k (JString v) acc) ls kvs)"
  using assms
proof (induction kvs arbitrary: ex ls)
  case (Cons kv kvs)
  obtain k v where kv: "kv = (k, v)" by fastforce
  show ?case using Cons.IH[OF labels_obj_update] patch_add_label[OF Cons.prems] by (simp add: kv)
qed simp

lemma map_of_foldl_update:
  "map_of (foldl (\<lambda>acc (k, v). AList.update k (f v) acc) ls kvs) k =
     (case map_of (rev kvs) k of Some v \<Rightarrow> Some (f v) | None \<Rightarrow> map_of ls k)"
  by (induction kvs arbitrary: ls)
    (auto simp: update_conv map_add_def split: option.splits)

lemma map_of_rev_distinct: "wf_map m \<Longrightarrow> map_of (rev m) k = map_of m k"
proof (induction m)
  case (Cons e m)
  obtain a b where e: "e = (a, b)" by fastforce
  have "map_of (rev m) = map_of m" if "wf_map m"
    using that by (metis distinct_map map_of_inject_set distinct_rev rev_map set_rev wf_map_def)
  moreover have "map_of m a = None" using Cons.prems by (simp add: e map_of_eq_None_iff)
  ultimately show ?case using Cons.prems by (auto simp: e map_add_def split: option.split)
qed simp

text \<open>The labels after an assignment: every given one, and the mark unless a given label has its key.\<close>

definition assigned_labels :: "string \<Rightarrow> gomap \<Rightarrow> (string \<times> json) list \<Rightarrow> (string \<times> json) list" where
  "assigned_labels c labels ls =
     foldl (\<lambda>acc (k, v). AList.update k (JString v) acc)
       (AList.update BareMetalInstanceIDLabel (JString c) ls) labels"

abbreviation assign_ops :: "string \<Rightarrow> gomap \<Rightarrow> patch_op list" where
  "assign_ops c labels \<equiv> AddOp (label_path BareMetalInstanceIDLabel) (JString c)
     # map (\<lambda>(k, v). AddOp (label_path k) (JString v)) labels"

lemma assign_patches:
  assumes "extra_patches (assign_ops c labels) ex = Some ex'"
  obtains ls where "labels_obj ex = Some ls" "labels_obj ex' = Some (assigned_labels c labels ls)"
proof -
  from assms obtain ex1 where "extra_patch (AddOp (label_path BareMetalInstanceIDLabel) (JString c)) ex = Some ex1"
    by (auto split: option.splits)
  then obtain ls where ls: "labels_obj ex = Some ls" using patch_add_mark_object by blast
  let ?ex1 = "AList.update ''osac_labels'' (JObject (AList.update BareMetalInstanceIDLabel (JString c) ls)) ex"
  have "labels_obj ex' = Some (assigned_labels c labels ls)"
    using assms patch_add_labels[of ?ex1 _ labels] by (auto simp: patch_add_label[OF ls] assigned_labels_def)
  then show thesis using that ls by blast
qed

lemma assigned_labels_map:
  "map_of (assigned_labels c labels ls) k =
     (case map_of (rev labels) k of
        Some v \<Rightarrow> Some (JString v)
      | None \<Rightarrow> if k = BareMetalInstanceIDLabel then Some (JString c) else map_of ls k)"
  unfolding assigned_labels_def map_of_foldl_update
  by (simp add: update_conv split: option.split)

text \<open>Removing labels that were all there when the node was read.\<close>

lemma patch_remove_label:
  assumes "extra_patch (RemoveOp (label_path k)) ex = Some ex'" and "labels_obj ex = Some ls"
  shows "labels_obj ex' = Some (AList.delete k ls)"
  using assms by (auto simp: extra_patch_def labels_obj_def update_conv split: option.splits json.splits if_splits)

lemma patch_remove_labels:
  assumes "extra_patches (map (\<lambda>k. RemoveOp (label_path k)) ks) ex = Some ex'" and "labels_obj ex = Some ls"
  shows "labels_obj ex' = Some (fold AList.delete ks ls)"
  using assms
proof (induction ks arbitrary: ex ls)
  case (Cons k ks)
  from Cons.prems(1) obtain ex1 where "extra_patch (RemoveOp (label_path k)) ex = Some ex1"
    "extra_patches (map (\<lambda>k. RemoveOp (label_path k)) ks) ex1 = Some ex'"
    by (auto split: option.splits)
  with Cons.IH[OF this(2) patch_remove_label[OF this(1) Cons.prems(2)]] show ?case by simp
qed simp

lemma dedup_labels_set: "set (dedup_labels seen ks) = set ks - set seen"
  by (induction seen ks rule: dedup_labels.induct) auto

section \<open>Marks, and what happens between the requests of a call\<close>

definition node_mark :: "node \<Rightarrow> string option" where
  "node_mark n = (case getNestedLabel n BareMetalInstanceIDLabel of
     None \<Rightarrow> None | Some v \<Rightarrow> if v = '''' then None else Some v)"

definition node_consumer :: "'w node_store \<Rightarrow> 'w \<Rightarrow> string \<Rightarrow> string option" where
  "node_consumer store w h = (case store w h of None \<Rightarrow> None | Some n \<Rightarrow> node_mark n)"

lemma node_consumer_upd:
  "store w' = (store w)(h \<mapsto> n) \<Longrightarrow> node_consumer store w' = (node_consumer store w)(h := node_mark n)"
  by (simp add: node_consumer_def fun_eq_iff)

text \<open>
  Other parties act as \<open>env h\<close> allows. The call's own writes change the host \<open>h\<close> alone: either its
  mark stays, or it becomes the wanted one \<open>t\<close>, and then, where \<open>t\<close> is an instance, the host was free
  or marked for it already.
\<close>

definition own_write :: "'w node_store \<Rightarrow> ('w \<Rightarrow> 'f) \<Rightarrow> string \<Rightarrow> string option \<Rightarrow> 'w \<Rightarrow> 'w \<Rightarrow> bool" where
  "own_write store frame h t w w' \<longleftrightarrow> frame w' = frame w \<and>
     (\<exists>n'. store w' = (store w)(h \<mapsto> n') \<and>
        (node_mark n' = node_consumer store w h \<or>
         node_mark n' = t \<and> (t = None \<or> node_consumer store w h = None \<or> node_consumer store w h = t)))"

inductive node_during ::
    "'w node_store \<Rightarrow> ('w \<Rightarrow> 'f) \<Rightarrow> (string \<Rightarrow> 'w \<Rightarrow> 'w \<Rightarrow> bool) \<Rightarrow> string \<Rightarrow> string option \<Rightarrow> 'w \<Rightarrow> 'w \<Rightarrow> bool"
  for store frame env h t where
  begin_call: "node_during store frame env h t w w"
| others: "node_during store frame env h t w w1 \<Longrightarrow> env h w1 w2 \<Longrightarrow> node_during store frame env h t w w2"
| own: "node_during store frame env h t w w1 \<Longrightarrow> own_write store frame h t w1 w2 \<Longrightarrow> node_during store frame env h t w w2"

lemma during_env: "env h w w1 \<Longrightarrow> node_during store frame env h t w w1"
  by (rule node_during.others[OF node_during.begin_call])

lemma during_trans:
  assumes "node_during store frame env h t v w" and "node_during store frame env h t u v"
  shows "node_during store frame env h t u w"
  using assms by (induction rule: node_during.induct) (auto intro: node_during.intros)

text \<open>The host is locked during the call: nobody else touches its mark.\<close>

definition marks_stable :: "'w node_store \<Rightarrow> (string \<Rightarrow> 'w \<Rightarrow> 'w \<Rightarrow> bool) \<Rightarrow> bool" where
  "marks_stable store env \<longleftrightarrow>
     (\<forall>h w w'. env h w w' \<longrightarrow> node_consumer store w' h = node_consumer store w h)"

lemma marks_stableD: "marks_stable store env \<Longrightarrow> env h w w' \<Longrightarrow> node_consumer store w' h = node_consumer store w h"
  unfolding marks_stable_def by metis

lemma during_mark:
  assumes "node_during store frame env h t w w1" and "marks_stable store env"
  shows "node_consumer store w1 h = node_consumer store w h \<or> node_consumer store w1 h = t \<and>
    (t = None \<or> node_consumer store w h = None \<or> node_consumer store w h = t)"
  using assms
proof (induction rule: node_during.induct)
  case (others w w1 w2)
  then show ?case using marks_stableD[OF others.prems] by fastforce
next
  case (own w w1 w2)
  then obtain n' where "store w2 = (store w1)(h \<mapsto> n')" and
    "node_mark n' = node_consumer store w1 h \<or>
     node_mark n' = t \<and> (t = None \<or> node_consumer store w1 h = None \<or> node_consumer store w1 h = t)"
    by (auto simp: own_write_def)
  with own.IH[OF own.prems] node_consumer_upd[of store w2 w1 h n'] show ?case by auto
qed simp

section \<open>One attempt to assign\<close>

definition mark_untouched :: "gomap \<Rightarrow> bool" where
  "mark_untouched labels \<longleftrightarrow> map_of labels BareMetalInstanceIDLabel = None"

lemma mark_untouched_rev: "mark_untouched labels \<Longrightarrow> map_of (rev labels) BareMetalInstanceIDLabel = None"
  by (simp add: mark_untouched_def map_of_eq_None_iff)

lemma node_mark_of_labels:
  assumes "labels_obj (nodeExtra n) = Some ls"
  shows "node_mark n = (case map_of ls BareMetalInstanceIDLabel of
    Some (JString v) \<Rightarrow> if v = '''' then None else Some v | _ \<Rightarrow> None)"
  using assms by (auto simp: node_mark_def getNestedLabel_eq nested_label_def split: option.split json.split)

lemma node_mark_no_labels: "labels_obj (nodeExtra n) = None \<Longrightarrow> node_mark n = None"
  by (simp add: node_mark_def getNestedLabel_eq nested_label_def)

lemma assign_write:
  assumes "patches_node store frame h (assign_ops c labels) w1 n' w2" and "mark_untouched labels" and "c \<noteq> ''''"
    and "node_consumer store w1 h = None \<or> node_consumer store w1 h = Some c"
  shows "own_write store frame h (Some c) w1 w2" and "node_mark n' = Some c"
    and "node_consumer store w2 = (node_consumer store w1)(h \<mapsto> c)"
proof -
  from assms(1) obtain n where st: "store w1 h = Some n" "store w2 = (store w1)(h \<mapsto> n')"
    and patch: "extra_patches (assign_ops c labels) (nodeExtra n) = Some (nodeExtra n')"
    by (auto simp: patches_node_def)
  obtain ls where "labels_obj (nodeExtra n') = Some (assigned_labels c labels ls)"
    by (rule assign_patches[OF patch])
  then show mark: "node_mark n' = Some c"
    using assms(3) by (simp add: node_mark_of_labels assigned_labels_map mark_untouched_rev[OF assms(2)])
  show "node_consumer store w2 = (node_consumer store w1)(h \<mapsto> c)"
    using node_consumer_upd[of store w2 w1 h n', OF st(2)] mark by simp
  show "own_write store frame h (Some c) w1 w2"
    using st(2) mark assms(4) patches_node_frame[OF assms(1)] by (auto simp: own_write_def)
qed

lemma init_write:
  assumes "patches_node store frame h [AddOp ''/extra/osac_labels'' (JObject [])] w1 n' w2"
    and "node_consumer store w1 h = None"
  shows "own_write store frame h t w1 w2"
proof -
  from assms(1) have "store w2 = (store w1)(h \<mapsto> n')" "labels_obj (nodeExtra n') = Some []"
    by (auto simp: patches_node_def simp del: extra_patches.simps dest: labels_after_init)
  then show ?thesis using assms(2) patches_node_frame[OF assms(1)] by (auto simp: own_write_def node_mark_of_labels)
qed

text \<open>The world just before the second update, and that update's answer.\<close>

definition ensure_labels ::
    "('c, 'w) openstack_inventory \<Rightarrow> 'c \<Rightarrow> string \<Rightarrow> node \<Rightarrow> 'w \<Rightarrow> go_error option \<times> 'w" where
  "ensure_labels m cl h n w1 =
     (if map_of (nodeExtra n) ''osac_labels'' = None
      then (case nodes_Update (osApi m) cl h [AddOp ''/extra/osac_labels'' (JObject [])] w1 of
              (Inl err, w2) \<Rightarrow> (Some err, w2) | (Inr _, w2) \<Rightarrow> (None, w2))
      else (None, w1))"

lemma assignHost_unfold:
  assumes "h \<noteq> ''''" "c \<noteq> ''''" "nodes_Get (osApi m) cl h w = (Inr n, w1)"
  shows "assignHost m h c labels (cl, w) =
    (if \<exists>c'. node_mark n = Some c' \<and> c' \<noteq> c then (Inr None, (cl, w1))
     else case ensure_labels m cl h n w1 of
       (Some err, w2) \<Rightarrow> (Inl err, (cl, w2))
     | (None, w2) \<Rightarrow>
         (case nodes_Update (osApi m) cl h (assign_ops c labels) w2 of
            (Inl err, w3) \<Rightarrow> (Inl err, (cl, w3))
          | (Inr n', w3) \<Rightarrow> (Inr (Some (openstack_host m c n')), (cl, w3))))"
proof -
  have "(case getNestedLabel n BareMetalInstanceIDLabel of
      Some current \<Rightarrow> current \<noteq> '''' \<and> current \<noteq> c | None \<Rightarrow> False) = (\<exists>c'. node_mark n = Some c' \<and> c' \<noteq> c)"
    by (auto simp: node_mark_def split: option.split)
  then show ?thesis
    using assms
    by (simp only: assignHost_def ensure_labels_def Let_def fst_conv snd_conv if_False prod.case sum.case)
qed

lemma ensure_labels_during:
  assumes L: "ironic_laws (osApi m) store frame env" and S: "marks_stable store env"
    and n: "store w1 h = Some n" and run: "ensure_labels m cl h n w1 = (r, w2)"
  shows "node_during store frame env h t w1 w2"
    and "node_consumer store w2 h = node_consumer store w1 h"
proof -
  have "node_during store frame env h t w1 w2 \<and> node_consumer store w2 h = node_consumer store w1 h"
  proof (cases "map_of (nodeExtra n) ''osac_labels''")
    case (Some v)
    then show ?thesis using run by (auto simp: ensure_labels_def intro: node_during.begin_call)
  next
    case None
    then have free: "node_consumer store w1 h = None"
      using n by (simp add: node_consumer_def node_mark_no_labels labels_obj_def)
    have step: "node_during store frame env h t w1 w' \<and> node_consumer store w' h = node_consumer store w1 h"
      if "env h w1 u" "patches_node store frame h [AddOp ''/extra/osac_labels'' (JObject [])] u n' w'" for u n' w'
    proof -
      have u: "node_consumer store u h = None" using marks_stableD[OF S that(1)] free by simp
      from that(2) have "store w' = (store u)(h \<mapsto> n')" "labels_obj (nodeExtra n') = Some []"
        by (auto simp: patches_node_def simp del: extra_patches.simps dest: labels_after_init)
      then have "node_consumer store w' h = None" by (simp add: node_consumer_def node_mark_of_labels)
      then show ?thesis
        using node_during.own[OF during_env[where env = env, OF that(1)] init_write[OF that(2) u]] free
        by simp
    qed
    obtain q where upd: "nodes_Update (osApi m) cl h [AddOp ''/extra/osac_labels'' (JObject [])] w1 = (q, w2)"
      using run None by (auto simp: ensure_labels_def split: prod.splits sum.splits)
    show ?thesis
    proof (cases q)
      case (Inl e)
      from ironic_Update_error[OF L upd[unfolded Inl]] show ?thesis
        using step during_env[where env = env] marks_stableD[OF S] by blast
    next
      case (Inr n')
      then show ?thesis using ironic_Update_ok[OF L upd[unfolded Inr]] step by blast
    qed
  qed
  then show "node_during store frame env h t w1 w2" "node_consumer store w2 h = node_consumer store w1 h"
    by simp_all
qed

text \<open>How an attempt ends; a busy host was marked for another instance when the call began.\<close>

definition assign_outcome ::
    "('c, 'w) openstack_inventory \<Rightarrow> 'w node_store \<Rightarrow> ('w \<Rightarrow> 'f) \<Rightarrow> (string \<Rightarrow> 'w \<Rightarrow> 'w \<Rightarrow> bool) \<Rightarrow> string \<Rightarrow> string \<Rightarrow> gomap
      \<Rightarrow> 'w \<Rightarrow> go_error + host option \<Rightarrow> 'w \<Rightarrow> bool" where
  "assign_outcome m store frame env h c labels w r w' \<longleftrightarrow>
    (case r of
      Inl e \<Rightarrow> node_during store frame env h (Some c) w w'
    | Inr None \<Rightarrow> node_during store frame env h (Some c) w w' \<and> (\<exists>c'. c' \<noteq> c \<and> node_consumer store w h = Some c')
    | Inr (Some x) \<Rightarrow> c \<noteq> '''' \<and> (\<exists>w1 n'. node_during store frame env h (Some c) w w1 \<and>
        (node_consumer store w1 h = None \<or> node_consumer store w1 h = Some c) \<and>
        patches_node store frame h (assign_ops c labels) w1 n' w' \<and> x = openstack_host m c n'))"

text \<open>The last request of an attempt, sent while the host is free or marked for the caller.\<close>

lemma assign_last_update:
  assumes L: "ironic_laws (osApi m) store frame env" and S: "marks_stable store env" and ok: "mark_untouched labels"
    and d: "node_during store frame env h (Some c) w w2" and c: "c \<noteq> ''''"
    and mk: "node_consumer store w2 h = None \<or> node_consumer store w2 h = Some c"
    and upd: "nodes_Update (osApi m) cl h (assign_ops c labels) w2 = (a, w3)"
  shows "assign_outcome m store frame env h c labels w
    (case a of Inl e \<Rightarrow> Inl e | Inr n' \<Rightarrow> Inr (Some (openstack_host m c n'))) w3"
proof -
  have mk': "node_consumer store u h = None \<or> node_consumer store u h = Some c" if "env h w2 u" for u
    using mk marks_stableD[OF S that] by simp
  show ?thesis
  proof (cases a)
    case (Inl e)
    from ironic_Update_error[OF L upd[unfolded Inl]] have "node_during store frame env h (Some c) w w3"
    proof (elim disjE exE conjE)
      assume "env h w2 w3"
      then show ?thesis by (rule node_during.others[OF d])
    next
      fix u n'
      assume u: "env h w2 u" "patches_node store frame h (assign_ops c labels) u n' w3"
      show ?thesis by (rule node_during.own[OF node_during.others[OF d u(1)] assign_write(1)[OF u(2) ok c mk'[OF u(1)]]])
    qed
    then show ?thesis using Inl by (simp add: assign_outcome_def)
  next
    case (Inr n')
    obtain u where "env h w2 u" "patches_node store frame h (assign_ops c labels) u n' w3"
      by (rule ironic_Update_ok[OF L upd[unfolded Inr]])
    then show ?thesis using Inr mk' node_during.others[OF d] c by (auto simp: assign_outcome_def)
  qed
qed

lemma assignHost_after_read:
  assumes L: "ironic_laws (osApi m) store frame env" and S: "marks_stable store env" and ok: "mark_untouched labels"
    and ne: "h \<noteq> ''''" "c \<noteq> ''''" and get: "nodes_Get (osApi m) cl h w = (Inr n, w1)"
    and run: "assignHost m h c labels (cl, w) = (r, s')"
  shows "assign_outcome m store frame env h c labels w r (snd s') \<and> fst s' = cl"
proof -
  note read = ironic_Get_ok[OF L get]
  have d1: "node_during store frame env h (Some c) w w1" by (rule during_env[where env = env, OF read(1)])
  have mark: "node_consumer store w h = node_mark n" "node_consumer store w1 h = node_mark n"
    using marks_stableD[OF S read(1)] read(2) by (simp_all add: node_consumer_def)
  show ?thesis
  proof (cases "\<exists>c'. node_mark n = Some c' \<and> c' \<noteq> c")
    case True
    then have "r = Inr None" "s' = (cl, w1)"
      using assignHost_unfold[OF ne get, of labels] run by simp_all
    then show ?thesis using d1 mark True by (auto simp: assign_outcome_def)
  next
    case free: False
    obtain q w2 where init: "ensure_labels m cl h n w1 = (q, w2)" by fastforce
    note ens = ensure_labels_during[OF L S read(2) init]
    have d2: "node_during store frame env h (Some c) w w2" by (rule during_trans[OF ens(1) d1])
    have m2: "node_consumer store w2 h = None \<or> node_consumer store w2 h = Some c"
      using ens(2) mark free by (cases "node_mark n") auto
    show ?thesis
    proof (cases q)
      case (Some e)
      then have "r = Inl e" "s' = (cl, w2)"
        using assignHost_unfold[OF ne get, of labels] run free init by simp_all
      then show ?thesis using d2 by (simp add: assign_outcome_def)
    next
      case None
      obtain a w3 where upd: "nodes_Update (osApi m) cl h (assign_ops c labels) w2 = (a, w3)" by fastforce
      then have "r = (case a of Inl e \<Rightarrow> Inl e | Inr n' \<Rightarrow> Inr (Some (openstack_host m c n')))" "s' = (cl, w3)"
        using assignHost_unfold[OF ne get, of labels] run free init None by (simp_all split: sum.splits)
      then show ?thesis using assign_last_update[OF L S ok d2 ne(2) m2 upd] by simp
    qed
  qed
qed

lemma assignHost_cases:
  assumes L: "ironic_laws (osApi m) store frame env" and S: "marks_stable store env" and ok: "mark_untouched labels"
    and run: "assignHost m h c labels (cl, w) = (r, s')"
  shows "assign_outcome m store frame env h c labels w r (snd s') \<and> fst s' = cl"
proof (cases "h = '''' \<or> c = ''''")
  case True
  then show ?thesis
    using run by (auto simp: assignHost_def assign_outcome_def intro: node_during.begin_call split: if_splits)
next
  case False
  obtain g w1 where get: "nodes_Get (osApi m) cl h w = (g, w1)" by fastforce
  show ?thesis
  proof (cases g)
    case (Inl e)
    then have "r = Inl e" "s' = (cl, w1)" using run False get by (simp_all add: assignHost_def)
    then show ?thesis
      using during_env[where env = env, OF ironic_Get_error[OF L get[unfolded Inl]]]
      by (simp add: assign_outcome_def)
  next
    case (Inr n)
    then show ?thesis using assignHost_after_read[OF L S ok _ _ _ run] False get by simp
  qed
qed

section \<open>One attempt to unassign\<close>

definition unassign_outcome ::
    "'w node_store \<Rightarrow> ('w \<Rightarrow> 'f) \<Rightarrow> (string \<Rightarrow> 'w \<Rightarrow> 'w \<Rightarrow> bool) \<Rightarrow> string \<Rightarrow> 'w \<Rightarrow> go_error option \<Rightarrow> 'w \<Rightarrow> bool" where
  "unassign_outcome store frame env h w r w' \<longleftrightarrow> node_during store frame env h None w w' \<and>
     (r = None \<longrightarrow> node_consumer store w' h = None)"

definition remove_keys :: "node \<Rightarrow> string list \<Rightarrow> string list" where
  "remove_keys n labels = filter (\<lambda>label. map_of (entries (labels_obj (nodeExtra n))) label \<noteq> None)
     (BareMetalInstanceIDLabel # dedup_labels [BareMetalInstanceIDLabel] labels)"

abbreviation remove_ops :: "string list \<Rightarrow> patch_op list" where
  "remove_ops ks \<equiv> map (\<lambda>label. RemoveOp (label_path label)) ks"

lemma unassignHost_unfold:
  assumes "nodes_Get (osApi m) cl h w = (Inr n, w1)"
  shows "unassignHost m h labels (cl, w) =
    (if remove_ops (remove_keys n labels) = [] then (None, (cl, w1))
     else (case nodes_Update (osApi m) cl h (remove_ops (remove_keys n labels)) w1 of
        (Inl err, w2) \<Rightarrow> (Some err, (cl, w2)) | (Inr _, w2) \<Rightarrow> (None, (cl, w2))))"
proof -
  have "(case map_of (nodeExtra n) ''osac_labels'' of Some (JObject ls) \<Rightarrow> ls | _ \<Rightarrow> [])
      = entries (labels_obj (nodeExtra n))"
    by (auto simp: labels_obj_def split: option.split json.split)
  then show ?thesis using assms unfolding unassignHost_def Let_def remove_keys_def
    by (simp only: fst_conv snd_conv prod.case sum.case)
qed

lemma patch_remove_object:
  assumes "extra_patch (RemoveOp (label_path k)) ex = Some ex'"
  shows "(\<exists>ls. labels_obj ex = Some ls) \<or> labels_obj ex' = None"
  using assms by (auto simp: extra_patch_def labels_obj_def update_conv split: option.splits json.splits if_splits)

lemma patch_remove_no_object:
  "extra_patches (remove_ops ks) ex = Some ex' \<Longrightarrow> labels_obj ex = None \<Longrightarrow> labels_obj ex' = None"
proof (induction ks arbitrary: ex)
  case (Cons k ks)
  from Cons.prems obtain ex1 where "extra_patch (RemoveOp (label_path k)) ex = Some ex1"
    "extra_patches (remove_ops ks) ex1 = Some ex'" by (auto split: option.splits)
  with Cons.IH patch_remove_object[OF this(1)] Cons.prems(2) show ?case by auto
qed simp

lemma unassign_write:
  assumes "patches_node store frame h (remove_ops ks) w1 n' w2"
    and mark: "BareMetalInstanceIDLabel \<in> set ks \<or> node_consumer store w1 h = None"
  shows "own_write store frame h None w1 w2 \<and> node_consumer store w2 h = None"
proof -
  from assms(1) obtain n where st: "store w1 h = Some n" "store w2 = (store w1)(h \<mapsto> n')"
    and patch: "extra_patches (remove_ops ks) (nodeExtra n) = Some (nodeExtra n')"
    by (auto simp: patches_node_def)
  have "node_mark n' = None"
  proof (cases "labels_obj (nodeExtra n)")
    case None
    then show ?thesis using patch_remove_no_object[OF patch] by (simp add: node_mark_no_labels)
  next
    case (Some ls)
    from patch_remove_labels[OF patch Some] mark Some st(1) show ?thesis
      using map_of_fold_delete[of "\<lambda>k. k" ks ls]
      by (auto simp: node_mark_of_labels node_consumer_def)
  qed
  then show ?thesis using st(2) patches_node_frame[OF assms(1)] by (auto simp: own_write_def node_consumer_def)
qed

lemma remove_keys_mark:
  "BareMetalInstanceIDLabel \<in> set (remove_keys n labels) \<or> node_mark n = None"
  by (cases "labels_obj (nodeExtra n)")
    (auto simp: remove_keys_def node_mark_no_labels node_mark_of_labels split: option.split)

lemma unassign_update:
  assumes S: "marks_stable store env" and d: "node_during store frame env h None w w1"
    and mk: "BareMetalInstanceIDLabel \<in> set ks \<or> node_consumer store w1 h = None"
    and u: "env h w1 u" "patches_node store frame h (remove_ops ks) u n' w2"
  shows "node_during store frame env h None w w2 \<and> node_consumer store w2 h = None"
proof -
  have "BareMetalInstanceIDLabel \<in> set ks \<or> node_consumer store u h = None"
    using mk marks_stableD[OF S u(1)] by simp
  from unassign_write[OF u(2) this] show ?thesis
    using node_during.own[OF node_during.others[OF d u(1)]] by simp
qed

lemma unassignHost_cases:
  assumes L: "ironic_laws (osApi m) store frame env" and S: "marks_stable store env"
    and run: "unassignHost m h labels (cl, w) = (r, s')"
  shows "unassign_outcome store frame env h w r (snd s') \<and> fst s' = cl"
proof -
  obtain g w1 where get: "nodes_Get (osApi m) cl h w = (g, w1)" by fastforce
  show ?thesis
  proof (cases g)
    case (Inl e)
    then have "r = Some e" "s' = (cl, w1)" using run get by (simp_all add: unassignHost_def)
    then show ?thesis
      using during_env[where env = env, OF ironic_Get_error[OF L get[unfolded Inl]]]
      by (simp add: unassign_outcome_def)
  next
    case (Inr n)
    note read = ironic_Get_ok[OF L get[unfolded Inr]]
    have d: "node_during store frame env h None w w1" by (rule during_env[where env = env, OF read(1)])
    let ?ks = "remove_keys n labels"
    have mk: "BareMetalInstanceIDLabel \<in> set ?ks \<or> node_consumer store w1 h = None"
      using remove_keys_mark[of n labels] read(2) by (auto simp: node_consumer_def)
    note step = unassign_update[OF S d mk]
    obtain a w2 where upd: "nodes_Update (osApi m) cl h (remove_ops ?ks) w1 = (a, w2)" by fastforce
    have run': "(if remove_ops ?ks = [] then (None, (cl, w1))
        else (case a of Inl err \<Rightarrow> (Some err, (cl, w2)) | Inr _ \<Rightarrow> (None, (cl, w2)))) = (r, s')"
      using unassignHost_unfold[OF get[unfolded Inr], of labels] upd run by (simp split: sum.splits)
    show ?thesis
    proof (cases "?ks = []")
      case True
      then show ?thesis using run' d mk by (auto simp: unassign_outcome_def)
    next
      case ne: False
      show ?thesis
      proof (cases a)
        case (Inl e)
        from ironic_Update_error[OF L upd[unfolded Inl]] have "node_during store frame env h None w w2"
          using step node_during.others[OF d] by blast
        then show ?thesis using run' ne Inl by (auto simp: unassign_outcome_def)
      next
        case (Inr n')
        obtain u where "env h w1 u" "patches_node store frame h (remove_ops ?ks) u n' w2"
          by (rule ironic_Update_ok[OF L upd[unfolded Inr]])
        from step[OF this] show ?thesis using run' ne Inr by (auto simp: unassign_outcome_def)
      qed
    qed
  qed
qed

section \<open>Retrying after an authentication error\<close>

definition openstack_laws ::
    "('c, 'w) openstack_inventory \<Rightarrow> 'w node_store \<Rightarrow> ('w \<Rightarrow> 'f) \<Rightarrow> (string \<Rightarrow> 'w \<Rightarrow> 'w \<Rightarrow> bool) \<Rightarrow> bool" where
  "openstack_laws m store frame env \<longleftrightarrow> ironic_laws (osApi m) store frame env \<and> marks_stable store env \<and>
     (\<forall>h w r w'. newServiceClient m w = (r, w') \<longrightarrow> env h w w')"

lemma openstack_lawsD:
  assumes "openstack_laws m store frame env"
  shows "ironic_laws (osApi m) store frame env" and "marks_stable store env"
    and "newServiceClient m w = (r, w') \<Longrightarrow> env h w w'"
  using assms unfolding openstack_laws_def by metis+

lemma reconnect_env:
  assumes "openstack_laws m store frame env" and "reconnect m s = (r, s')"
  shows "env h (snd s) (snd s')"
proof -
  obtain q w1 where new: "newServiceClient m (snd s) = (q, w1)" by fastforce
  then have "snd s' = w1" using assms(2) by (auto simp: reconnect_def split: sum.splits)
  then show ?thesis using openstack_lawsD(3)[OF assms(1) new] by simp
qed

lemma assign_outcome_later:
  assumes S: "marks_stable store env" and d: "node_during store frame env h (Some c) w w1"
    and o: "assign_outcome m store frame env h c labels w1 r w'"
  shows "assign_outcome m store frame env h c labels w r w'"
proof -
  have "node_consumer store w h = Some c'" if "node_consumer store w1 h = Some c'" "c' \<noteq> c" for c'
    using during_mark[OF d S] that by auto
  then show ?thesis
    using o during_trans[OF _ d] unfolding assign_outcome_def
    by (auto split: sum.splits option.splits)
qed

lemma assign_outcome_error:
  "assign_outcome m store frame env h c labels w (Inl e) w' \<longleftrightarrow> node_during store frame env h (Some c) w w'"
  by (simp add: assign_outcome_def)

lemma openstack_AssignHost_cases:
  assumes L: "openstack_laws m store frame env" and ok: "mark_untouched labels"
    and run: "openstack_AssignHost m h c labels s = (r, s')"
  shows "assign_outcome m store frame env h c labels (snd s) r (snd s')"
proof -
  note L1 = openstack_lawsD(1)[OF L] and S = openstack_lawsD(2)[OF L]
  obtain r1 s1 where a1: "assignHost m h c labels s = (r1, s1)" by (rule prod.exhaust)
  note o1 = assignHost_cases[OF L1 S ok, of h c "fst s" "snd s" r1 s1]
  show ?thesis
  proof (cases "\<exists>err. r1 = Inl err \<and> isAuthError (osApi m) (Some err)")
    case False
    then have "r = r1" "s' = s1" using run a1 by (auto simp: openstack_AssignHost_def split: sum.splits)
    then show ?thesis using o1 a1 by simp
  next
    case True
    then obtain err where err: "r1 = Inl err" "isAuthError (osApi m) (Some err)" by blast
    have d1: "node_during store frame env h (Some c) (snd s) (snd s1)"
      using o1 a1 err(1) by (simp add: assign_outcome_error)
    obtain q s2 where rec: "reconnect m s1 = (q, s2)" by (rule prod.exhaust)
    have d2: "node_during store frame env h (Some c) (snd s) (snd s2)"
      by (rule node_during.others[OF d1 reconnect_env[OF L rec]])
    obtain r2 s3 where a2: "assignHost m h c labels s2 = (r2, s3)" by (rule prod.exhaust)
    have o2: "assign_outcome m store frame env h c labels (snd s) r2 (snd s3)"
      by (rule assign_outcome_later[OF S d2])
        (use assignHost_cases[OF L1 S ok, of h c "fst s2" "snd s2" r2 s3] a2 in simp)
    show ?thesis
      using run a1 err rec a2 d2 o2
      by (cases q; cases r2) (auto simp: openstack_AssignHost_def assign_outcome_error)
  qed
qed

lemma unassign_outcome_later:
  "node_during store frame env h None w w1 \<Longrightarrow> unassign_outcome store frame env h w1 r w' \<Longrightarrow> unassign_outcome store frame env h w r w'"
  by (auto simp: unassign_outcome_def intro: during_trans)

lemma openstack_UnassignHost_cases:
  assumes L: "openstack_laws m store frame env"
    and run: "openstack_UnassignHost m h labels s = (r, s')"
  shows "unassign_outcome store frame env h (snd s) r (snd s')"
proof -
  note L1 = openstack_lawsD(1)[OF L] and S = openstack_lawsD(2)[OF L]
  obtain r1 s1 where a1: "unassignHost m h labels s = (r1, s1)" by (rule prod.exhaust)
  note o1 = unassignHost_cases[OF L1 S, of h labels "fst s" "snd s" r1 s1]
  show ?thesis
  proof (cases "\<exists>err. r1 = Some err \<and> isAuthError (osApi m) (Some err)")
    case False
    then have "r = r1" "s' = s1" using run a1 by (auto simp: openstack_UnassignHost_def split: option.splits)
    then show ?thesis using o1 a1 by simp
  next
    case True
    then obtain err where err: "r1 = Some err" "isAuthError (osApi m) (Some err)" by blast
    have d1: "node_during store frame env h None (snd s) (snd s1)" using o1 a1 by (simp add: unassign_outcome_def)
    obtain q s2 where rec: "reconnect m s1 = (q, s2)" by (rule prod.exhaust)
    have d2: "node_during store frame env h None (snd s) (snd s2)"
      by (rule node_during.others[OF d1 reconnect_env[OF L rec]])
    obtain r2 s3 where a2: "unassignHost m h labels s2 = (r2, s3)" by (rule prod.exhaust)
    have o2: "unassign_outcome store frame env h (snd s) r2 (snd s3)"
      using unassign_outcome_later[OF d2] unassignHost_cases[OF L1 S, of h labels "fst s2" "snd s2" r2 s3] a2 by simp
    show ?thesis
      using run a1 err rec a2 d2 o2
      by (cases q; cases r2) (auto simp: openstack_UnassignHost_def unassign_outcome_def)
  qed
qed

section \<open>The contract holds\<close>

interpretation openstack_contract: inventory_contract "openstack_AssignHost m" "openstack_UnassignHost m"
  "\<lambda>s. node_consumer store (snd s)" "\<lambda>h t s s'. node_during store frame env h t (snd s) (snd s')"
  mark_untouched "openstack_laws m store frame env"
  for m :: "('c, 'w) openstack_inventory" and store frame env
proof unfold_locales
  assume L: "openstack_laws m store frame env"
  fix labels h c s x s'
  assume ok: "mark_untouched labels" and run: "openstack_AssignHost m h c labels s = (Inr (Some x), s')"
  from openstack_AssignHost_cases[OF L ok run] obtain w1 n' where
    "node_during store frame env h (Some c) (snd s) w1" "c \<noteq> ''''"
    "node_consumer store w1 h = None \<or> node_consumer store w1 h = Some c"
    "patches_node store frame h (assign_ops c labels) w1 n' (snd s')"
    by (auto simp: assign_outcome_def)
  note eff = this
  show "\<exists>s1 :: 'c \<times> 'w. node_during store frame env h (Some c) (snd s) (snd s1) \<and>
      (node_consumer store (snd s1) h = None \<or> node_consumer store (snd s1) h = Some c) \<and>
      node_consumer store (snd s') = (node_consumer store (snd s1))(h \<mapsto> c)"
    by (rule exI[of _ "(fst s, w1)"]) (simp add: eff(1,3) assign_write(3)[OF eff(4) ok eff(2,3)])
next
  assume L: "openstack_laws m store frame env"
  fix labels h c s s'
  assume ok: "mark_untouched labels" and run: "openstack_AssignHost m h c labels s = (Inr None, s')"
  from openstack_AssignHost_cases[OF L ok run]
  show "node_during store frame env h (Some c) (snd s) (snd s') \<and>
      (\<exists>c'. c' \<noteq> c \<and> node_consumer store (snd s) h = Some c')"
    by (simp add: assign_outcome_def)
next
  assume L: "openstack_laws m store frame env"
  fix labels h c s e s'
  assume ok: "mark_untouched labels" and run: "openstack_AssignHost m h c labels s = (Inl e, s')"
  from openstack_AssignHost_cases[OF L ok run]
  show "\<exists>s1 :: 'c \<times> 'w. node_during store frame env h (Some c) (snd s) (snd s1) \<and>
      (node_consumer store (snd s') = node_consumer store (snd s1) \<or>
       (node_consumer store (snd s1) h = None \<or> node_consumer store (snd s1) h = Some c) \<and>
       node_consumer store (snd s') = (node_consumer store (snd s1))(h \<mapsto> c))"
    by (metis assign_outcome_error)
next
  assume L: "openstack_laws m store frame env"
  fix h ks s s'
  assume run: "openstack_UnassignHost m h ks s = (None, s')"
  from openstack_UnassignHost_cases[OF L run]
  show "\<exists>s1 :: 'c \<times> 'w. node_during store frame env h None (snd s) (snd s1) \<and>
      node_consumer store (snd s') = (node_consumer store (snd s1))(h := None)"
    by (intro exI[of _ s']) (simp add: unassign_outcome_def fun_upd_idem)
next
  assume L: "openstack_laws m store frame env"
  fix h ks s e s'
  assume run: "openstack_UnassignHost m h ks s = (Some e, s')"
  from openstack_UnassignHost_cases[OF L run]
  show "\<exists>s1 :: 'c \<times> 'w. node_during store frame env h None (snd s) (snd s1) \<and>
      (node_consumer store (snd s') = node_consumer store (snd s1) \<or>
       node_consumer store (snd s') = (node_consumer store (snd s1))(h := None))"
    by (intro exI[of _ s']) (simp add: unassign_outcome_def)
qed

section \<open>What a search returns\<close>

text \<open>A node is free for the request: no instance mark, and managed by the wanted party.\<close>

definition node_managed_by :: "node \<Rightarrow> string" where
  "node_managed_by n = (case getNestedLabel n ManagedByLabel of
     None \<Rightarrow> OsacDefaultManagedByValue | Some v \<Rightarrow> if v = '''' then OsacDefaultManagedByValue else v)"

definition openstack_wanted :: "gomap \<Rightarrow> string" where
  "openstack_wanted match = (case map_of match ''managedBy'' of
     None \<Rightarrow> OsacDefaultManagedByValue | Some v \<Rightarrow> if v = '''' then OsacDefaultManagedByValue else v)"

definition openstack_free :: "gomap \<Rightarrow> node \<Rightarrow> bool" where
  "openstack_free match n \<longleftrightarrow> node_mark n = None \<and> node_managed_by n = openstack_wanted match"

lemma openstack_visit_iff:
  "openstack_visit m match n = Some x \<Longrightarrow> openstack_free match n \<and> inventoryHostID x = nodeUUID n \<and>
     hostManagedBy x = openstack_wanted match"
  "openstack_visit m match n = None \<longleftrightarrow> \<not> openstack_free match n"
  by (auto simp: openstack_visit_def openstack_free_def node_mark_def node_managed_by_def
      openstack_wanted_def label_or_empty_def map_index_def Let_def split: option.splits if_splits)

lemma openstack_scan_Some:
  "openstack_scan m match ns = Some x \<Longrightarrow> \<exists>n \<in> set ns. openstack_free match n \<and> inventoryHostID x = nodeUUID n \<and>
     hostManagedBy x = openstack_wanted match"
  by (induction ns) (auto simp: openstack_visit_iff(1) split: option.splits)

lemma openstack_scan_None:
  "openstack_scan m match ns = None \<longleftrightarrow> (\<forall>n \<in> set ns. \<not> openstack_free match n)"
proof (induction ns)
  case (Cons n ns)
  then show ?case using openstack_visit_iff(2)[of m match n] by (cases "openstack_visit m match n") auto
qed simp

lemma openstack_each_page_Some:
  "openstack_each_page m match draws pages err = Inr (Some x) \<Longrightarrow>
     \<exists>ns n. Inr ns \<in> set pages \<and> n \<in> set ns \<and> openstack_free match n \<and> inventoryHostID x = nodeUUID n \<and>
       hostManagedBy x = openstack_wanted match"
proof (induction pages)
  case (Cons p pages)
  show ?case
  proof (cases p)
    case (Inr ns)
    show ?thesis
    proof (cases "openstack_scan m match (rand_Shuffle (draws (length pages)) ns)")
      case None
      then show ?thesis using Cons Inr by auto
    next
      case (Some y)
      then show ?thesis using Cons.prems Inr openstack_scan_Some[OF Some] by fastforce
    qed
  qed (use Cons in simp)
qed (simp split: option.splits)

lemma openstack_each_page_None:
  "openstack_each_page m match draws pages err = Inr None \<longleftrightarrow>
     err = None \<and> (\<forall>p \<in> set pages. \<exists>ns. p = Inr ns \<and> (\<forall>n \<in> set ns. \<not> openstack_free match n))"
proof (induction pages)
  case (Cons p pages)
  show ?case
  proof (cases p)
    case (Inr ns)
    then show ?thesis
      using Cons openstack_scan_None[of m match "rand_Shuffle (draws (length pages)) ns"]
      by (cases "openstack_scan m match (rand_Shuffle (draws (length pages)) ns)") auto
  qed (use Cons in simp)
qed (simp split: option.splits)

section \<open>Properties\<close>

text \<open>Two nodes, one of them marked, and the backend on them.\<close>

definition demo_node :: "string \<Rightarrow> extra \<Rightarrow> node" where
  "demo_node uuid ex = \<lparr>nodeUUID = uuid, nodeName = uuid, nodeResourceClass = ''gpu'',
     nodeProvisionState = ''available'', nodePowerState = ''power off'', nodeTargetPowerState = '''',
     nodeExtra = ex\<rparr>"

definition demo_nodes :: "node list" where
  "demo_nodes = [demo_node ''n1'' [(''osac_labels'', JObject [(BareMetalInstanceIDLabel, JString ''uid-1'')])],
     demo_node ''n2'' []]"

definition demo_openstack :: "(unit, node list) openstack_inventory" where
  "demo_openstack = \<lparr>osApi = ref_ironic_api, newServiceClient = (\<lambda>w. (Inr (), w)),
     osHostClass = ''openstack'', osNetworkClass = ''net'', osDraws = (\<lambda>_ _ _. 0)\<rparr>"

lemma demo_openstack_laws: "openstack_laws demo_openstack ref_nodes (\<lambda>_. ()) (\<lambda>h. (=))"
  by (simp add: openstack_laws_def demo_openstack_def ref_ironic_laws marks_stable_def)

lemmas demo_openstack_eval = demo_openstack_def demo_nodes_def demo_node_def ref_ironic_api_def
  ref_nodes_def ref_node_update_def openstack_AssignHost_def assignHost_def openstack_UnassignHost_def
  unassignHost_def extra_patch_def pointer_tokens_label pointer_tokens_labels isAuthError_def
  getNestedLabel_def Let_def StatusUnauthorized_def

text \<open>C31: A label path names exactly the entry of that key in \<open>extra.osac_labels\<close>, whatever
  characters the key has, slashes and tildes included: the escaped path decodes to the three
  reference tokens, so different keys have different paths.\<close>

theorem label_path_addresses_key:
  "pointer_tokens (label_path k) = Some [''extra'', ''osac_labels'', k] \<and>
   (label_path k = label_path k' \<longleftrightarrow> k = k')"
proof -
  have "k = k'" if "label_path k = label_path k'"
  proof -
    have "Some [''extra'', ''osac_labels'', k] = Some [''extra'', ''osac_labels'', k']"
      by (simp only: pointer_tokens_label[symmetric] that)
    then show ?thesis by simp
  qed
  then show ?thesis by auto
qed

text \<open>C18: While the host is locked (others leave its mark alone), an OpenStack host marked for one
  instance is never handed to another, not even by the retry after an authentication failure: the
  call answers that the host is unavailable or fails, and the mark stays.\<close>

theorem openstack_never_double_books:
  assumes "openstack_laws m store frame env" and "mark_untouched labels"
    and "node_consumer store (snd s) h = Some c'" and "c' \<noteq> c"
    and "openstack_AssignHost m h c labels s = (r, s')"
  shows "(r = Inr None \<or> (\<exists>e. r = Inl e)) \<and> node_consumer store (snd s') h = Some c'"
proof -
  have keep: "node_consumer store (snd s1) h = Some c'"
    if "node_during store frame env h (Some c) (snd s) (snd s1)" for s1 :: "'a \<times> 'b"
    using during_mark[OF that openstack_lawsD(2)[OF assms(1)]] assms(3,4) by auto
  have "r \<noteq> Inr (Some x)" for x
    using openstack_contract.never_stolen[OF assms(1,2) keep assms(4), where x = x and w = s] assms(5) by simp
  moreover have "node_consumer store (snd s') h = Some c'"
    using openstack_contract.mark_survives[OF assms(1,2) keep assms(4), where w = s] assms(5) by simp
  ultimately show ?thesis by (cases r; cases "projr r") auto
qed

theorem openstack_never_double_books_witness:
  "fst (openstack_AssignHost demo_openstack ''n1'' ''uid-2'' [] ((), demo_nodes)) = Inr None \<and>
   node_consumer ref_nodes (snd (snd (openstack_AssignHost demo_openstack ''n1'' ''uid-2'' [] ((), demo_nodes)))) ''n1''
     = Some ''uid-1''"
proof -
  obtain r s' where run: "openstack_AssignHost demo_openstack ''n1'' ''uid-2'' [] ((), demo_nodes) = (r, s')"
    by (rule prod.exhaust)
  have "node_consumer ref_nodes (snd ((), demo_nodes)) ''n1'' = Some ''uid-1''"
    by (simp add: node_consumer_def node_mark_def demo_openstack_eval)
  from openstack_never_double_books[OF demo_openstack_laws _ this _ run]
  have "r = Inr None \<or> (\<exists>e. r = Inl e)" "node_consumer ref_nodes (snd s') ''n1'' = Some ''uid-1''"
    by (simp_all add: mark_untouched_def)
  moreover have "fst (openstack_AssignHost demo_openstack ''n1'' ''uid-2'' [] ((), demo_nodes)) = Inr None"
    by (simp add: demo_openstack_eval)
  ultimately show ?thesis using run by simp
qed

text \<open>When an OpenStack assignment succeeds, then at the moment of the last update the host was
  free or marked for the same instance; that update marks it for the instance, stores every given
  label, leaves every other label as it was then, and touches no other node.\<close>

theorem openstack_assign_effect:
  assumes "openstack_laws m store frame env" and "mark_untouched labels" and "wf_map labels"
    and "openstack_AssignHost m h c labels s = (Inr (Some x), s')"
  shows "\<exists>w n n' ls ls'. store w h = Some n \<and> store (snd s') = (store w)(h \<mapsto> n') \<and>
    (node_mark n = None \<or> node_mark n = Some c) \<and> node_mark n' = Some c \<and>
    labels_obj (nodeExtra n) = Some ls \<and> labels_obj (nodeExtra n') = Some ls' \<and>
    (\<forall>k v. map_of labels k = Some v \<longrightarrow> map_of ls' k = Some (JString v)) \<and>
    (\<forall>k. k \<noteq> BareMetalInstanceIDLabel \<longrightarrow> map_of labels k = None \<longrightarrow> map_of ls' k = map_of ls k)"
proof -
  from openstack_AssignHost_cases[OF assms(1,2,4)] obtain w n' where
    c: "c \<noteq> ''''" and mk: "node_consumer store w h = None \<or> node_consumer store w h = Some c"
    and p: "patches_node store frame h (assign_ops c labels) w n' (snd s')"
    by (auto simp: assign_outcome_def)
  from p obtain n where st: "store w h = Some n" "store (snd s') = (store w)(h \<mapsto> n')"
    and patch: "extra_patches (assign_ops c labels) (nodeExtra n) = Some (nodeExtra n')"
    by (auto simp: patches_node_def)
  obtain ls where ls: "labels_obj (nodeExtra n) = Some ls"
    "labels_obj (nodeExtra n') = Some (assigned_labels c labels ls)" by (rule assign_patches[OF patch])
  have "node_mark n' = Some c" by (rule assign_write(2)[OF p assms(2) c mk])
  moreover have "node_mark n = None \<or> node_mark n = Some c" using mk st(1) by (simp add: node_consumer_def)
  ultimately show ?thesis using st ls
    by (intro exI[of _ w] exI[of _ n] exI[of _ n'] exI[of _ ls] exI[of _ "assigned_labels c labels ls"])
      (simp add: assigned_labels_map map_of_rev_distinct[OF assms(3)])
qed

theorem openstack_assign_effect_witness:
  "\<exists>x s' n' ls'. openstack_AssignHost demo_openstack ''n2'' ''uid-2'' [(''a/b'', ''1'')] ((), demo_nodes) = (Inr (Some x), s') \<and>
     ref_nodes (snd s') ''n2'' = Some n' \<and> node_mark n' = Some ''uid-2'' \<and>
     labels_obj (nodeExtra n') = Some ls' \<and> map_of ls' ''a/b'' = Some (JString ''1'')"
proof -
  let ?ls = "[(''a/b'', ''1'')]"
  obtain x s' where run: "openstack_AssignHost demo_openstack ''n2'' ''uid-2'' ?ls ((), demo_nodes) = (Inr (Some x), s')"
    by (simp add: demo_openstack_eval)
  have "mark_untouched ?ls" "wf_map ?ls" by (simp_all add: mark_untouched_def)
  from openstack_assign_effect[OF demo_openstack_laws this run] obtain w n' ls' where
    "ref_nodes (snd s') = (ref_nodes w)(''n2'' \<mapsto> n')" "node_mark n' = Some ''uid-2''"
    "labels_obj (nodeExtra n') = Some ls'"
    "\<forall>k v. map_of ?ls k = Some v \<longrightarrow> map_of ls' k = Some (JString v)" by blast
  then show ?thesis using run by (intro exI[of _ x] exI[of _ s'] exI[of _ n'] exI[of _ ls']) simp
qed

text \<open>C28: An attempt to unassign an OpenStack host that succeeds, with no other writer active, leaves
  it free: the instance mark and every listed label are gone, however often a key is listed and
  whether or not it was there, and every other label and node is as before.\<close>

theorem openstack_unassign_effect:
  assumes "ironic_laws (osApi m) store frame (\<lambda>h. (=))" and "store w h = Some n"
    and "unassignHost m h labels (cl, w) = (None, s')"
  shows "\<exists>n'. store (snd s') = (store w)(h \<mapsto> n') \<and> node_mark n' = None \<and>
    (\<forall>k. map_of (entries (labels_obj (nodeExtra n'))) k =
       (if k = BareMetalInstanceIDLabel \<or> k \<in> set labels then None
        else map_of (entries (labels_obj (nodeExtra n))) k))"
proof -
  from assms(3) obtain n1 w1 where get: "nodes_Get (osApi m) cl h w = (Inr n1, w1)"
    by (auto simp: unassignHost_def split: prod.splits sum.splits)
  from ironic_Get_ok[OF assms(1) get] assms(2) have n1: "n1 = n" "w1 = w" by auto
  note get = get[unfolded n1]
  let ?ks = "remove_keys n labels" and ?old = "entries (labels_obj (nodeExtra n))"
  have ks: "k \<in> set ?ks \<longleftrightarrow> map_of ?old k \<noteq> None \<and> (k = BareMetalInstanceIDLabel \<or> k \<in> set labels)" for k
    by (auto simp: remove_keys_def dedup_labels_set)
  show ?thesis
  proof (cases "?ks = []")
    case True
    then have "s' = (cl, w)" using unassignHost_unfold[OF get, of labels] assms(3) by simp
    moreover have "node_mark n = None" using remove_keys_mark[of n labels] True by simp
    moreover have "k = BareMetalInstanceIDLabel \<or> k \<in> set labels \<Longrightarrow> map_of ?old k = None" for k
      using ks[of k] True by simp
    ultimately show ?thesis
      using assms(2) by (intro exI[of _ n]) (simp add: fun_upd_idem)
  next
    case False
    then obtain n' w2 where "nodes_Update (osApi m) cl h (remove_ops ?ks) w = (Inr n', w2)" "s' = (cl, w2)"
      using unassignHost_unfold[OF get, of labels] assms(3) by (auto split: prod.splits sum.splits)
    with ironic_Update_ok[OF assms(1) this(1)] have p: "patches_node store frame h (remove_ops ?ks) w n' w2" by blast
    obtain ls where ls: "labels_obj (nodeExtra n) = Some ls"
      using False by (cases "labels_obj (nodeExtra n)") (auto simp: remove_keys_def)
    from p assms(2) have st: "store w2 = (store w)(h \<mapsto> n')"
      and patch: "extra_patches (remove_ops ?ks) (nodeExtra n) = Some (nodeExtra n')"
      by (auto simp: patches_node_def)
    have mark: "node_mark n' = None"
      using unassign_write[OF p] remove_keys_mark[of n labels] assms(2) st by (auto simp: node_consumer_def)
    have "map_of (entries (labels_obj (nodeExtra n'))) k =
        (if k = BareMetalInstanceIDLabel \<or> k \<in> set labels then None else map_of ?old k)" for k
      using patch_remove_labels[OF patch ls] map_of_fold_delete[of "\<lambda>k. k" ?ks ls k] ks[of k] ls by auto
    then show ?thesis using st mark \<open>s' = (cl, w2)\<close> by auto
  qed
qed

theorem openstack_unassign_effect_witness:
  "\<exists>s' n'. unassignHost demo_openstack ''n1'' [''x'', ''x''] ((), demo_nodes) = (None, s') \<and>
     ref_nodes (snd s') ''n1'' = Some n' \<and> node_mark n' = None"
proof -
  obtain s' where run: "unassignHost demo_openstack ''n1'' [''x'', ''x''] ((), demo_nodes) = (None, s')"
    by (simp add: demo_openstack_eval)
  have laws: "ironic_laws (osApi demo_openstack) ref_nodes (\<lambda>_. ()) (\<lambda>h. (=))"
    using openstack_lawsD(1)[OF demo_openstack_laws] .
  obtain n where n: "ref_nodes demo_nodes ''n1'' = Some n" by (simp add: demo_openstack_eval)
  from openstack_unassign_effect[OF laws n run] run show ?thesis by auto
qed

text \<open>The label map may hold the mark's own key: the instance's labels are applied after the mark.\<close>

lemma assignHost_success:
  assumes L: "ironic_laws (osApi m) store frame env" and run: "assignHost m h c labels (cl, w) = (Inr (Some x), s')"
  obtains w1 n' where "patches_node store frame h (assign_ops c labels) w1 n' (snd s')"
proof -
  from run have ne: "h \<noteq> ''''" "c \<noteq> ''''" by (auto simp: assignHost_def split: if_splits)
  with run obtain n w1 where get: "nodes_Get (osApi m) cl h w = (Inr n, w1)"
    by (auto simp: assignHost_def split: prod.splits sum.splits)
  from run obtain w2 n' where "nodes_Update (osApi m) cl h (assign_ops c labels) w2 = (Inr n', snd s')"
    unfolding assignHost_unfold[OF ne get, of labels]
    by (auto simp del: list.simps split: prod.splits sum.splits option.splits if_splits)
  from ironic_Update_ok[OF L this] that show thesis by blast
qed

lemma openstack_AssignHost_success:
  assumes "openstack_AssignHost m h c labels s = (Inr (Some x), s')"
  obtains s0 where "assignHost m h c labels s0 = (Inr (Some x), s')"
  using assms by (auto simp: openstack_AssignHost_def split: prod.splits sum.splits if_splits option.splits)

text \<open>C40: The OpenStack backend does not protect its own mark: when the labels of an assignment have
  an entry \<open>bareMetalInstanceId\<close>, a successful assignment marks the host with that entry's value in
  place of the instance it was asked for, and not at all when the value is empty.\<close>

theorem openstack_label_replaces_mark:
  assumes "openstack_laws m store frame env" and "wf_map labels"
    and "map_of labels BareMetalInstanceIDLabel = Some v"
    and "openstack_AssignHost m h c labels s = (Inr (Some x), s')"
  shows "node_consumer store (snd s') h = (if v = '''' then None else Some v)"
proof -
  obtain s0 where "assignHost m h c labels s0 = (Inr (Some x), s')"
    by (rule openstack_AssignHost_success[OF assms(4)])
  then obtain w1 n' where "patches_node store frame h (assign_ops c labels) w1 n' (snd s')"
    using assignHost_success[OF openstack_lawsD(1)[OF assms(1)], of h c labels "fst s0" "snd s0" x s'] by auto
  then obtain n :: node where st: "store (snd s') = (store w1)(h \<mapsto> n')"
    and patch: "extra_patches (assign_ops c labels) (nodeExtra n) = Some (nodeExtra n')"
    unfolding patches_node_def by blast
  obtain ls where "labels_obj (nodeExtra n') = Some (assigned_labels c labels ls)"
    by (rule assign_patches[OF patch])
  then have "node_mark n' = (if v = '''' then None else Some v)"
    by (simp add: node_mark_of_labels assigned_labels_map map_of_rev_distinct[OF assms(2)] assms(3))
  then show ?thesis using st by (simp add: node_consumer_def)
qed

theorem openstack_label_replaces_mark_witness:
  "\<exists>x s'. openstack_AssignHost demo_openstack ''n2'' ''uid-2'' [(BareMetalInstanceIDLabel, '''')] ((), demo_nodes)
       = (Inr (Some x), s') \<and> node_consumer ref_nodes (snd s') ''n2'' = None"
proof -
  let ?ls = "[(BareMetalInstanceIDLabel, '''')]"
  obtain x s' where run: "openstack_AssignHost demo_openstack ''n2'' ''uid-2'' ?ls ((), demo_nodes) = (Inr (Some x), s')"
    by (simp add: demo_openstack_eval)
  have "wf_map ?ls" "map_of ?ls BareMetalInstanceIDLabel = Some ''''" by simp_all
  from openstack_label_replaces_mark[OF demo_openstack_laws this run] run show ?thesis by auto
qed



end
