(* ===== verification/Management.thy ===== *)
theory Management
  imports Shared
begin

text \<open>
  \<open>internal/management/client.go\<close>: power states, the interface \<open>Client\<close> of the management backends
  as a record of operations over the state \<open>'w\<close> of the outside world, and the registry of backends.
  What a client may rely on, whichever backend it talks to, is the locale \<open>power_control\<close>; both
  backends interpret it.
\<close>

section \<open>The interface\<close>

type_synonym power_state = string

abbreviation PowerOn :: power_state where
  "PowerOn \<equiv> ''power on''"
abbreviation PowerOff :: power_state where
  "PowerOff \<equiv> ''power off''"

record power_status =
  powerState :: power_state
  isTransitioning :: bool

record management_config =
  mgmtName :: string
  mgmtType :: string
  mgmtOptions :: "(string \<times> json) list option"

record 'w management_client =
  GetPowerState :: "string \<Rightarrow> 'w \<Rightarrow> (go_error + power_status option) \<times> 'w"
  SetPowerState :: "string \<Rightarrow> power_state \<Rightarrow> 'w \<Rightarrow> go_error option \<times> 'w"
  TriggerRestart :: "string \<Rightarrow> 'w \<Rightarrow> go_error option \<times> 'w"
  IsRestartComplete :: "string \<Rightarrow> 'w \<Rightarrow> (go_error + bool) \<times> 'w"

definition management_NewClient ::
    "(string \<times> (management_config \<Rightarrow> 'w \<Rightarrow> (go_error + 'c) \<times> 'w)) list \<Rightarrow> management_config option \<Rightarrow> 'w
      \<Rightarrow> (go_error + 'c) \<times> 'w" where
  "management_NewClient newClientFuncs cfg w =
     (case cfg of
        None \<Rightarrow> (Inl (ErrorText ''management backend configuration is required''), w)
      | Some cfg \<Rightarrow>
          (case map_of newClientFuncs (mgmtType cfg) of
             None \<Rightarrow> (Inl (ErrorText (''unsupported management backend type: '' @ go_quote (mgmtType cfg))), w)
           | Some fn \<Rightarrow> fn cfg w))"

section \<open>The contract\<close>

text \<open>
  A read without an error gives a status (the pointer is not nil) in one of the two known states, and
  only these are accepted as targets.
\<close>

definition known_state :: "power_state \<Rightarrow> bool" where
  "known_state s \<longleftrightarrow> s = PowerOn \<or> s = PowerOff"

locale power_control =
  fixes get :: "string \<Rightarrow> 'w \<Rightarrow> (go_error + power_status option) \<times> 'w"
    and set_power :: "string \<Rightarrow> power_state \<Rightarrow> 'w \<Rightarrow> go_error option \<times> 'w"
  assumes reported: "get h w = (Inr r, w') \<Longrightarrow> \<exists>st. r = Some st \<and> known_state (powerState st)"
    and target_known: "set_power h t w = (None, w') \<Longrightarrow> known_state t"
begin

lemma unknown_target_fails:
  "\<not> known_state t \<Longrightarrow> fst (set_power h t w) \<noteq> None"
  using target_known[of h t w "snd (set_power h t w)"] by (cases "set_power h t w") auto

lemma other_state:
  "get h w = (Inr (Some st), w') \<Longrightarrow> known_state t \<Longrightarrow> powerState st \<noteq> t \<Longrightarrow>
     powerState st = (if t = PowerOn then PowerOff else PowerOn)"
  using reported[of h w "Some st" w'] unfolding known_state_def by auto

end

end
