(* ===== verification/Management_Metal3.thy ===== *)
theory Management_Metal3
  imports Management Inventory_Metal3
begin

text \<open>
  The Metal3 management backend, \<open>internal/management/metal3.go\<close>: power is the field \<open>spec.online\<close> of
  a \<open>BareMetalHost\<close> against the observed \<open>status.poweredOn\<close>, and a restart is the reboot annotation,
  which Metal3 removes when the restart is done.
\<close>

section \<open>The backend\<close>

record 'w metal3_management =
  mmclient :: "'w bmh_api"
  mmnamespace :: string

definition parseMetal3ManagementNamespace :: "management_config \<Rightarrow> go_error + string" where
  "parseMetal3ManagementNamespace cfg =
     (case map_of (entries (mgmtOptions cfg)) ''metal3'' of
        None \<Rightarrow> Inl (ErrorText ''metal3 options not found in management config'')
      | Some metal3Opts \<Rightarrow>
          (case json_decode_namespace metal3Opts of
             None \<Rightarrow> Inl (ErrorWrap ''failed to unmarshal metal3 options'' json_type_error)
           | Some ns \<Rightarrow>
               if ns = '''' then Inl (ErrorText ''metal3 namespace is required in management config'')
               else Inr ns))"

definition getBMH :: "'w metal3_management \<Rightarrow> string \<Rightarrow> 'w \<Rightarrow> (go_error + bmh) \<times> 'w" where
  "getBMH m hostID w =
     (case ParseHostID hostID of
        Inl err \<Rightarrow> (Inl err, w)
      | Inr (namespace, name) \<Rightarrow>
          if namespace \<noteq> mmnamespace m
          then (Inl (ErrorText (''host '' @ hostID @ '' is outside configured metal3 namespace ''
            @ go_quote (mmnamespace m))), w)
          else (case bmh_Get (mmclient m) (namespace, name) w of
             (Inl err, w1) \<Rightarrow> (Inl (ErrorWrap (''failed to get BareMetalHost '' @ hostID) err), w1)
           | (Inr b, w1) \<Rightarrow> (Inr b, w1)))"

definition metal3_GetPowerState ::
    "'w metal3_management \<Rightarrow> string \<Rightarrow> 'w \<Rightarrow> (go_error + power_status option) \<times> 'w" where
  "metal3_GetPowerState m hostID w =
     (case getBMH m hostID w of
        (Inl err, w1) \<Rightarrow> (Inl err, w1)
      | (Inr b, w1) \<Rightarrow>
          (let state = (if bmhPoweredOn b then PowerOn else PowerOff);
               transitioning = (bmhOnline b \<noteq> bmhPoweredOn b)
           in (Inr (Some \<lparr>powerState = state, isTransitioning = transitioning\<rparr>), w1)))"

definition metal3_SetPowerState ::
    "'w metal3_management \<Rightarrow> string \<Rightarrow> power_state \<Rightarrow> 'w \<Rightarrow> go_error option \<times> 'w" where
  "metal3_SetPowerState m hostID target w =
     (case getBMH m hostID w of
        (Inl err, w1) \<Rightarrow> (Some err, w1)
      | (Inr b, w1) \<Rightarrow>
          if bmhOnline b \<noteq> bmhPoweredOn b then (Some (ErrorWrap (''node '' @ hostID) ErrTransitioning), w1)
          else
            (case (if target = PowerOn then Some True else if target = PowerOff then Some False else None) of
               None \<Rightarrow> (Some (ErrorText (''node '' @ hostID @ '': invalid target power state '' @ go_quote target)), w1)
             | Some desiredOnline \<Rightarrow>
                 if bmhOnline b = desiredOnline then (None, w1)
                 else (case bmh_Patch (mmclient m) b (PatchOnline desiredOnline) w1 of
                    (Inl err, w2) \<Rightarrow> (Some (ErrorWrap (''failed to set power state on node '' @ hostID) err), w2)
                  | (Inr _, w2) \<Rightarrow> (None, w2))))"

definition metal3_TriggerRestart :: "'w metal3_management \<Rightarrow> string \<Rightarrow> 'w \<Rightarrow> go_error option \<times> 'w" where
  "metal3_TriggerRestart m hostID w =
     (case getBMH m hostID w of
        (Inl err, w1) \<Rightarrow> (Some err, w1)
      | (Inr b, w1) \<Rightarrow>
          if map_of (entries (bmhAnnotations b)) (RebootAnnotationPrefix (mmclient m)) \<noteq> None
          then (Some (ErrorWrap (''host '' @ hostID) ErrTransitioning), w1)
          else
            (let original = b;
                 b' = b\<lparr>bmhAnnotations :=
                   Some (AList.update (RebootAnnotationPrefix (mmclient m)) '''' (entries (bmhAnnotations b)))\<rparr>
             in case bmh_Patch (mmclient m) b' (MergeFrom original) w1 of
                  (Inl err, w2) \<Rightarrow> (Some (ErrorWrap (''failed to trigger restart for host '' @ hostID) err), w2)
                | (Inr _, w2) \<Rightarrow> (None, w2)))"

definition metal3_IsRestartComplete :: "'w metal3_management \<Rightarrow> string \<Rightarrow> 'w \<Rightarrow> (go_error + bool) \<times> 'w" where
  "metal3_IsRestartComplete m hostID w =
     (case getBMH m hostID w of
        (Inl err, w1) \<Rightarrow> (Inl err, w1)
      | (Inr b, w1) \<Rightarrow>
          (Inr (map_of (entries (bmhAnnotations b)) (RebootAnnotationPrefix (mmclient m)) = None), w1))"

definition metal3_management_client :: "'w metal3_management \<Rightarrow> 'w management_client" where
  "metal3_management_client m = \<lparr>GetPowerState = metal3_GetPowerState m,
     SetPowerState = metal3_SetPowerState m, TriggerRestart = metal3_TriggerRestart m,
     IsRestartComplete = metal3_IsRestartComplete m\<rparr>"

section \<open>Reading the host\<close>

lemma getBMH_ok:
  assumes "bmh_laws (mmclient m) store env" and "getBMH m h w = (Inr b, w1)"
  shows "ParseHostID h = Inr (bmh_key b)" and "bmhNamespace b = mmnamespace m"
    and "store w (bmh_key b) = Some b" and "env w w1"
proof -
  from assms(2) obtain ns nm where "ParseHostID h = Inr (ns, nm)" "ns = mmnamespace m"
    "bmh_Get (mmclient m) (ns, nm) w = (Inr b, w1)"
    by (auto simp: getBMH_def split: sum.splits prod.splits if_splits)
  with bmh_Get_ok[OF assms(1) this(3)] show "ParseHostID h = Inr (bmh_key b)" "bmhNamespace b = mmnamespace m"
    "store w (bmh_key b) = Some b" "env w w1" by (auto simp: bmh_key_def)
qed

lemma getBMH_outside:
  "ParseHostID h = Inr (ns, nm) \<Longrightarrow> ns \<noteq> mmnamespace m \<Longrightarrow> \<exists>e. getBMH m h w = (Inl e, w)"
  by (simp add: getBMH_def)

lemma getBMH_fst_eq:
  assumes "bmh_laws (mmclient m) store env" and "getBMH m h w = (Inr b, w1)" and "getBMH m h v = (Inr b', v1)"
    and "store v (bmh_key b) = Some b''"
  shows "b' = b''"
  using getBMH_ok[OF assms(1,2)] getBMH_ok[OF assms(1,3)] assms(4) by simp

interpretation metal3_power: power_control "metal3_GetPowerState m" "metal3_SetPowerState m" for m
  by unfold_locales
    (auto simp: metal3_GetPowerState_def metal3_SetPowerState_def known_state_def Let_def
      split: prod.splits sum.splits if_splits option.splits)

section \<open>Properties\<close>

definition demo_mgmt :: "ref_world metal3_management" where
  "demo_mgmt = \<lparr>mmclient = ref_bmh_api, mmnamespace = ''metal''\<rparr>"

lemma demo_mgmt_laws: "bmh_laws (mmclient demo_mgmt) ref_store (=)"
  by (simp add: demo_mgmt_def ref_bmh_laws)

lemmas demo_mgmt_eval = demo_mgmt_def demo_bmhs_def demo_bmh_def ref_bmh_api_def ref_store_def
  bmh_key_def getBMH_def ParseHostID_demo metal3_GetPowerState_def metal3_SetPowerState_def
  metal3_TriggerRestart_def metal3_IsRestartComplete_def Let_def

text \<open>A power request on a Metal3 host that succeeds was made for a known target while no change
  was under way; it sets the wanted power of this object to the target and changes no other object
  and not the observed power; and a status read right after it reports the target, or a transition
  under way towards it.\<close>

theorem metal3_power_request:
  assumes "bmh_laws (mmclient m) store (=)" and "metal3_SetPowerState m h t w = (None, w')"
  shows "known_state t \<and> (\<exists>b b'. ParseHostID h = Inr (bmh_key b) \<and> store w (bmh_key b) = Some b \<and>
      bmhOnline b = bmhPoweredOn b \<and> store w' = (store w)(bmh_key b \<mapsto> b') \<and>
      bmhOnline b' = (t = PowerOn) \<and> bmhPoweredOn b' = bmhPoweredOn b) \<and>
    (\<forall>st w2. metal3_GetPowerState m h w' = (Inr (Some st), w2) \<longrightarrow> powerState st = t \<or> isTransitioning st)"
proof -
  obtain b w1 where read: "getBMH m h w = (Inr b, w1)"
    using assms(2) by (auto simp: metal3_SetPowerState_def split: prod.splits sum.splits)
  note b = getBMH_ok[OF assms(1) read]
  have known: "known_state t" by (rule metal3_power.target_known[OF assms(2)])
  have still: "bmhOnline b = bmhPoweredOn b" using assms(2) read by (auto simp: metal3_SetPowerState_def split: if_splits)
  have "\<exists>b'. store w' = (store w)(bmh_key b \<mapsto> b') \<and> bmhOnline b' = (t = PowerOn) \<and> bmhPoweredOn b' = bmhPoweredOn b"
  proof (cases "bmhOnline b = (t = PowerOn)")
    case True
    then have "w' = w" using assms(2) read known b(4) still
      by (auto simp: metal3_SetPowerState_def known_state_def split: if_splits)
    then show ?thesis using b(3) True by (intro exI[of _ b]) (simp add: fun_upd_idem)
  next
    case False
    then obtain b' where "bmh_Patch (mmclient m) b (PatchOnline (t = PowerOn)) w = (Inr b', w')"
      using assms(2) read known b(4) still
      by (auto simp: metal3_SetPowerState_def known_state_def split: if_splits prod.splits sum.splits)
    from bmh_Patch_ok[OF assms(1) this] b(3) show ?thesis by (auto simp: patches_store_def patched_def same_status_def)
  qed
  then obtain b' where b': "store w' = (store w)(bmh_key b \<mapsto> b')" "bmhOnline b' = (t = PowerOn)"
    "bmhPoweredOn b' = bmhPoweredOn b" by blast
  have "powerState st = t \<or> isTransitioning st" if get: "metal3_GetPowerState m h w' = (Inr (Some st), w2)" for st w2
  proof -
    from get obtain b2 where "getBMH m h w' = (Inr b2, w2)" "powerState st = (if bmhPoweredOn b2 then PowerOn else PowerOff)"
      "isTransitioning st = (bmhOnline b2 \<noteq> bmhPoweredOn b2)"
      by (auto simp: metal3_GetPowerState_def Let_def split: prod.splits sum.splits)
    with getBMH_fst_eq[OF assms(1) read this(1), of b'] b' known show ?thesis by (auto simp: known_state_def)
  qed
  then show ?thesis using known b still b' by blast
qed

theorem metal3_power_request_witness:
  "\<exists>w' b'. metal3_SetPowerState demo_mgmt ''metal/a'' PowerOn demo_bmhs = (None, w') \<and>
     ref_store w' (''metal'', ''a'') = Some b' \<and> bmhOnline b'"
proof -
  obtain w' where run: "metal3_SetPowerState demo_mgmt ''metal/a'' PowerOn demo_bmhs = (None, w')"
    by (simp add: demo_mgmt_eval)
  from metal3_power_request[OF demo_mgmt_laws run] obtain b b' where
    "ParseHostID ''metal/a'' = Inr (bmh_key b)" "ref_store w' = (ref_store demo_bmhs)(bmh_key b \<mapsto> b')"
    "bmhOnline b' = (PowerOn = PowerOn)" by blast
  then show ?thesis using run by (simp add: ParseHostID_demo)
qed

text \<open>While a Metal3 host's wanted and observed power differ, every power request on it is refused
  with an error that \<open>errors.Is\<close> recognises as \<open>ErrTransitioning\<close>, and nothing is written.\<close>

theorem metal3_power_refused_in_transition:
  assumes "bmh_laws (mmclient m) store env" and "getBMH m h w = (Inr b, w1)" and "bmhOnline b \<noteq> bmhPoweredOn b"
  shows "\<exists>e. metal3_SetPowerState m h t w = (Some e, w1) \<and> errors_Is e ErrTransitioning \<and> env w w1"
  using assms(2,3) getBMH_ok(4)[OF assms(1,2)] by (auto simp: metal3_SetPowerState_def)

theorem metal3_power_refused_in_transition_witness:
  "fst (metal3_SetPowerState demo_mgmt ''metal/c'' PowerOff [demo_bmh ''c'' None\<lparr>bmhOnline := True\<rparr>]) \<noteq> None"
proof -
  let ?b = "demo_bmh ''c'' None\<lparr>bmhOnline := True\<rparr>"
  have "ParseHostID ''metal/c'' = Inr (''metal'', ''c'')"
    using ParseHostID_join[of "''metal''" "''c''"] by simp
  then have read: "getBMH demo_mgmt ''metal/c'' [?b] = (Inr ?b, [?b])"
    by (simp add: demo_mgmt_eval)
  have "bmhOnline ?b \<noteq> bmhPoweredOn ?b" by (simp add: demo_bmh_def)
  from metal3_power_refused_in_transition[OF demo_mgmt_laws read this, of PowerOff] show ?thesis by auto
qed

text \<open>C29: Triggering a Metal3 restart adds the reboot annotation to the stored object and changes nothing else
  of it that a client may write or the operator observes: not the wanted or the observed power, not
  the consumer, no label and no other annotation, and no other object. As long as the annotation
  stands the restart is reported as not complete and cannot be triggered a second time; a host is
  reported as having completed its restart exactly when the annotation is gone.\<close>

theorem metal3_restart_cycle:
  assumes "bmh_laws (mmclient m) store (=)" and "metal3_TriggerRestart m h w = (None, w1)"
    and "store w k = Some b" and "ParseHostID h = Inr k"
  shows "(\<exists>b1. store w1 = (store w)(k \<mapsto> b1) \<and> bmh_key b1 = k \<and> bmhOnline b1 = bmhOnline b \<and> same_status b b1 \<and>
      bmhConsumerRef b1 = bmhConsumerRef b \<and> map_of (entries (bmhLabels b1)) = map_of (entries (bmhLabels b)) \<and>
      map_of (entries (bmhAnnotations b)) (RebootAnnotationPrefix (mmclient m)) = None \<and>
      map_of (entries (bmhAnnotations b1)) =
        (map_of (entries (bmhAnnotations b)))(RebootAnnotationPrefix (mmclient m) \<mapsto> '''')) \<and>
    (\<forall>r w2. metal3_IsRestartComplete m h w1 = (Inr r, w2) \<longrightarrow> \<not> r) \<and>
    fst (metal3_TriggerRestart m h w1) \<noteq> None \<and>
    (\<forall>v b2 r v2. store v k = Some b2 \<longrightarrow> metal3_IsRestartComplete m h v = (Inr r, v2) \<longrightarrow>
       r = (map_of (entries (bmhAnnotations b2)) (RebootAnnotationPrefix (mmclient m)) = None))"
proof -
  let ?key = "RebootAnnotationPrefix (mmclient m)"
  obtain b0 w0 where read0: "getBMH m h w = (Inr b0, w0)"
    using assms(2) by (auto simp: metal3_TriggerRestart_def split: prod.splits sum.splits)
  have b0: "b0 = b" "w0 = w" "k = bmh_key b" using getBMH_ok[OF assms(1) read0] assms(3,4) by auto
  note read = read0[unfolded b0(1,2)]
  let ?b' = "b\<lparr>bmhAnnotations := Some (AList.update ?key '''' (entries (bmhAnnotations b)))\<rparr>"
  from assms(2) read obtain b1 where none: "map_of (entries (bmhAnnotations b)) ?key = None"
    and patch: "bmh_Patch (mmclient m) ?b' (MergeFrom b) w = (Inr b1, w1)"
    by (auto simp: metal3_TriggerRestart_def Let_def split: prod.splits sum.splits if_splits)
  have "bmh_key ?b' = k" using b0(3) by (simp add: bmh_key_def)
  with bmh_Patch_ok[OF assms(1) patch] assms(3)
  have st: "store w1 = (store w)(k \<mapsto> b1)" and p: "patched ?b' (MergeFrom b) b b1"
    by (auto simp: patches_store_def)
  note p = patched_annotation[OF p none]
  have at: "store w1 k = Some b1" using st by simp
  have same: "b2 = b3" if "getBMH m h v = (Inr b2, v2)" "store v k = Some b3" for v b2 b3 v2
    using getBMH_ok[OF assms(1) that(1)] that(2) assms(4) by simp
  have complete: "r = (map_of (entries (bmhAnnotations b2)) ?key = None)"
    if "store v k = Some b2" "metal3_IsRestartComplete m h v = (Inr r, v2)" for v b2 r v2
    using that(2) same[OF _ that(1)] by (auto simp: metal3_IsRestartComplete_def split: prod.splits sum.splits)
  have "fst (metal3_TriggerRestart m h w1) \<noteq> None"
    using same[OF _ at] p by (auto simp: metal3_TriggerRestart_def split: prod.splits sum.splits)
  moreover have "\<not> r" if "metal3_IsRestartComplete m h w1 = (Inr r, w2)" for r w2
    using complete[OF at that] p by simp
  ultimately show ?thesis using st p none b0(3) complete by blast
qed

theorem metal3_restart_cycle_witness:
  "\<exists>w1 b1. metal3_TriggerRestart demo_mgmt ''metal/b'' demo_bmhs = (None, w1) \<and>
     ref_store w1 (''metal'', ''b'') = Some b1 \<and> bmhOnline b1 = bmhOnline (demo_bmh ''b'' None) \<and>
     (\<forall>r w2. metal3_IsRestartComplete demo_mgmt ''metal/b'' w1 = (Inr r, w2) \<longrightarrow> \<not> r)"
proof -
  obtain w1 where run: "metal3_TriggerRestart demo_mgmt ''metal/b'' demo_bmhs = (None, w1)"
    by (simp add: demo_mgmt_eval)
  have b: "ref_store demo_bmhs (''metal'', ''b'') = Some (demo_bmh ''b'' None)"
    by (simp add: demo_mgmt_eval)
  note cycle = metal3_restart_cycle[where m = demo_mgmt and store = ref_store and w = demo_bmhs and h = "''metal/b''"
      and k = "(''metal'', ''b'')" and b = "demo_bmh ''b'' None", OF demo_mgmt_laws run b ParseHostID_demo(2)]
  from cycle[THEN conjunct1] obtain b1 where
    "ref_store w1 = (ref_store demo_bmhs)((''metal'', ''b'') \<mapsto> b1)" "bmhOnline b1 = bmhOnline (demo_bmh ''b'' None)"
    by blast
  then have "ref_store w1 (''metal'', ''b'') = Some b1" "bmhOnline b1 = bmhOnline (demo_bmh ''b'' None)" by simp_all
  with run cycle[THEN conjunct2, THEN conjunct1] show ?thesis by blast
qed

text \<open>The Metal3 management backend never acts on a host outside its configured namespace: all four
  operations fail with the world unchanged.\<close>

theorem metal3_management_confined:
  assumes "ParseHostID h = Inr (ns, nm)" and "ns \<noteq> mmnamespace m"
  shows "(\<exists>e. metal3_GetPowerState m h w = (Inl e, w)) \<and> (\<exists>e. metal3_SetPowerState m h t w = (Some e, w)) \<and>
    (\<exists>e. metal3_TriggerRestart m h w = (Some e, w)) \<and> (\<exists>e. metal3_IsRestartComplete m h w = (Inl e, w))"
proof -
  obtain e where "getBMH m h w = (Inl e, w)" using getBMH_outside[OF assms] by blast
  then show ?thesis
    by (simp add: metal3_GetPowerState_def metal3_SetPowerState_def metal3_TriggerRestart_def
        metal3_IsRestartComplete_def)
qed

theorem metal3_management_confined_witness:
  "\<exists>e. metal3_SetPowerState (demo_mgmt\<lparr>mmnamespace := ''other''\<rparr>) ''metal/a'' PowerOn demo_bmhs = (Some e, demo_bmhs)"
  by (rule metal3_management_confined[OF ParseHostID_demo(1), THEN conjunct2, THEN conjunct1]) simp

end
