(* ===== verification/Management_OpenStack.thy ===== *)
theory Management_OpenStack
  imports Management Ironic_Api
begin

text \<open>
  The OpenStack management backend, \<open>internal/management/openstack.go\<close>: power states and restarts of
  Ironic nodes. The state of an operation is the service client, replaced after an authentication
  failure, and the outside world. The client's field belongs to all workers of the process and its
  lock only orders reads and writes of it; the model is the call of one worker, so that the client
  read again after a reconnect is the one this reconnect has stored and not one that another worker
  put there in between. \<open>isAuthError\<close> is the same function as in the inventory backend, in a file of its own.
\<close>

section \<open>The backend\<close>

text \<open>The factory may hand back no client; a client has an endpoint, possibly empty.\<close>

record ('c, 'w) openstack_management =
  omApi :: "('c, 'w) ironic_api"
  omNewServiceClient :: "'w \<Rightarrow> (go_error + 'c option) \<times> 'w"
  Endpoint :: "'c \<Rightarrow> string"

definition mgmt_isAuthError :: "('c, 'w) ironic_api \<Rightarrow> go_error option \<Rightarrow> bool" where
  "mgmt_isAuthError A err =
     (case err of
        None \<Rightarrow> False
      | Some e \<Rightarrow>
          if ResponseCodeIs A e StatusUnauthorized then True
          else if errors_As is_UnableToReauthenticate e then True
          else errors_As is_ErrorAfterReauthentication e)"

definition mgmt_reconnect ::
    "('c, 'w) openstack_management \<Rightarrow> 'c \<times> 'w \<Rightarrow> go_error option \<times> ('c \<times> 'w)" where
  "mgmt_reconnect m s =
     (case omNewServiceClient m (snd s) of
        (Inl err, w1) \<Rightarrow> (Some (ErrorWrap ''failed to recreate baremetal client'' err), (fst s, w1))
      | (Inr sc, w1) \<Rightarrow>
          (case sc of
             None \<Rightarrow> (Some (ErrorText ''failed to recreate baremetal client: nil service client''), (fst s, w1))
           | Some sc \<Rightarrow>
               if Endpoint m sc = ''''
               then (Some (ErrorText ''recreated baremetal client has no endpoint configured''), (fst s, w1))
               else (None, (sc, w1))))"

definition withAuthRetry ::
    "('c, 'w) openstack_management \<Rightarrow> ('c \<Rightarrow> 'w \<Rightarrow> (go_error + 'a) \<times> 'w) \<Rightarrow> 'c \<times> 'w
      \<Rightarrow> (go_error + 'a) \<times> ('c \<times> 'w)" where
  "withAuthRetry m operation s =
     (case operation (fst s) (snd s) of
        (Inr x, w1) \<Rightarrow> (Inr x, (fst s, w1))
      | (Inl err, w1) \<Rightarrow>
          if \<not> mgmt_isAuthError (omApi m) (Some err) then (Inl err, (fst s, w1))
          else (case mgmt_reconnect m (fst s, w1) of
             (Some reconnErr, s2) \<Rightarrow> (Inl (ErrorWrap ''reconnect failed'' reconnErr), s2)
           | (None, s2) \<Rightarrow>
               (case operation (fst s2) (snd s2) of (r, w3) \<Rightarrow> (r, (fst s2, w3)))))"

definition nodePowerStatus :: "node \<Rightarrow> string \<Rightarrow> go_error + power_status option" where
  "nodePowerStatus n hostID =
     (let state = nodePowerState n in
      if state = PowerOn \<or> state = PowerOff
      then Inr (Some \<lparr>powerState = state, isTransitioning = (nodeTargetPowerState n \<noteq> '''')\<rparr>)
      else Inl (ErrorText (''node '' @ hostID @ '': unexpected power state '' @ go_quote (nodePowerState n))))"

definition openstack_GetPowerState ::
    "('c, 'w) openstack_management \<Rightarrow> string \<Rightarrow> 'c \<times> 'w \<Rightarrow> (go_error + power_status option) \<times> ('c \<times> 'w)" where
  "openstack_GetPowerState m hostID s =
     (case withAuthRetry m (\<lambda>c. nodes_Get (omApi m) c hostID) s of
        (Inl err, s1) \<Rightarrow> (Inl (ErrorWrap (''get node '' @ hostID) err), s1)
      | (Inr n, s1) \<Rightarrow> (nodePowerStatus n hostID, s1))"

text \<open>The request to Ironic, its error result as a sum.\<close>

definition change_power ::
    "('c, 'w) openstack_management \<Rightarrow> string \<Rightarrow> string \<Rightarrow> 'c \<Rightarrow> 'w \<Rightarrow> (go_error + unit) \<times> 'w" where
  "change_power m hostID target c w =
     (case nodes_ChangePowerState (omApi m) c hostID target w of
        (Some err, w1) \<Rightarrow> (Inl err, w1) | (None, w1) \<Rightarrow> (Inr (), w1))"

definition openstack_SetPowerState ::
    "('c, 'w) openstack_management \<Rightarrow> string \<Rightarrow> power_state \<Rightarrow> 'c \<times> 'w \<Rightarrow> go_error option \<times> ('c \<times> 'w)" where
  "openstack_SetPowerState m hostID target s =
     (if target \<noteq> PowerOn \<and> target \<noteq> PowerOff
      then (Some (ErrorText (''node '' @ hostID @ '': invalid target power state '' @ go_quote target)), s)
      else (case withAuthRetry m (change_power m hostID target) s of
        (Inr _, s1) \<Rightarrow> (None, s1)
      | (Inl err, s1) \<Rightarrow>
          if ResponseCodeIs (omApi m) err StatusConflict
          then (Some (ErrorWrap (''node '' @ hostID) ErrTransitioning), s1)
          else (Some (ErrorWrap (''failed to set power state on node '' @ hostID) err), s1)))"

definition openstack_TriggerRestart ::
    "('c, 'w) openstack_management \<Rightarrow> string \<Rightarrow> 'c \<times> 'w \<Rightarrow> go_error option \<times> ('c \<times> 'w)" where
  "openstack_TriggerRestart m hostID s =
     (case withAuthRetry m (change_power m hostID ''reboot'') s of
        (Inr _, s1) \<Rightarrow> (None, s1)
      | (Inl err, s1) \<Rightarrow>
          if ResponseCodeIs (omApi m) err StatusConflict
          then (Some (ErrorWrap (''node '' @ hostID) ErrTransitioning), s1)
          else (Some (ErrorWrap (''failed to trigger restart on node '' @ hostID) err), s1))"

definition openstack_IsRestartComplete ::
    "('c, 'w) openstack_management \<Rightarrow> string \<Rightarrow> 'c \<times> 'w \<Rightarrow> (go_error + bool) \<times> ('c \<times> 'w)" where
  "openstack_IsRestartComplete m hostID s =
     (case openstack_GetPowerState m hostID s of
        (Inl err, s1) \<Rightarrow> (Inl err, s1)
      | (Inr None, s1) \<Rightarrow> (Inl (ErrorText (''node '' @ hostID @ '': nil power status'')), s1)
      | (Inr (Some st), s1) \<Rightarrow> (Inr (\<not> isTransitioning st), s1))"

definition openstack_management_client ::
    "('c, 'w) openstack_management \<Rightarrow> ('c \<times> 'w) management_client" where
  "openstack_management_client m = \<lparr>GetPowerState = openstack_GetPowerState m,
     SetPowerState = openstack_SetPowerState m, TriggerRestart = openstack_TriggerRestart m,
     IsRestartComplete = openstack_IsRestartComplete m\<rparr>"

interpretation openstack_power: power_control "openstack_GetPowerState m" "openstack_SetPowerState m" for m
  by unfold_locales
    (auto simp: openstack_GetPowerState_def openstack_SetPowerState_def nodePowerStatus_def known_state_def Let_def
      split: prod.splits sum.splits if_splits)

section \<open>The retry\<close>

text \<open>
  A trace of what a call did: the operation with a client, and the error it ended with, or the
  creation of a client with its result. The traced world records it, so that statements about the
  number, the order and the outcome of requests can be made for any operation.
\<close>

datatype 'c event = Attempt 'c "go_error option" | Created "go_error + 'c option"

definition error_of :: "go_error + 'a \<Rightarrow> go_error option" where
  "error_of r = (case r of Inl e \<Rightarrow> Some e | Inr x \<Rightarrow> None)"

definition traced ::
    "('c \<Rightarrow> 'w \<Rightarrow> (go_error + 'a) \<times> 'w) \<Rightarrow> 'c \<Rightarrow> 'c event list \<times> 'w \<Rightarrow> (go_error + 'a) \<times> ('c event list \<times> 'w)" where
  "traced operation c tw = (case operation c (snd tw) of (r, w1) \<Rightarrow> (r, (fst tw @ [Attempt c (error_of r)], w1)))"

definition traced_factory ::
    "('w \<Rightarrow> (go_error + 'c option) \<times> 'w) \<Rightarrow> 'c event list \<times> 'w \<Rightarrow> (go_error + 'c option) \<times> ('c event list \<times> 'w)" where
  "traced_factory new tw = (case new (snd tw) of (r, w1) \<Rightarrow> (r, (fst tw @ [Created r], w1)))"

text \<open>What counts as an authentication error, and as a client to go on with.\<close>

definition authentication_error :: "('c, 'w) ironic_api \<Rightarrow> go_error \<Rightarrow> bool" where
  "authentication_error A e \<longleftrightarrow> ResponseCodeIs A e StatusUnauthorized \<or>
     errors_As is_UnableToReauthenticate e \<or> errors_As is_ErrorAfterReauthentication e"

definition usable_client :: "('c, 'w) openstack_management \<Rightarrow> go_error + 'c option \<Rightarrow> bool" where
  "usable_client m new \<longleftrightarrow> (\<exists>c. new = Inr (Some c) \<and> Endpoint m c \<noteq> '''')"

lemma mgmt_isAuthError_iff: "mgmt_isAuthError A (Some e) \<longleftrightarrow> authentication_error A e"
  by (simp add: mgmt_isAuthError_def authentication_error_def)

lemma mgmt_reconnect_usable:
  assumes "mgmt_reconnect m s = (err, s')"
  shows "\<exists>new w1. omNewServiceClient m (snd s) = (new, w1) \<and> snd s' = w1 \<and>
    (if usable_client m new then err = None \<and> new = Inr (Some (fst s')) \<and> Endpoint m (fst s') \<noteq> ''''
     else err \<noteq> None \<and> fst s' = fst s)"
  using assms by (auto simp: mgmt_reconnect_def usable_client_def split: prod.splits sum.splits option.splits if_splits)

lemma withAuthRetry_no_auth_error:
  assumes "operation c w = (r, w1)" and "\<And>e. r = Inl e \<Longrightarrow> \<not> authentication_error (omApi m) e"
  shows "withAuthRetry m operation (c, w) = (r, (c, w1))"
  using assms by (cases r) (auto simp: withAuthRetry_def mgmt_isAuthError_iff)

section \<open>Properties\<close>

text \<open>C30: A call asks for a new client, and then repeats its operation, only after an authentication error:
  an operation that succeeds, or fails with any other error, is tried once, with the client at hand,
  and its result is the result of the call. After an authentication error exactly one new client is
  created; if there is none, or it has no endpoint, the call fails and keeps the old client; otherwise the operation is
  tried a second and last time, with the new client, which is kept, and the result of this attempt
  is the result of the call, whatever it is.\<close>

theorem auth_retry_at_most_once:
  assumes "omNewServiceClient m = traced_factory new"
    and "withAuthRetry m (traced operation) (c, ([], w)) = (r, (c', (trace, w')))"
  shows "(error_of r = None \<and> trace = [Attempt c None] \<and> c' = c) \<or>
    (\<exists>e. \<not> authentication_error (omApi m) e \<and> r = Inl e \<and> trace = [Attempt c (Some e)] \<and> c' = c) \<or>
    (\<exists>e x. authentication_error (omApi m) e \<and> trace = [Attempt c (Some e), Created x] \<and>
       \<not> usable_client m x \<and> error_of r \<noteq> None \<and> c' = c) \<or>
    (\<exists>e. authentication_error (omApi m) e \<and>
       trace = [Attempt c (Some e), Created (Inr (Some c')), Attempt c' (error_of r)] \<and> Endpoint m c' \<noteq> '''')"
proof -
  obtain r1 w1 where first: "operation c w = (r1, w1)" by fastforce
  then have attempt: "traced operation c ([], w) = (r1, ([Attempt c (error_of r1)], w1))" by (simp add: traced_def)
  show ?thesis
  proof (cases "\<exists>e. r1 = Inl e \<and> authentication_error (omApi m) e")
    case False
    with withAuthRetry_no_auth_error[where m = m and operation = "traced operation", OF attempt] assms(2)
    have "r = r1" "c' = c" "trace = [Attempt c (error_of r1)]" by auto
    with False show ?thesis by (cases r1) (auto simp: error_of_def)
  next
    case True
    then obtain e where e: "r1 = Inl e" "authentication_error (omApi m) e" by blast
    obtain err s2 where rec: "mgmt_reconnect m (c, ([Attempt c (Some e)], w1)) = (err, s2)" by (rule prod.exhaust)
    from mgmt_reconnect_usable[OF this] obtain x v where x: "new w1 = (x, v)"
      "snd s2 = ([Attempt c (Some e), Created x], v)"
      and u: "if usable_client m x then err = None \<and> x = Inr (Some (fst s2)) \<and> Endpoint m (fst s2) \<noteq> ''''
        else err \<noteq> None \<and> fst s2 = c"
      by (auto simp: assms(1) traced_factory_def split: prod.splits)
    have run: "withAuthRetry m (traced operation) (c, ([], w)) =
        (case err of Some reconnErr \<Rightarrow> (Inl (ErrorWrap ''reconnect failed'' reconnErr), s2)
         | None \<Rightarrow> (case traced operation (fst s2) (snd s2) of (r, w3) \<Rightarrow> (r, (fst s2, w3))))"
      using attempt e rec by (simp add: withAuthRetry_def mgmt_isAuthError_iff error_of_def split: option.split)
    show ?thesis
      using assms(2) run x(2) u e(2)
      by (cases "usable_client m x"; cases s2) (auto simp: traced_def error_of_def split: prod.splits)
  qed
qed

theorem auth_retry_at_most_once_witness:
  "\<exists>m :: (nat, nat event list \<times> nat) openstack_management. \<exists>c' trace w'.
     withAuthRetry m (traced (\<lambda>c w. if c = 0 then (Inl (ErrUnableToReauthenticate ''x''), w) else (Inr (), w))) (0, ([], 0))
       = (Inr (), (c', (trace, w'))) \<and>
     trace = [Attempt 0 (Some (ErrUnableToReauthenticate ''x'')), Created (Inr (Some c')), Attempt c' None]"
proof -
  let ?op = "\<lambda>c w. if c = 0 then (Inl (ErrUnableToReauthenticate ''x''), w) else (Inr (), w :: nat)"
  let ?new = "\<lambda>w. (Inr (Some (1 :: nat)), w)"
  let ?api = "\<lparr>ResponseCodeIs = (\<lambda>_ _. False), nodes_Pages = (\<lambda>_ _ w. (([], None), w)),
     nodes_Get = (\<lambda>_ _ w. (Inl ErrTransitioning, w)), nodes_Update = (\<lambda>_ _ _ w. (Inl ErrTransitioning, w)),
     nodes_ChangePowerState = (\<lambda>_ _ _ w. (None, w))\<rparr> :: (nat, nat event list \<times> nat) ironic_api"
  let ?m = "\<lparr>omApi = ?api, omNewServiceClient = traced_factory ?new, Endpoint = (\<lambda>_. ''http'')\<rparr>"
  have new: "omNewServiceClient ?m = traced_factory ?new" by simp
  obtain c' trace w' where run: "withAuthRetry ?m (traced ?op) (0, ([], 0)) = (Inr (), (c', (trace, w')))"
    and first: "hd trace = Attempt 0 (Some (ErrUnableToReauthenticate ''x''))"
    by (simp add: withAuthRetry_def mgmt_reconnect_def traced_def traced_factory_def mgmt_isAuthError_def error_of_def)
  have "authentication_error ?api (ErrUnableToReauthenticate ''x'')" by (simp add: authentication_error_def)
  with auth_retry_at_most_once[OF new run] first
  have "trace = [Attempt 0 (Some (ErrUnableToReauthenticate ''x'')), Created (Inr (Some c')), Attempt c' None]"
    by (auto simp: error_of_def)
  with run show ?thesis by blast
qed

text \<open>A node whose power state is neither of the two known ones is reported as an error, never as a
  state; otherwise its state is reported as it is, and it is reported in transition exactly while it
  has a target power state.\<close>

theorem node_power_status_cases:
  "nodePowerStatus n h = Inr (Some st) \<longleftrightarrow> known_state (nodePowerState n) \<and> powerState st = nodePowerState n \<and>
     (isTransitioning st \<longleftrightarrow> nodeTargetPowerState n \<noteq> '''')"
  by (cases st) (auto simp: nodePowerStatus_def known_state_def Let_def)

text \<open>An OpenStack power or restart request that Ironic answers with a conflict fails with an error
  that \<open>errors.Is\<close> recognises as \<open>ErrTransitioning\<close>; one for an unknown target state fails before
  anything is sent; and one whose (possibly repeated) request succeeds reports success.\<close>

theorem openstack_power_errors:
  assumes "withAuthRetry m (change_power m h t) s = (a, s1)"
    and "withAuthRetry m (change_power m h ''reboot'') s = (b, s2)"
  shows "(known_state t \<longrightarrow> (\<exists>r. openstack_SetPowerState m h t s = (r, s1) \<and>
       (case a of Inr _ \<Rightarrow> r = None
        | Inl e \<Rightarrow> \<exists>e'. r = Some e' \<and> (ResponseCodeIs (omApi m) e StatusConflict \<longrightarrow> errors_Is e' ErrTransitioning)))) \<and>
    (\<not> known_state t \<longrightarrow> (\<exists>e. openstack_SetPowerState m h t s = (Some e, s))) \<and>
    (\<exists>r. openstack_TriggerRestart m h s = (r, s2) \<and>
       (case b of Inr _ \<Rightarrow> r = None
        | Inl e \<Rightarrow> \<exists>e'. r = Some e' \<and> (ResponseCodeIs (omApi m) e StatusConflict \<longrightarrow> errors_Is e' ErrTransitioning)))"
  using assms
  by (cases a; cases b) (auto simp: openstack_SetPowerState_def openstack_TriggerRestart_def known_state_def)

definition demo_ironic_mgmt :: "(unit, node list) openstack_management" where
  "demo_ironic_mgmt = \<lparr>omApi = ref_ironic_api\<lparr>nodes_ChangePowerState := (\<lambda>c h t w. (Some (ForeignError ''409''), w))\<rparr>,
     omNewServiceClient = (\<lambda>w. (Inr (Some ()), w)), Endpoint = (\<lambda>_. ''http'')\<rparr>"

theorem openstack_power_errors_witness:
  "\<exists>e. openstack_SetPowerState demo_ironic_mgmt ''n1'' PowerOn ((), []) = (Some e, ((), [])) \<and>
     errors_Is e ErrTransitioning"
proof -
  have busy: "withAuthRetry demo_ironic_mgmt (change_power demo_ironic_mgmt ''n1'' t) ((), [])
      = (Inl (ForeignError ''409''), ((), []))" for t
    by (simp add: withAuthRetry_def change_power_def demo_ironic_mgmt_def ref_ironic_api_def
        mgmt_isAuthError_def StatusUnauthorized_def)
  have "ResponseCodeIs (omApi demo_ironic_mgmt) (ForeignError ''409'') StatusConflict"
    by (simp add: demo_ironic_mgmt_def ref_ironic_api_def StatusConflict_def)
  with openstack_power_errors[OF busy busy, of PowerOn] show ?thesis by (auto simp: known_state_def)
qed

end
