(* ===== verification/Provisioning.thy ===== *)
theory Provisioning
  imports Api_Types
begin

text \<open>
  What both controllers hand to the provisioning library of the osac-operator
  (\<open>provisioning.RunProvisioningLifecycle\<close> and \<open>provisioning.RunDeprovisioningLifecycle\<close>): access to
  the job list inside the object's status, and the callbacks. The library works on the controller's
  object and on the world, \<open>'s\<close>, through these hooks; the library itself is a parameter of each
  reconciler.
\<close>

record 's job_hooks =
  jobsOf :: "'s \<Rightarrow> job_status list option"
  setJobs :: "job_status list option \<Rightarrow> 's \<Rightarrow> 's"
  hookMaxJobHistory :: int
  hookPollInterval :: duration

record 's lifecycle_hooks = "'s job_hooks" +
  hookConfigVersion :: string
  OnFailed :: "string \<Rightarrow> 's \<Rightarrow> 's"
  OnSuccess :: "'s \<Rightarrow> 's"
  checkJobs :: "'s \<Rightarrow> bool \<times> 's"
  saveStatus :: "'s \<Rightarrow> go_error option \<times> 's"

end
