(* ===== verification/Instance_Controller.thy ===== *)
theory Instance_Controller
  imports Host_Lock Provisioning Inventory Management
begin

text \<open>
  The BareMetalInstance controller, \<open>internal/controller/baremetalinstance_controller.go\<close>, handler by
  handler: the in-memory object is passed along and returned updated, the process state is the table
  of host locks and the outside world \<open>'w\<close>, and every return of the source is a pair of a result and
  an optional error. The clients of the reconciler are fields of a record: the Kubernetes API, the
  inventory and management backends, the provisioning provider (which may be missing), and the
  provisioning library, whose two lifecycle functions work on the object through the hooks they are
  given.
\<close>

section \<open>The reconciler\<close>

record 'w proc =
  plocks :: host_locks
  pworld :: 'w


text \<open>The spec fields whose change asks for a new provisioning run.\<close>

record config_input =
  ciHostType :: string
  ciExternalHostID :: string
  ciExternalHostName :: string
  ciHostClass :: string
  ciNetworkClass :: string
  ciSelector :: "gomap option"
  ciInventoryLabels :: "gomap option"
  ciInventoryPersistentLabels :: "gomap option"
  ciTemplateID :: string
  ciTemplateParameters :: string

record ('p, 'w) bmi_reconciler =
  rLib :: lib
  rGet :: "string \<times> string \<Rightarrow> 'w \<Rightarrow> (go_error + bmi) \<times> 'w"
  rUpdate :: "bmi \<Rightarrow> 'w \<Rightarrow> (go_error + bmi) \<times> 'w"
  rStatusUpdate :: "bmi \<Rightarrow> 'w \<Rightarrow> (go_error + bmi) \<times> 'w"
  rDeepEqual :: "bmi_status \<Rightarrow> bmi_status \<Rightarrow> bool"
  InventoryClient :: "'w inventory_client"
  ManagementClient :: "'w management_client"
  ProvisioningProvider :: "'p option"
  NoFreeHostsPollIntervalDuration :: duration
  TryLockFailPollIntervalDuration :: duration
  ManagementRecheckIntervalDuration :: duration
  ProvisionPollIntervalDuration :: duration
  provisioning_DefaultMaxJobHistory :: int
  ComputeDesiredConfigVersion :: "config_input \<Rightarrow> go_error + string"
  RunProvisioningLifecycle ::
    "'p option \<Rightarrow> (bmi \<times> 'w) lifecycle_hooks \<Rightarrow> bmi \<times> 'w \<Rightarrow> outcome \<times> (bmi \<times> 'w)"
  RunDeprovisioningLifecycle ::
    "'p option \<Rightarrow> (bmi \<times> 'w) job_hooks \<Rightarrow> bmi \<times> 'w
      \<Rightarrow> (ctrl_result \<times> bool \<times> go_error option) \<times> (bmi \<times> 'w)"
  CheckAPIServerForNonTerminalProvisionJob :: "string \<times> string \<Rightarrow> 'w \<Rightarrow> bool \<times> 'w"

text \<open>The constructor, as far as it computes.\<close>

definition NewBareMetalInstanceReconciler ::
    "duration \<Rightarrow> ('p, 'w) bmi_reconciler \<Rightarrow> ('p, 'w) bmi_reconciler" where
  "NewBareMetalInstanceReconciler defaultProvisionPoll r = r\<lparr>
     NoFreeHostsPollIntervalDuration :=
       interval_or DefaultNoFreeHostsPollIntervalDuration (NoFreeHostsPollIntervalDuration r),
     TryLockFailPollIntervalDuration :=
       interval_or DefaultTryLockFailPollIntervalDuration (TryLockFailPollIntervalDuration r),
     ManagementRecheckIntervalDuration :=
       interval_or DefaultManagementRecheckIntervalDuration (ManagementRecheckIntervalDuration r),
     ProvisionPollIntervalDuration :=
       interval_or defaultProvisionPoll (ProvisionPollIntervalDuration r)\<rparr>"

abbreviation cond ::
    "('p, 'w) bmi_reconciler \<Rightarrow> bmi_condition_type \<Rightarrow> condition_status \<Rightarrow> string \<Rightarrow> string \<Rightarrow> bmi \<Rightarrow> bmi" where
  "cond r t s reason message b \<equiv> set_bmi_condition (rLib r) t s reason message b"

definition uses_template :: "bmi \<Rightarrow> bool" where
  "uses_template b \<longleftrightarrow> templateID (ispec b) \<noteq> '''' \<and> templateID (ispec b) \<noteq> OsacNoopTemplate"

section \<open>Inventory\<close>

definition match_expressions :: "bmi \<Rightarrow> gomap" where
  "match_expressions b =
     (let m = entries (hostSelector (ispec b));
          m = AList.update ''hostType'' (hostType (ispec b)) m;
          m = (if map_index m ''managedBy'' = '''' then AList.update ''managedBy'' OsacDefaultManagedByValue m else m)
      in if map_index m ''provisionState'' = ''''
         then AList.update ''provisionState'' OsacDefaultProvisionStateValue m else m)"

text \<open>The branch of \<open>reconcileInventory\<close> for an instance without a host.\<close>

definition select_host ::
    "('p, 'w) bmi_reconciler \<Rightarrow> bmi \<Rightarrow> 'w \<Rightarrow> outcome \<times> bmi \<times> 'w" where
  "select_host r b w =
     (case FindFreeHost (InventoryClient r) (match_expressions b) w of
        (Inl err, w1) \<Rightarrow> (failed_with err, b, w1)
      | (Inr None, w1) \<Rightarrow>
          (let b = set_phase BareMetalInstancePhaseFailed b;
               b = cond r HostConditionAllocated ConditionFalse ''Failed'' ''No matching hosts available'' b
           in ((requeue_after (NoFreeHostsPollIntervalDuration r), None), b, w1))
      | (Inr (Some inventoryHost), w1) \<Rightarrow>
          (let b = set_externalHostID (inventoryHostID inventoryHost) b
           in case rUpdate r b w1 of
                (Inl err, w2) \<Rightarrow> (failed_with err, b, w2)
              | (Inr b', w2) \<Rightarrow> (ok_done, b', w2)))"

definition combined_labels :: "bmi \<Rightarrow> gomap" where
  "combined_labels b =
     (let m = maps_Copy [] (entries (inventoryLabels (ispec b)));
          m = maps_Copy m (entries (inventoryPersistentLabels (ispec b)))
      in case GetPoolID b of
           Some poolID \<Rightarrow> AList.update OsacBareMetalPoolIDLabel poolID m
         | None \<Rightarrow> m)"

text \<open>The branch for an instance with a selected host, run while the host's lock is held.\<close>

definition acquire_host ::
    "('p, 'w) bmi_reconciler \<Rightarrow> bmi \<Rightarrow> 'w \<Rightarrow> outcome \<times> bmi \<times> 'w" where
  "acquire_host r b w =
     (case AssignHost (InventoryClient r) (externalHostID (ispec b)) (objUID (imeta b)) (combined_labels b) w of
        (Inl err, w1) \<Rightarrow> (failed_with err, b, w1)
      | (Inr None, w1) \<Rightarrow>
          (let b = set_externalHostID '''' b
           in case rUpdate r b w1 of
                (Inl err, w2) \<Rightarrow> (failed_with err, b, w2)
              | (Inr b', w2) \<Rightarrow> (ok_done, b', w2))
      | (Inr (Some inventoryHost), w1) \<Rightarrow>
          (let b = b\<lparr>ispec := (ispec b)\<lparr>hostClass := hostHostClass inventoryHost,
                     networkClass := hostNetworkClass inventoryHost\<rparr>\<rparr>
           in case rUpdate r b w1 of
                (Inl err, w2) \<Rightarrow> (failed_with err, b, w2)
              | (Inr b', w2) \<Rightarrow>
                  (let b' = set_phase BareMetalInstancePhaseProgressing b';
                       b' = cond r HostConditionAllocated ConditionTrue ''Allocated''
                         (''BareMetalInstance allocated a host ('' @ externalHostID (ispec b') @ '') from ''
                            @ hostHostClass inventoryHost) b'
                   in (ok_done, b', w2))))"

definition reconcileInventory ::
    "('p, 'w) bmi_reconciler \<Rightarrow> bmi \<Rightarrow> 'w proc \<Rightarrow> outcome \<times> bmi \<times> 'w proc" where
  "reconcileInventory r b p =
     (let b = set_phase BareMetalInstancePhaseAllocating b;
          b = cond r HostConditionAllocated ConditionFalse HostConditionReasonProgressing
                ''Allocating BareMetalInstance'' b;
          (fs, added) = AddFinalizer (rLib r) (finalizers (imeta b)) BareMetalInstanceInventoryFinalizer;
          b = set_bmi_finalizers fs b
      in if added then
           (case rUpdate r b (pworld p) of
              (Inl err, w1) \<Rightarrow> (failed_with err, b, p\<lparr>pworld := w1\<rparr>)
            | (Inr b', w1) \<Rightarrow> (ok_done, b', p\<lparr>pworld := w1\<rparr>))
         else if externalHostID (ispec b) = '''' then
           (case select_host r b (pworld p) of (res, b', w1) \<Rightarrow> (res, b', p\<lparr>pworld := w1\<rparr>))
         else
           (let hostID = externalHostID (ispec b);
                (locked, l) = TryLock hostID (plocks p)
            in if \<not> locked then ((requeue_after (TryLockFailPollIntervalDuration r), None), b, p\<lparr>plocks := l\<rparr>)
               else (case acquire_host r b (pworld p) of
                       (res, b', w1) \<Rightarrow> (res, b', \<lparr>plocks = Unlock hostID l, pworld = w1\<rparr>))))"

section \<open>Power\<close>

text \<open>\<open>Inr True\<close>: check again later; \<open>Inl\<close>: the power request failed.\<close>

definition reconcilePower ::
    "('p, 'w) bmi_reconciler \<Rightarrow> bmi \<Rightarrow> power_status \<Rightarrow> 'w \<Rightarrow> (go_error + bool) \<times> 'w" where
  "reconcilePower r b st w =
     (let currentlyOn = (powerState st = PowerOn);
          desiredOn = (runStrategy (ispec b) = RunStrategyAlways)
      in if isTransitioning st then (Inr True, w)
         else if desiredOn = currentlyOn then (Inr False, w)
         else
           (let targetState = (if desiredOn then PowerOn else PowerOff)
            in case SetPowerState (ManagementClient r) (externalHostID (ispec b)) targetState w of
                 (Some err, w1) \<Rightarrow>
                   if errors_Is err ErrTransitioning then (Inr True, w1) else (Inl err, w1)
               | (None, w1) \<Rightarrow> (Inr True, w1)))"

definition set_statusRunStrategy :: "run_strategy \<Rightarrow> bmi \<Rightarrow> bmi" where
  "set_statusRunStrategy s b = b\<lparr>istatus := (istatus b)\<lparr>statusRunStrategy := s\<rparr>\<rparr>"

definition syncBareMetalInstanceStatus ::
    "('p, 'w) bmi_reconciler \<Rightarrow> power_status option \<Rightarrow> go_error option \<Rightarrow> bmi \<Rightarrow> bmi" where
  "syncBareMetalInstanceStatus r powerStatus reconcileErr b =
     (if reconcileErr \<noteq> None then
        cond r HostConditionPowerSynced ConditionFalse HostConditionReasonIronicAPIFailure
          ''failed to sync power status'' (set_phase BareMetalInstancePhaseFailed b)
      else case powerStatus of
        None \<Rightarrow> b
      | Some st \<Rightarrow>
          (let poweredOn = (powerState st = PowerOn);
               b = set_statusRunStrategy (if poweredOn then RunStrategyAlways else RunStrategyHalted) b
           in if isTransitioning st then
                cond r HostConditionPowerSynced ConditionFalse HostConditionReasonProgressing
                  ''node power state is transitioning'' b
              else if runStrategy (ispec b) \<noteq> RunStrategyUnspecified \<and>
                      runStrategy (ispec b) \<noteq> statusRunStrategy (istatus b) then
                cond r HostConditionPowerSynced ConditionFalse HostConditionReasonProgressing
                  ''waiting for node power state to converge'' b
              else if poweredOn then
                cond r HostConditionPowerSynced ConditionTrue HostConditionReasonPowerOn '''' b
              else
                cond r HostConditionPowerSynced ConditionTrue HostConditionReasonPowerOff '''' b))"

section \<open>Restart\<close>

definition set_statusRestartTrigger :: "int64 \<Rightarrow> bmi \<Rightarrow> bmi" where
  "set_statusRestartTrigger t b = b\<lparr>istatus := (istatus b)\<lparr>statusRestartTrigger := t\<rparr>\<rparr>"

definition triggerRestart ::
    "('p, 'w) bmi_reconciler \<Rightarrow> bmi \<Rightarrow> 'w \<Rightarrow> outcome \<times> bmi \<times> 'w" where
  "triggerRestart r b w =
     (case TriggerRestart (ManagementClient r) (externalHostID (ispec b)) w of
        (Some err, w1) \<Rightarrow>
          if errors_Is err ErrTransitioning then
            ((requeue_after (ManagementRecheckIntervalDuration r), None),
             cond r HostConditionPowerSynced ConditionFalse HostConditionReasonPowerSyncFailed
               ''Host is transitioning, will retry restart when host becomes idle'' b, w1)
          else (failed_with (ErrorWrap ''failed to trigger restart'' err), b, w1)
      | (None, w1) \<Rightarrow>
          ((requeue_after (ManagementRecheckIntervalDuration r), None),
           cond r HostConditionPowerSynced ConditionFalse HostConditionReasonProgressing
             ''Restart operation initiated'' b, w1))"

text \<open>The common end of a restart that needs nothing more.\<close>

definition restart_done :: "('p, 'w) bmi_reconciler \<Rightarrow> bmi \<Rightarrow> bmi" where
  "restart_done r b =
     cond r HostConditionPowerSynced ConditionTrue ''Completed'' ''Restart trigger updated''
       (set_statusRestartTrigger (restartTrigger (ispec b)) b)"

definition reconcileRestartTrigger ::
    "('p, 'w) bmi_reconciler \<Rightarrow> bmi \<Rightarrow> 'w \<Rightarrow> outcome \<times> bmi \<times> 'w" where
  "reconcileRestartTrigger r b w =
     (if restartTrigger (ispec b) = statusRestartTrigger (istatus b) then (ok_done, b, w)
      else if runStrategy (ispec b) = RunStrategyHalted then
        (ok_done,
         cond r HostConditionPowerSynced ConditionTrue ''Completed'' ''Restart trigger updated (instance halted)''
           (set_statusRestartTrigger (restartTrigger (ispec b)) b), w)
      else if (case bmi_GetStatusCondition (rLib r) HostConditionPowerSynced b of
                 None \<Rightarrow> False
               | Some restartCond \<Rightarrow> cStatus restartCond = ConditionFalse \<and>
                   cReason restartCond = HostConditionReasonProgressing) then
        (case IsRestartComplete (ManagementClient r) (externalHostID (ispec b)) w of
           (Inl err, w1) \<Rightarrow>
             (failed_with err,
              cond r HostConditionPowerSynced ConditionFalse HostConditionReasonPowerSyncFailed
                (''Failed to check restart completion: '' @ error_text err) b, w1)
         | (Inr completed, w1) \<Rightarrow>
             if completed then (ok_done, restart_done r b, w1)
             else ((requeue_after (ManagementRecheckIntervalDuration r), None), b, w1))
      else
        (case triggerRestart r b w of
           ((result, Some err), b1, w1) \<Rightarrow>
             ((result, Some err),
              cond r HostConditionPowerSynced ConditionFalse HostConditionReasonPowerSyncFailed
                (''Failed to trigger restart: '' @ error_text err) b1, w1)
         | ((result, None), b1, w1) \<Rightarrow>
             if \<not> result_IsZero (rLib r) result then ((result, None), b1, w1)
             else (ok_done, restart_done r b1, w1)))"

section \<open>Provisioning\<close>

definition set_desiredConfigVersion :: "string \<Rightarrow> bmi \<Rightarrow> bmi" where
  "set_desiredConfigVersion v b = b\<lparr>istatus := (istatus b)\<lparr>desiredConfigVersion := v\<rparr>\<rparr>"

definition set_provisioningJobs :: "job_status list option \<Rightarrow> bmi \<Rightarrow> bmi" where
  "set_provisioningJobs js b = b\<lparr>istatus := (istatus b)\<lparr>provisioningJobs := js\<rparr>\<rparr>"

definition config_of :: "bmi \<Rightarrow> config_input" where
  "config_of b = \<lparr>
     ciHostType = hostType (ispec b),
     ciExternalHostID = externalHostID (ispec b),
     ciExternalHostName = externalHostName (ispec b),
     ciHostClass = hostClass (ispec b),
     ciNetworkClass = networkClass (ispec b),
     ciSelector = hostSelector (ispec b),
     ciInventoryLabels = inventoryLabels (ispec b),
     ciInventoryPersistentLabels = inventoryPersistentLabels (ispec b),
     ciTemplateID = templateID (ispec b),
     ciTemplateParameters = templateParameters (ispec b)\<rparr>"

definition bmi_key :: "bmi \<Rightarrow> string \<times> string" where
  "bmi_key b = (objNamespace (imeta b), objName (imeta b))"

definition bmi_job_hooks :: "('p, 'w) bmi_reconciler \<Rightarrow> (bmi \<times> 'w) job_hooks" where
  "bmi_job_hooks r = \<lparr>
     jobsOf = (\<lambda>(b, w). provisioningJobs (istatus b)),
     setJobs = (\<lambda>js (b, w). (set_provisioningJobs js b, w)),
     hookMaxJobHistory = provisioning_DefaultMaxJobHistory r,
     hookPollInterval = ProvisionPollIntervalDuration r\<rparr>"

definition provisioning_hooks ::
    "('p, 'w) bmi_reconciler \<Rightarrow> string \<Rightarrow> (bmi \<times> 'w) lifecycle_hooks" where
  "provisioning_hooks r desiredVersion = \<lparr>
     jobsOf = jobsOf (bmi_job_hooks r),
     setJobs = setJobs (bmi_job_hooks r),
     hookMaxJobHistory = hookMaxJobHistory (bmi_job_hooks r),
     hookPollInterval = hookPollInterval (bmi_job_hooks r),
     hookConfigVersion = desiredVersion,
     OnFailed = (\<lambda>message (b, w).
       (cond r HostConditionProvisionTemplateComplete ConditionFalse HostConditionReasonTemplateFailed message
          (set_phase BareMetalInstancePhaseFailed b), w)),
     OnSuccess = (\<lambda>(b, w).
       (cond r HostConditionProvisionTemplateComplete ConditionTrue ''Succeeded''
          ''Provision job completed successfully'' b, w)),
     checkJobs = (\<lambda>(b, w). case CheckAPIServerForNonTerminalProvisionJob r (bmi_key b) w of
       (found, w1) \<Rightarrow> (found, (b, w1))),
     saveStatus = (\<lambda>(b, w). case rStatusUpdate r b w of
       (Inl err, w1) \<Rightarrow> (Some err, (b, w1)) | (Inr b', w1) \<Rightarrow> (None, (b', w1)))\<rparr>"

definition reconcileProvisioning ::
    "('p, 'w) bmi_reconciler \<Rightarrow> bmi \<Rightarrow> 'w \<Rightarrow> outcome \<times> bmi \<times> 'w" where
  "reconcileProvisioning r b w =
     (case ComputeDesiredConfigVersion r (config_of b) of
        Inl err \<Rightarrow> (failed_with (ErrorWrap ''failed to compute desired config version'' err), b, w)
      | Inr desiredVersion \<Rightarrow>
          (let b = set_desiredConfigVersion desiredVersion b
           in case RunProvisioningLifecycle r (ProvisioningProvider r) (provisioning_hooks r desiredVersion) (b, w) of
                ((result, Some err), (b1, w1)) \<Rightarrow> ((result, Some err), b1, w1)
              | ((result, None), (b1, w1)) \<Rightarrow>
                  if 0 < requeueAfter result \<and>
                     (case bmi_GetStatusCondition (rLib r) HostConditionProvisionTemplateComplete b1 of
                        None \<Rightarrow> True
                      | Some provisionCond \<Rightarrow> cReason provisionCond \<noteq> HostConditionReasonTemplateFailed)
                  then ((result, None),
                    cond r HostConditionProvisionTemplateComplete ConditionFalse HostConditionReasonProgressing
                      ''Provisioning job in progress'' b1, w1)
                  else ((result, None), b1, w1)))"

definition reconcileDeprovisioning ::
    "('p, 'w) bmi_reconciler \<Rightarrow> bmi \<Rightarrow> 'w \<Rightarrow> (ctrl_result \<times> bool \<times> go_error option) \<times> bmi \<times> 'w" where
  "reconcileDeprovisioning r b w =
     (let b = (if provisioningJobs (istatus b) = None then set_provisioningJobs (Some []) b else b)
      in case RunDeprovisioningLifecycle r (ProvisioningProvider r) (bmi_job_hooks r) (b, w) of
           ((result, finished, err), (b1, w1)) \<Rightarrow>
             (let finished = (if \<not> finished \<and> result_IsZero (rLib r) result \<and> err = None then True else finished)
              in if err \<noteq> None then
                   ((result, False, err),
                    cond r HostConditionDeprovisionTemplateComplete ConditionFalse
                      HostConditionReasonTemplateFailed ''Deprovision job failed'' b1, w1)
                 else if finished then
                   ((result, finished, None),
                    cond r HostConditionDeprovisionTemplateComplete ConditionTrue ''Succeeded''
                      ''Deprovision job completed successfully'' b1, w1)
                 else
                   ((result, finished, None),
                    cond r HostConditionDeprovisionTemplateComplete ConditionFalse
                      HostConditionReasonProgressing ''Deprovision job in progress'' b1, w1)))"

section \<open>Management\<close>

definition nil_status_error :: "string \<Rightarrow> go_error" where
  "nil_status_error hostID = ErrorText (''management backend returned nil power status for host '' @ hostID)"

text \<open>
  The second half of \<open>reconcileManagement\<close>: read the power state, drive it to the run strategy, read
  it again, publish it and decide the phase. The flag says whether power was synced when the call
  began.
\<close>

definition read_power ::
    "('p, 'w) bmi_reconciler \<Rightarrow> bmi \<Rightarrow> 'w \<Rightarrow> (go_error + power_status) \<times> 'w" where
  "read_power r b w =
     (case GetPowerState (ManagementClient r) (externalHostID (ispec b)) w of
        (Inl err, w1) \<Rightarrow> (Inl err, w1)
      | (Inr None, w1) \<Rightarrow> (Inl (nil_status_error (externalHostID (ispec b))), w1)
      | (Inr (Some st), w1) \<Rightarrow> (Inr st, w1))"

definition conclude_power ::
    "('p, 'w) bmi_reconciler \<Rightarrow> bool \<Rightarrow> bool \<Rightarrow> power_status \<Rightarrow> bmi \<Rightarrow> outcome \<times> bmi" where
  "conclude_power r powerWasPreviouslySynced powerNeedsRequeue st b =
     (let b = syncBareMetalInstanceStatus r (Some st) None b;
          again = ((requeue_after (ManagementRecheckIntervalDuration r), None),
                   set_phase BareMetalInstancePhaseProgressing b)
      in if runStrategy (ispec b) \<noteq> RunStrategyUnspecified \<and>
            (powerNeedsRequeue \<or> isTransitioning st \<or>
             (runStrategy (ispec b) = RunStrategyAlways) \<noteq> (powerState st = PowerOn))
         then again
         else if runStrategy (ispec b) \<noteq> RunStrategyUnspecified \<and> \<not> powerWasPreviouslySynced then again
         else (ok_done, set_phase BareMetalInstancePhaseReady b))"

definition reconcile_power_state ::
    "('p, 'w) bmi_reconciler \<Rightarrow> bool \<Rightarrow> bmi \<Rightarrow> 'w \<Rightarrow> outcome \<times> bmi \<times> 'w" where
  "reconcile_power_state r powerWasPreviouslySynced b w =
     (case read_power r b w of
        (Inl err, w1) \<Rightarrow> (failed_with err, syncBareMetalInstanceStatus r None (Some err) b, w1)
      | (Inr st, w1) \<Rightarrow>
          if runStrategy (ispec b) = RunStrategyUnspecified then
            (case conclude_power r powerWasPreviouslySynced False st b of (res, b1) \<Rightarrow> (res, b1, w1))
          else
            (case reconcilePower r b st w1 of
               (Inl err, w2) \<Rightarrow> (failed_with err, syncBareMetalInstanceStatus r None (Some err) b, w2)
             | (Inr powerNeedsRequeue, w2) \<Rightarrow>
                 (case read_power r b w2 of
                    (Inl err, w3) \<Rightarrow> (failed_with err, syncBareMetalInstanceStatus r None (Some err) b, w3)
                  | (Inr st2, w3) \<Rightarrow>
                      (case conclude_power r powerWasPreviouslySynced powerNeedsRequeue st2 b of
                         (res, b1) \<Rightarrow> (res, b1, w3)))))"

text \<open>From the restart trigger on: what follows provisioning.\<close>

definition reconcile_restart_and_power ::
    "('p, 'w) bmi_reconciler \<Rightarrow> bmi \<Rightarrow> 'w \<Rightarrow> outcome \<times> bmi \<times> 'w" where
  "reconcile_restart_and_power r b w =
     (let powerWasPreviouslySynced =
            (case bmi_GetStatusCondition (rLib r) HostConditionPowerSynced b of
               None \<Rightarrow> True | Some prev \<Rightarrow> cStatus prev = ConditionTrue)
      in case reconcileRestartTrigger r b w of
           ((result, err), b1, w1) \<Rightarrow>
             if err \<noteq> None \<or> \<not> result_IsZero (rLib r) result then
               ((result, err),
                set_phase (if err \<noteq> None then BareMetalInstancePhaseFailed else BareMetalInstancePhaseProgressing) b1,
                w1)
             else reconcile_power_state r powerWasPreviouslySynced b1 w1)"

definition reconcileManagement ::
    "('p, 'w) bmi_reconciler \<Rightarrow> bmi \<Rightarrow> 'w \<Rightarrow> outcome \<times> bmi \<times> 'w" where
  "reconcileManagement r b w =
     (let (fs, added) = AddFinalizer (rLib r) (finalizers (imeta b)) BareMetalInstanceManagementFinalizer;
          b = set_bmi_finalizers fs b
      in if added then
           (case rUpdate r b w of
              (Inl err, w1) \<Rightarrow> (failed_with err, set_phase BareMetalInstancePhaseFailed b, w1)
            | (Inr b', w1) \<Rightarrow> (ok_done, set_phase BareMetalInstancePhaseProgressing b', w1))
         else if \<not> uses_template b then reconcile_restart_and_power r b w
         else
           (case reconcileProvisioning r b w of
              ((result, Some provErr), b1, w1) \<Rightarrow>
                ((result, Some provErr), set_phase BareMetalInstancePhaseFailed b1, w1)
            | ((result, None), b1, w1) \<Rightarrow>
                if \<not> result_IsZero (rLib r) result then
                  ((result, None), set_phase BareMetalInstancePhaseProgressing b1, w1)
                else if (case bmi_GetStatusCondition (rLib r) HostConditionProvisionTemplateComplete b1 of
                           None \<Rightarrow> False | Some provisionCond \<Rightarrow> cStatus provisionCond \<noteq> ConditionTrue)
                then (ok_done, set_phase BareMetalInstancePhaseFailed b1, w1)
                else reconcile_restart_and_power r b1 w1))"

section \<open>Update\<close>

definition handleUpdate ::
    "('p, 'w) bmi_reconciler \<Rightarrow> bmi \<Rightarrow> 'w proc \<Rightarrow> outcome \<times> bmi \<times> 'w proc" where
  "handleUpdate r b p =
     (if uses_template b \<and> ProvisioningProvider r = None then
        (let b = set_phase BareMetalInstancePhaseFailed b
         in (ok_done,
             (if bmi_IsStatusConditionTrue (rLib r) HostConditionAllocated b
              then cond r HostConditionProvisionTemplateComplete ConditionFalse
                     HostConditionReasonTemplateFailed ''Provisioning provider not configured'' b
              else cond r HostConditionAllocated ConditionFalse
                     HostConditionReasonTemplateFailed ''Provisioning provider not configured'' b), p))
      else if hostClass (ispec b) = '''' then reconcileInventory r b p
      else (case reconcileManagement r b (pworld p) of (res, b1, w1) \<Rightarrow> (res, b1, p\<lparr>pworld := w1\<rparr>)))"

section \<open>Deletion\<close>

definition labels_to_remove :: "bmi \<Rightarrow> string list" where
  "labels_to_remove b =
     map fst (entries (inventoryLabels (ispec b))) @
     (if GetPoolID b \<noteq> None then [OsacBareMetalPoolIDLabel] else [])"

text \<open>The removal of the inventory finalizer, at the end.\<close>

definition drop_inventory_finalizer ::
    "('p, 'w) bmi_reconciler \<Rightarrow> bmi \<Rightarrow> 'w \<Rightarrow> outcome \<times> bmi \<times> 'w" where
  "drop_inventory_finalizer r b w =
     (let (fs, removed) = RemoveFinalizer (rLib r) (finalizers (imeta b)) BareMetalInstanceInventoryFinalizer;
          b = set_bmi_finalizers fs b
      in if removed then
           (case rUpdate r b w of
              (Inl err, w1) \<Rightarrow> (failed_with err, b, w1)
            | (Inr b', w1) \<Rightarrow> (ok_done, b', w1))
         else (ok_done, b, w))"

definition release_host ::
    "('p, 'w) bmi_reconciler \<Rightarrow> bmi \<Rightarrow> 'w \<Rightarrow> outcome \<times> bmi \<times> 'w" where
  "release_host r b w =
     (case UnassignHost (InventoryClient r) (externalHostID (ispec b)) (labels_to_remove b) w of
        (Some err, w1) \<Rightarrow> (failed_with err, b, w1)
      | (None, w1) \<Rightarrow> drop_inventory_finalizer r b w1)"

definition inventory_cleanup ::
    "('p, 'w) bmi_reconciler \<Rightarrow> bmi \<Rightarrow> 'w proc \<Rightarrow> outcome \<times> bmi \<times> 'w proc" where
  "inventory_cleanup r b p =
     (if \<not> ContainsFinalizer (rLib r) (finalizers (imeta b)) BareMetalInstanceInventoryFinalizer
      then (ok_done, b, p)
      else
        (let hostID = externalHostID (ispec b)
         in if hostID = '''' then
              (case drop_inventory_finalizer r b (pworld p) of (res, b1, w1) \<Rightarrow> (res, b1, p\<lparr>pworld := w1\<rparr>))
            else
              (let (locked, l) = TryLock hostID (plocks p)
               in if \<not> locked then ((requeue_after (TryLockFailPollIntervalDuration r), None), b, p\<lparr>plocks := l\<rparr>)
                  else (case release_host r b (pworld p) of
                          (res, b1, w1) \<Rightarrow> (res, b1, \<lparr>plocks = Unlock hostID l, pworld = w1\<rparr>)))))"

text \<open>The management part: \<open>None\<close> means that it is finished and the inventory part follows.\<close>

definition management_cleanup ::
    "('p, 'w) bmi_reconciler \<Rightarrow> bmi \<Rightarrow> 'w \<Rightarrow> outcome option \<times> bmi \<times> 'w" where
  "management_cleanup r b w =
     (if \<not> ContainsFinalizer (rLib r) (finalizers (imeta b)) BareMetalInstanceManagementFinalizer
      then (None, b, w)
      else
        (let b = set_phase BareMetalInstancePhaseDeleting b;
             finish = (\<lambda>b w.
               let b = set_bmi_finalizers
                         (fst (RemoveFinalizer (rLib r) (finalizers (imeta b)) BareMetalInstanceManagementFinalizer)) b
               in case rUpdate r b w of
                    (Inl err, w1) \<Rightarrow> (Some (failed_with err), b, w1)
                  | (Inr b', w1) \<Rightarrow> (None, b', w1))
         in if \<not> uses_template b then finish b w
            else if ProvisioningProvider r = None then
              (Some ok_done,
               cond r HostConditionDeprovisionTemplateComplete ConditionFalse HostConditionReasonTemplateFailed
                 ''Provisioning provider not configured'' (set_phase BareMetalInstancePhaseFailed b), w)
            else
              (case reconcileDeprovisioning r b w of
                 ((result, finished, err), b1, w1) \<Rightarrow>
                   if err \<noteq> None then (Some (result, err), b1, w1)
                   else if \<not> finished then (Some (result, None), b1, w1)
                   else finish b1 w1)))"

definition handleDeletion ::
    "('p, 'w) bmi_reconciler \<Rightarrow> bmi \<Rightarrow> 'w proc \<Rightarrow> outcome \<times> bmi \<times> 'w proc" where
  "handleDeletion r b p =
     (case management_cleanup r b (pworld p) of
        (Some res, b1, w1) \<Rightarrow> (res, b1, p\<lparr>pworld := w1\<rparr>)
      | (None, b1, w1) \<Rightarrow> inventory_cleanup r b1 (p\<lparr>pworld := w1\<rparr>))"

section \<open>Reconcile\<close>

definition Reconcile ::
    "('p, 'w) bmi_reconciler \<Rightarrow> string \<times> string \<Rightarrow> 'w proc \<Rightarrow> outcome \<times> 'w proc" where
  "Reconcile r key p =
     (case rGet r key (pworld p) of
        (Inl err, w1) \<Rightarrow> ((no_requeue, IgnoreNotFound (rLib r) (Some err)), p\<lparr>pworld := w1\<rparr>)
      | (Inr b, w1) \<Rightarrow>
          (let oldstatus = istatus b;
               (res, b1, p1) =
                 (if \<not> time_IsZero (rLib r) (deletionTimestamp (imeta b))
                  then handleDeletion r b (p\<lparr>pworld := w1\<rparr>)
                  else handleUpdate r b (p\<lparr>pworld := w1\<rparr>))
           in if rDeepEqual r (istatus b1) oldstatus then (res, p1)
              else (case rStatusUpdate r b1 (pworld p1) of
                      (Inl statusErr, w2) \<Rightarrow>
                        (if IgnoreNotFound (rLib r) (Some statusErr) \<noteq> None
                         then ((fst res, Some statusErr), p1\<lparr>pworld := w2\<rparr>)
                         else (res, p1\<lparr>pworld := w2\<rparr>))
                    | (Inr _, w2) \<Rightarrow> (res, p1\<lparr>pworld := w2\<rparr>))))"

section \<open>Frames\<close>

lemma set_status_simps [simp]:
  "imeta (set_statusRunStrategy s b) = imeta b" "ispec (set_statusRunStrategy s b) = ispec b"
  "istatus (set_statusRunStrategy s b) = (istatus b)\<lparr>statusRunStrategy := s\<rparr>"
  "imeta (set_statusRestartTrigger t b) = imeta b" "ispec (set_statusRestartTrigger t b) = ispec b"
  "istatus (set_statusRestartTrigger t b) = (istatus b)\<lparr>statusRestartTrigger := t\<rparr>"
  "imeta (set_desiredConfigVersion v b) = imeta b" "ispec (set_desiredConfigVersion v b) = ispec b"
  "istatus (set_desiredConfigVersion v b) = (istatus b)\<lparr>desiredConfigVersion := v\<rparr>"
  "imeta (set_provisioningJobs js b) = imeta b" "ispec (set_provisioningJobs js b) = ispec b"
  "istatus (set_provisioningJobs js b) = (istatus b)\<lparr>provisioningJobs := js\<rparr>"
  by (simp_all add: set_statusRunStrategy_def set_statusRestartTrigger_def set_desiredConfigVersion_def
      set_provisioningJobs_def)

lemma get_condition_frame [simp]:
  "bmi_GetStatusCondition L t (set_statusRunStrategy s b) = bmi_GetStatusCondition L t b"
  "bmi_GetStatusCondition L t (set_statusRestartTrigger tr b) = bmi_GetStatusCondition L t b"
  "bmi_GetStatusCondition L t (set_desiredConfigVersion v b) = bmi_GetStatusCondition L t b"
  "bmi_GetStatusCondition L t (set_provisioningJobs js b) = bmi_GetStatusCondition L t b"
  by (simp_all add: bmi_GetStatusCondition_def)

lemma restart_done_simps [simp]:
  "imeta (restart_done r b) = imeta b" "ispec (restart_done r b) = ispec b"
  "phase (istatus (restart_done r b)) = phase (istatus b)"
  "statusRestartTrigger (istatus (restart_done r b)) = restartTrigger (ispec b)"
  by (simp_all add: restart_done_def)

lemma sync_frame [simp]:
  "imeta (syncBareMetalInstanceStatus r st e b) = imeta b"
  "ispec (syncBareMetalInstanceStatus r st e b) = ispec b"
  "statusRestartTrigger (istatus (syncBareMetalInstanceStatus r st e b)) = statusRestartTrigger (istatus b)"
  by (auto simp: syncBareMetalInstanceStatus_def Let_def split: option.split)

text \<open>
  What the Kubernetes API keeps of an object that a client writes: identity, spec and the metadata
  the controller uses.
\<close>

definition same_object :: "bmi \<Rightarrow> bmi \<Rightarrow> bool" where
  "same_object b b' \<longleftrightarrow> ispec b' = ispec b \<and> objUID (imeta b') = objUID (imeta b) \<and>
     objName (imeta b') = objName (imeta b) \<and> objNamespace (imeta b') = objNamespace (imeta b) \<and>
     finalizers (imeta b') = finalizers (imeta b) \<and> ownerReferences (imeta b') = ownerReferences (imeta b) \<and>
     deletionTimestamp (imeta b') = deletionTimestamp (imeta b)"

definition bmi_api_laws :: "('p, 'w) bmi_reconciler \<Rightarrow> bool" where
  "bmi_api_laws r \<longleftrightarrow> (\<forall>b w b' w'. rUpdate r b w = (Inr b', w') \<longrightarrow> same_object b b')"

lemma bmi_Update_ok: "bmi_api_laws r \<Longrightarrow> rUpdate r b w = (Inr b', w') \<Longrightarrow> same_object b b'"
  unfolding bmi_api_laws_def by metis

end
