(* ===== verification/Instance_Properties.thy ===== *)
theory Instance_Properties
  imports Instance_Controller Inventory_Metal3 Inventory_OpenStack
begin

text \<open>
  What the BareMetalInstance controller does right, and in three places wrong: the host locks it
  takes and returns, the requests it sends to the backends (labels, match expressions, power
  targets, restarts), when an instance is reported allocated or ready, and the order of the cleanup.
\<close>

section \<open>Locks\<close>

lemma critical_section:
  assumes "TryLock h l = (True, l1)"
  shows "held (Unlock h l1) = held l" and "fatal (Unlock h l1) = fatal l"
  using hostlock.bracket[of h l l1] assms by simp_all

lemma failed_TryLock:
  assumes "TryLock h l = (False, l1)"
  shows "held l1 = held l" and "fatal l1 = fatal l"
  using hostlock.busy_is_noop[of h l] TryLock_pair[OF assms] by auto

definition same_locks :: "'w proc \<Rightarrow> 'w proc \<Rightarrow> bool" where
  "same_locks p q \<longleftrightarrow> held (plocks q) = held (plocks p) \<and> fatal (plocks q) = fatal (plocks p)"

lemma same_locks_refl [simp]: "same_locks p p" "same_locks p (p\<lparr>pworld := w\<rparr>)"
  "same_locks (p\<lparr>pworld := w\<rparr>) q = same_locks p q" "same_locks p (q\<lparr>pworld := w\<rparr>) = same_locks p q"
  by (simp_all add: same_locks_def)

lemma same_locks_section:
  "TryLock h (plocks p) = (True, l) \<Longrightarrow> same_locks p \<lparr>plocks = Unlock h l, pworld = w\<rparr>"
  by (simp add: same_locks_def critical_section)

lemma same_locks_failed:
  "TryLock h (plocks p) = (False, l) \<Longrightarrow> same_locks p (p\<lparr>plocks := l\<rparr>)"
  by (simp add: same_locks_def failed_TryLock)

lemma reconcileInventory_locks: "same_locks p (snd (snd (reconcileInventory r b p)))"
  unfolding reconcileInventory_def Let_def
  by (auto split: prod.splits sum.splits intro: same_locks_section same_locks_failed)

lemma handleUpdate_locks: "same_locks p (snd (snd (handleUpdate r b p)))"
  unfolding handleUpdate_def Let_def
  by (auto split: prod.splits simp: reconcileInventory_locks[of p r b, simplified])

lemma inventory_cleanup_locks: "same_locks p (snd (snd (inventory_cleanup r b p)))"
  unfolding inventory_cleanup_def Let_def
  by (auto split: prod.splits intro: same_locks_section same_locks_failed)

lemma handleDeletion_locks: "same_locks p (snd (snd (handleDeletion r b p)))"
  unfolding handleDeletion_def
  using inventory_cleanup_locks[of "p\<lparr>pworld := w\<rparr>" r for w]
  by (auto split: prod.splits option.splits)

lemma Reconcile_locks: "same_locks p (snd (Reconcile r key p))"
proof -
  have "same_locks p p1" if "handleUpdate r b (p\<lparr>pworld := w\<rparr>) = (res, b1, p1)" for b w res b1 p1
    using handleUpdate_locks[of "p\<lparr>pworld := w\<rparr>" r b] that by simp
  moreover have "same_locks p p1" if "handleDeletion r b (p\<lparr>pworld := w\<rparr>) = (res, b1, p1)" for b w res b1 p1
    using handleDeletion_locks[of "p\<lparr>pworld := w\<rparr>" r b] that by simp
  ultimately show ?thesis
    unfolding Reconcile_def Let_def by (auto split: prod.splits sum.splits if_splits)
qed

section \<open>What is asked of the inventory\<close>

lemma map_of_update_if: "map_of (AList.update k v m) x = (if x = k then Some v else map_of m x)"
  by (simp add: update_conv')

lemma map_index_update: "map_index (AList.update k v m) x = (if x = k then v else map_index m x)"
  by (simp add: map_index_def map_of_update_if)

lemma combined_labels_frame:
  "combined_labels (set_bmi_finalizers fs b) = combined_labels b"
  "combined_labels (set_phase ph b) = combined_labels b"
  "combined_labels (set_bmi_condition L t st reason message b) = combined_labels b"
  by (simp_all add: combined_labels_def GetPoolID_def)

lemma combined_labels_lookup:
  assumes "wf_map (entries (inventoryLabels (ispec b)))" and "wf_map (entries (inventoryPersistentLabels (ispec b)))"
  shows "map_of (combined_labels b) k =
    (case (if k = OsacBareMetalPoolIDLabel then GetPoolID b else None) of
       Some poolID \<Rightarrow> Some poolID
     | None \<Rightarrow> (case map_of (entries (inventoryPersistentLabels (ispec b))) k of
         Some v \<Rightarrow> Some v
       | None \<Rightarrow> map_of (entries (inventoryLabels (ispec b))) k))"
  using map_of_maps_Copy[OF assms(1), of "[]"] map_of_maps_Copy[OF assms(2)]
  by (auto simp: combined_labels_def Let_def map_of_update_if map_add_def split: option.split)

lemma wf_combined_labels [simp]: "wf_map (combined_labels b)"
  by (auto simp: combined_labels_def Let_def split: option.split)

lemma labels_to_remove_set:
  "set (labels_to_remove b) = fst ` set (entries (inventoryLabels (ispec b))) \<union>
     (if GetPoolID b = None then {} else {OsacBareMetalPoolIDLabel})"
  by (auto simp: labels_to_remove_def)

section \<open>Properties: locks\<close>

text \<open>A reconciler on a Metal3 inventory whose Kubernetes API accepts every write, for examples.\<close>

definition demo_reconciler :: "(unit, ref_world) bmi_reconciler" where
  "demo_reconciler = \<lparr>rLib = ref_lib, rGet = (\<lambda>k w. (Inr demo_bmi, w)), rUpdate = (\<lambda>b w. (Inr b, w)),
     rStatusUpdate = (\<lambda>b w. (Inr b, w)), rDeepEqual = (=),
     InventoryClient = metal3_inventory_client demo_metal3,
     ManagementClient = \<lparr>GetPowerState = (\<lambda>h w. (Inr (Some \<lparr>powerState = PowerOff, isTransitioning = False\<rparr>), w)),
       SetPowerState = (\<lambda>h t w. (None, w)), TriggerRestart = (\<lambda>h w. (None, w)),
       IsRestartComplete = (\<lambda>h w. (Inr True, w))\<rparr>,
     ProvisioningProvider = Some (), NoFreeHostsPollIntervalDuration = 30, TryLockFailPollIntervalDuration = 1,
     ManagementRecheckIntervalDuration = 10, ProvisionPollIntervalDuration = 60,
     provisioning_DefaultMaxJobHistory = 10,
     ComputeDesiredConfigVersion = (\<lambda>c. Inr ''v1''),
     RunProvisioningLifecycle = (\<lambda>p hooks s. ((no_requeue, None), OnSuccess hooks s)),
     RunDeprovisioningLifecycle = (\<lambda>p hooks s. ((no_requeue, True, None), s)),
     CheckAPIServerForNonTerminalProvisionJob = (\<lambda>k w. (False, w))\<rparr>"

lemma demo_reconciler_simps [simp]:
  "rLib demo_reconciler = ref_lib" "bmi_api_laws demo_reconciler"
  "InventoryClient demo_reconciler = metal3_inventory_client demo_metal3"
  "TryLockFailPollIntervalDuration demo_reconciler = 1"
  by (simp_all add: demo_reconciler_def bmi_api_laws_def same_object_def)

text \<open>The example object with both finalizers and a selected host.\<close>

definition demo_selected :: "string \<Rightarrow> bmi" where
  "demo_selected h = demo_bmi\<lparr>
     imeta := (imeta demo_bmi)\<lparr>finalizers := [BareMetalInstanceInventoryFinalizer, BareMetalInstanceManagementFinalizer]\<rparr>,
     ispec := (ispec demo_bmi)\<lparr>externalHostID := h\<rparr>\<rparr>"

text \<open>C6: However a reconcile of an instance ends, the set of locked hosts is what it was before, and no
  mutex was misused: every host lock the handlers take is released on every path, errors included,
  and no lock held by another reconcile is released.\<close>

theorem reconcile_returns_locks:
  "held (plocks (snd (Reconcile r key p))) = held (plocks p) \<and>
   fatal (plocks (snd (Reconcile r key p))) = fatal (plocks p)"
  using Reconcile_locks[of p r key] by (simp add: same_locks_def)

text \<open>C16: While another reconcile holds the lock of the selected host, neither acquiring nor releasing it
  reaches the inventory or the API: the handler asks to be called again after the configured
  interval and leaves the outside world, the spec and the finalizers as they are.\<close>

theorem locked_host_not_touched:
  assumes "lib_laws (rLib r)" and "externalHostID (ispec b) = h" and "h \<noteq> ''''" and "h \<in> held (plocks p)"
    and "BareMetalInstanceInventoryFinalizer \<in> set (finalizers (imeta b))"
  shows "(\<exists>b' l. reconcileInventory r b p
        = ((requeue_after (TryLockFailPollIntervalDuration r), None), b', p\<lparr>plocks := l\<rparr>) \<and>
          ispec b' = ispec b \<and> imeta b' = imeta b) \<and>
    (\<exists>b' l. inventory_cleanup r b p
        = ((requeue_after (TryLockFailPollIntervalDuration r), None), b', p\<lparr>plocks := l\<rparr>) \<and> b' = b)"
proof -
  obtain l where l: "TryLock h (plocks p) = (False, l)"
    using hostlock.busy_is_noop[OF assms(4)] by (cases "TryLock h (plocks p)") auto
  have add: "AddFinalizer (rLib r) (finalizers (imeta b)) BareMetalInstanceInventoryFinalizer
      = (finalizers (imeta b), False)"
    using assms(1,5) by (simp add: prod_eq_iff)
  have con: "ContainsFinalizer (rLib r) (finalizers (imeta b)) BareMetalInstanceInventoryFinalizer"
    using assms(1,5) by simp
  show ?thesis
    by (simp add: reconcileInventory_def inventory_cleanup_def add con assms(2,3) l) blast
qed

theorem locked_host_not_touched_witness:
  "\<exists>b' l. inventory_cleanup demo_reconciler (demo_selected ''metal/b'')
       \<lparr>plocks = snd (TryLock ''metal/b'' no_locks), pworld = demo_bmhs\<rparr>
     = ((requeue_after 1, None), b', \<lparr>plocks = l, pworld = demo_bmhs\<rparr>)"
proof -
  let ?p = "\<lparr>plocks = snd (TryLock ''metal/b'' no_locks), pworld = demo_bmhs\<rparr>"
  have "lib_laws (rLib demo_reconciler)" by (simp add: ref_lib_laws)
  moreover have "externalHostID (ispec (demo_selected ''metal/b'')) = ''metal/b''" by (simp add: demo_selected_def)
  moreover have "''metal/b'' \<noteq> ''''" "''metal/b'' \<in> held (plocks ?p)" by (simp_all add: TryLock_held)
  moreover have "BareMetalInstanceInventoryFinalizer \<in> set (finalizers (imeta (demo_selected ''metal/b'')))"
    by (simp add: demo_selected_def)
  ultimately have "\<exists>b' l. inventory_cleanup demo_reconciler (demo_selected ''metal/b'') ?p
      = ((requeue_after (TryLockFailPollIntervalDuration demo_reconciler), None), b', ?p\<lparr>plocks := l\<rparr>) \<and>
        b' = demo_selected ''metal/b''"
    by (rule locked_host_not_touched[THEN conjunct2])
  then show ?thesis by auto
qed

section \<open>Properties: requests to the inventory\<close>

text \<open>A search asks for the instance's host type, whatever the selector says of that key, and for the
  default managing party and provision state where the selector gives none or an empty one; every
  other key of the selector is passed on.\<close>

theorem match_expressions_lookup:
  "map_of (match_expressions b) k =
    (if k = ''hostType'' then Some (hostType (ispec b))
     else if k = ''managedBy'' \<and> map_index (entries (hostSelector (ispec b))) k = '''' then Some ''baremetal''
     else if k = ''provisionState'' \<and> map_index (entries (hostSelector (ispec b))) k = '''' then Some ''available''
     else map_of (entries (hostSelector (ispec b))) k)"
  by (cases "k = ''managedBy''"; cases "k = ''provisionState''")
    (simp_all add: match_expressions_def Let_def map_of_update_if map_index_update)

text \<open>The labels of an assignment are the instance's persistent and non-persistent labels, the
  persistent value deciding where a key is in both, with the owning pool's ID put last so that
  neither can replace it.\<close>

theorem assignment_labels:
  assumes "wf_map (entries (inventoryLabels (ispec b)))" and "wf_map (entries (inventoryPersistentLabels (ispec b)))"
  shows "map_of (combined_labels b) k =
    (case (if k = ''bareMetalPoolId'' then GetPoolID b else None) of
       Some poolID \<Rightarrow> Some poolID
     | None \<Rightarrow> (case map_of (entries (inventoryPersistentLabels (ispec b))) k of
         Some v \<Rightarrow> Some v
       | None \<Rightarrow> map_of (entries (inventoryLabels (ispec b))) k))"
  using combined_labels_lookup[OF assms] by simp

definition demo_labelled :: bmi where
  "demo_labelled = demo_bmi\<lparr>ispec := (ispec demo_bmi)\<lparr>inventoryLabels := Some [(''rack'', ''r1''), (''job'', ''j'')],
     inventoryPersistentLabels := Some [(''rack'', ''r2''), (''owner'', ''o'')]\<rparr>\<rparr>"

theorem assignment_labels_witness:
  "map_of (combined_labels demo_labelled) ''rack'' = Some ''r2'' \<and>
   map_of (combined_labels demo_labelled) ''job'' = Some ''j''"
proof -
  have "wf_map (entries (inventoryLabels (ispec demo_labelled)))"
    "wf_map (entries (inventoryPersistentLabels (ispec demo_labelled)))" by (simp_all add: demo_labelled_def)
  note look = assignment_labels[OF this]
  show ?thesis unfolding look by (simp add: demo_labelled_def)
qed

text \<open>C39: A persistent label whose key is also a non-persistent one is not persistent: the assignment
  stores the persistent value, and the release of the host removes it, because the keys to remove
  are those of the non-persistent labels. A key only in the persistent labels is kept. (Metal3
  inventory, no other writer.)\<close>

theorem overriding_persistent_label_is_removed:
  assumes "bmh_laws (m3client m) store (=)" and "ParseHostID h = Inr k"
    and "wf_map (entries (inventoryLabels (ispec b)))" and "wf_map (entries (inventoryPersistentLabels (ispec b)))"
    and "metal3_AssignHost m h c (combined_labels b) w = (Inr (Some x), w1)"
    and "metal3_UnassignHost m h (labels_to_remove b) w1 = (None, w2)"
    and "map_of (entries (inventoryPersistentLabels (ispec b))) key = Some v" and "key \<noteq> ''bareMetalPoolId''"
  shows "\<exists>o1 o2. store w1 k = Some o1 \<and> store w2 k = Some o2 \<and>
    map_of (entries (bmhLabels o1)) (metal3Label key) = Some v \<and>
    map_of (entries (bmhLabels o2)) (metal3Label key) =
      (if map_of (entries (inventoryLabels (ispec b))) key = None then Some v else None)"
proof -
  obtain o0 o1 where a: "written (assigned_bmh c (combined_labels b) o0) o1" "store w1 = (store w)(k \<mapsto> o1)"
    using metal3_assign_effect[OF assms(1,5)] assms(2) by (metis sum.inject(2))
  obtain o2 where u: "written (unassigned_bmh (labels_to_remove b) o1) o2" "store w2 k = Some o2"
    using metal3_unassign_effect[OF assms(1,6)] assms(2) a(2) by (metis sum.inject(2) fun_upd_same option.inject)
  have "map_of (combined_labels b) key = Some v"
    using combined_labels_lookup[OF assms(3,4), of key] assms(7,8) by simp
  then have o1: "map_of (entries (bmhLabels o1)) (metal3Label key) = Some v"
    by (rule labels_of_assigned(1)[OF a(1) wf_combined_labels])
  have "metal3Label key \<in> metal3Label ` set (labels_to_remove b) \<longleftrightarrow>
      map_of (entries (inventoryLabels (ispec b))) key \<noteq> None"
    using assms(8) inj_image_mem_iff[OF inj_metal3Label, of key "set (labels_to_remove b)"]
    by (auto simp: labels_to_remove_set map_of_eq_None_iff)
  then show ?thesis using a(2) u(2) o1 labels_of_unassigned[OF u(1), of "metal3Label key"] by auto
qed

definition demo_overridden :: bmi where
  "demo_overridden = demo_bmi\<lparr>imeta := (imeta demo_bmi)\<lparr>ownerReferences := []\<rparr>,
     ispec := (ispec demo_bmi)\<lparr>inventoryLabels := Some [(''rack'', ''r1'')],
       inventoryPersistentLabels := Some [(''rack'', ''r2'')]\<rparr>\<rparr>"

theorem overriding_persistent_label_is_removed_witness:
  "\<exists>x w1 w2 o2. metal3_AssignHost demo_metal3 ''metal/b'' ''uid-2'' (combined_labels demo_overridden) demo_bmhs = (Inr (Some x), w1) \<and>
     metal3_UnassignHost demo_metal3 ''metal/b'' (labels_to_remove demo_overridden) w1 = (None, w2) \<and>
     ref_store w2 (''metal'', ''b'') = Some o2 \<and> map_of (entries (bmhLabels o2)) (metal3Label ''rack'') = None"
proof -
  have pool: "GetPoolID demo_overridden = None" by (simp add: GetPoolID_def demo_overridden_def)
  have labels: "combined_labels demo_overridden = [(''rack'', ''r2'')]" "labels_to_remove demo_overridden = [''rack'']"
    unfolding combined_labels_def labels_to_remove_def pool by (simp_all add: demo_overridden_def)
  obtain x w1 where a': "metal3_AssignHost demo_metal3 ''metal/b'' ''uid-2'' [(''rack'', ''r2'')] demo_bmhs
      = (Inr (Some x), w1)"
    by (simp add: demo_metal3_eval)
  then obtain w2 where u': "metal3_UnassignHost demo_metal3 ''metal/b'' [''rack''] w1 = (None, w2)"
    by (auto simp: demo_metal3_eval)
  note a = a'[folded labels] and u = u'[folded labels]
  have "wf_map (entries (inventoryLabels (ispec demo_overridden)))"
    "wf_map (entries (inventoryPersistentLabels (ispec demo_overridden)))"
    "map_of (entries (inventoryPersistentLabels (ispec demo_overridden))) ''rack'' = Some ''r2''"
    "map_of (entries (inventoryLabels (ispec demo_overridden))) ''rack'' = Some ''r1''"
    by (simp_all add: demo_overridden_def)
  then obtain o2 where "ref_store w2 (''metal'', ''b'') = Some o2"
    "map_of (entries (bmhLabels o2)) (metal3Label ''rack'') = None"
    using overriding_persistent_label_is_removed[OF demo_metal3_laws ParseHostID_demo(2) _ _ a u, of "''rack''" "''r2''"]
    by auto
  then show ?thesis using a u by blast
qed

section \<open>Power and readiness\<close>

definition wanted_state :: "bmi \<Rightarrow> power_state" where
  "wanted_state b = (if runStrategy (ispec b) = RunStrategyAlways then PowerOn else PowerOff)"

lemma known_state_on_iff:
  "known_state s \<Longrightarrow> s = wanted_state b \<longleftrightarrow> (runStrategy (ispec b) = RunStrategyAlways) = (s = PowerOn)"
  by (auto simp: known_state_def wanted_state_def)

definition status_of :: "('p, 'w) bmi_reconciler \<Rightarrow> bmi_condition_type \<Rightarrow> bmi \<Rightarrow> condition_status option" where
  "status_of r t b = map_option cStatus (bmi_GetStatusCondition (rLib r) t b)"

lemma status_of_cond [simp]:
  "lib_laws (rLib r) \<Longrightarrow> status_of r t (cond r u s reason m b) = (if t = u then Some s else status_of r t b)"
  using bmi_conds.status_after_set(1)[of "rLib r" u s reason m b] bmi_get_set_other[of "rLib r" t u s reason m b]
  by (simp add: status_of_def)

lemma status_of_frame [simp]:
  "status_of r t (set_phase ph b) = status_of r t b"
  "status_of r t (set_bmi_finalizers fs b) = status_of r t b"
  "status_of r t (set_statusRunStrategy s b) = status_of r t b"
  "status_of r t (set_statusRestartTrigger tr b) = status_of r t b"
  by (simp_all add: status_of_def)

text \<open>What publishing a status sets.\<close>

lemma sync_statusRunStrategy:
  "statusRunStrategy (istatus (syncBareMetalInstanceStatus r (Some st) None b)) =
     (if powerState st = PowerOn then RunStrategyAlways else RunStrategyHalted)"
  by (simp add: syncBareMetalInstanceStatus_def Let_def)

lemma sync_power_synced:
  assumes "lib_laws (rLib r)"
  shows "status_of r HostConditionPowerSynced (syncBareMetalInstanceStatus r (Some st) None b) = Some
    (if isTransitioning st \<or> runStrategy (ispec b) \<noteq> RunStrategyUnspecified \<and>
          runStrategy (ispec b) \<noteq> (if powerState st = PowerOn then RunStrategyAlways else RunStrategyHalted)
     then ConditionFalse else ConditionTrue)"
  unfolding syncBareMetalInstanceStatus_def Let_def by (simp add: assms)

lemma sync_other_condition:
  "lib_laws (rLib r) \<Longrightarrow> t \<noteq> HostConditionPowerSynced \<Longrightarrow>
     bmi_GetStatusCondition (rLib r) t (syncBareMetalInstanceStatus r st e b) = bmi_GetStatusCondition (rLib r) t b"
  by (auto simp: syncBareMetalInstanceStatus_def Let_def bmi_get_set_other split: option.split)

lemma conclude_power_cases:
  assumes "conclude_power r prev again st b = (res, b')"
  shows "(let s = syncBareMetalInstanceStatus r (Some st) None b in
     res = ok_done \<and> b' = set_phase BareMetalInstancePhaseReady s \<and>
     (runStrategy (ispec b) \<noteq> RunStrategyUnspecified \<longrightarrow> prev \<and> \<not> again \<and> \<not> isTransitioning st \<and>
        (runStrategy (ispec b) = RunStrategyAlways) = (powerState st = PowerOn)) \<or>
     res = (requeue_after (ManagementRecheckIntervalDuration r), None) \<and>
     b' = set_phase BareMetalInstancePhaseProgressing s)"
  using assms by (auto simp: conclude_power_def Let_def split: if_splits)

lemma read_power_Inr:
  "read_power r b w = (Inr st, w') \<longleftrightarrow>
     GetPowerState (ManagementClient r) (externalHostID (ispec b)) w = (Inr (Some st), w')"
  by (auto simp: read_power_def split: prod.splits sum.splits option.splits)

lemma sync_error_phase:
  "phase (istatus (syncBareMetalInstanceStatus r None (Some e) b)) = BareMetalInstancePhaseFailed"
  by (simp add: syncBareMetalInstanceStatus_def)

text \<open>The last status read before the phase becomes Ready, and what the object says then.\<close>

lemma power_state_ready:
  assumes "lib_laws (rLib r)" and "reconcile_power_state r prev b w = (res, b', w')"
    and "phase (istatus b') = BareMetalInstancePhaseReady"
  shows "res = ok_done" and "ispec b' = ispec b"
    and "statusRestartTrigger (istatus b') = statusRestartTrigger (istatus b)"
    and "t \<noteq> HostConditionPowerSynced \<Longrightarrow> bmi_GetStatusCondition (rLib r) t b' = bmi_GetStatusCondition (rLib r) t b"
    and "\<exists>st v. GetPowerState (ManagementClient r) (externalHostID (ispec b)) v = (Inr (Some st), w') \<and>
      statusRunStrategy (istatus b') = (if powerState st = PowerOn then RunStrategyAlways else RunStrategyHalted) \<and>
      (runStrategy (ispec b) \<noteq> RunStrategyUnspecified \<longrightarrow> prev \<and> \<not> isTransitioning st \<and>
         statusRunStrategy (istatus b') = runStrategy (ispec b) \<and>
         status_of r HostConditionPowerSynced b' = Some ConditionTrue)"
proof -
  from assms(2,3) obtain st v again where read: "read_power r b v = (Inr st, w')"
    and fin: "conclude_power r prev again st b = (res, b')"
    by (auto simp: reconcile_power_state_def sync_error_phase split: prod.splits sum.splits if_splits)
  let ?s = "syncBareMetalInstanceStatus r (Some st) None b"
  have ready: "res = ok_done" "b' = set_phase BareMetalInstancePhaseReady ?s"
    "runStrategy (ispec b) \<noteq> RunStrategyUnspecified \<Longrightarrow> prev \<and> \<not> isTransitioning st \<and>
       (runStrategy (ispec b) = RunStrategyAlways) = (powerState st = PowerOn)"
    using conclude_power_cases[OF fin] assms(3) by (auto simp: Let_def)
  show "res = ok_done" "ispec b' = ispec b" "statusRestartTrigger (istatus b') = statusRestartTrigger (istatus b)"
    using ready(1,2) by simp_all
  show "t \<noteq> HostConditionPowerSynced \<Longrightarrow> bmi_GetStatusCondition (rLib r) t b' = bmi_GetStatusCondition (rLib r) t b"
    using ready(2) sync_other_condition[OF assms(1)] by simp
  have run: "runStrategy (ispec b) \<noteq> RunStrategyUnspecified \<Longrightarrow>
      (if powerState st = PowerOn then RunStrategyAlways else RunStrategyHalted) = runStrategy (ispec b)"
    using ready(3) by (cases "runStrategy (ispec b)") auto
  show "\<exists>st v. GetPowerState (ManagementClient r) (externalHostID (ispec b)) v = (Inr (Some st), w') \<and>
      statusRunStrategy (istatus b') = (if powerState st = PowerOn then RunStrategyAlways else RunStrategyHalted) \<and>
      (runStrategy (ispec b) \<noteq> RunStrategyUnspecified \<longrightarrow> prev \<and> \<not> isTransitioning st \<and>
         statusRunStrategy (istatus b') = runStrategy (ispec b) \<and>
         status_of r HostConditionPowerSynced b' = Some ConditionTrue)"
    using read[unfolded read_power_Inr] ready(2,3) run sync_power_synced[OF assms(1), of st b]
      sync_statusRunStrategy[of r st b]
    by (intro exI[of _ st] exI[of _ v]) auto
qed

text \<open>The restart part, when it lets the reconcile go on.\<close>

lemma restart_continues:
  assumes "lib_laws (rLib r)" and "0 < ManagementRecheckIntervalDuration r" and "reconcileRestartTrigger r b w = ((result, None), b1, w1)"
    and "result_IsZero (rLib r) result"
  shows "ispec b1 = ispec b" and "statusRestartTrigger (istatus b1) = restartTrigger (ispec b)"
    and "t \<noteq> HostConditionPowerSynced \<Longrightarrow> bmi_GetStatusCondition (rLib r) t b1 = bmi_GetStatusCondition (rLib r) t b"
  using assms
  by (auto simp: reconcileRestartTrigger_def triggerRestart_def restart_done_def bmi_get_set_other
      split: if_splits prod.splits sum.splits option.splits)

lemma restart_and_power_ready:
  assumes "lib_laws (rLib r)" and "0 < ManagementRecheckIntervalDuration r"
    and "reconcile_restart_and_power r b w = (res, b', w')" and "phase (istatus b') = BareMetalInstancePhaseReady"
  shows "res = ok_done" and "ispec b' = ispec b" and "statusRestartTrigger (istatus b') = restartTrigger (ispec b)"
    and "t \<noteq> HostConditionPowerSynced \<Longrightarrow> bmi_GetStatusCondition (rLib r) t b' = bmi_GetStatusCondition (rLib r) t b"
    and "\<exists>st v. GetPowerState (ManagementClient r) (externalHostID (ispec b)) v = (Inr (Some st), w') \<and>
      statusRunStrategy (istatus b') = (if powerState st = PowerOn then RunStrategyAlways else RunStrategyHalted) \<and>
      (runStrategy (ispec b) \<noteq> RunStrategyUnspecified \<longrightarrow>
         status_of r HostConditionPowerSynced b \<noteq> Some ConditionFalse \<and> \<not> isTransitioning st \<and>
         statusRunStrategy (istatus b') = runStrategy (ispec b) \<and>
         status_of r HostConditionPowerSynced b' = Some ConditionTrue)"
proof -
  define prev where "prev = (case bmi_GetStatusCondition (rLib r) HostConditionPowerSynced b of
      None \<Rightarrow> True | Some c \<Rightarrow> cStatus c = ConditionTrue)"
  from assms(3,4) obtain result b1 w1 where re: "reconcileRestartTrigger r b w = ((result, None), b1, w1)"
    "result_IsZero (rLib r) result" and ps: "reconcile_power_state r prev b1 w1 = (res, b', w')"
    by (auto simp: reconcile_restart_and_power_def prev_def Let_def split: prod.splits if_splits)
  note a = restart_continues[OF assms(1,2) re] and p = power_state_ready[OF assms(1) ps assms(4)]
  show "res = ok_done" "ispec b' = ispec b" "statusRestartTrigger (istatus b') = restartTrigger (ispec b)"
    using p(1-3) a(1,2) by simp_all
  show "t \<noteq> HostConditionPowerSynced \<Longrightarrow> bmi_GetStatusCondition (rLib r) t b' = bmi_GetStatusCondition (rLib r) t b"
    using p(4) a(3) by simp
  have "prev \<Longrightarrow> status_of r HostConditionPowerSynced b \<noteq> Some ConditionFalse"
    by (auto simp: prev_def status_of_def)
  then show "\<exists>st v. GetPowerState (ManagementClient r) (externalHostID (ispec b)) v = (Inr (Some st), w') \<and>
      statusRunStrategy (istatus b') = (if powerState st = PowerOn then RunStrategyAlways else RunStrategyHalted) \<and>
      (runStrategy (ispec b) \<noteq> RunStrategyUnspecified \<longrightarrow>
         status_of r HostConditionPowerSynced b \<noteq> Some ConditionFalse \<and> \<not> isTransitioning st \<and>
         statusRunStrategy (istatus b') = runStrategy (ispec b) \<and>
         status_of r HostConditionPowerSynced b' = Some ConditionTrue)"
    using p(5) a(1) by auto
qed

text \<open>Where a management reconcile reaches its second part.\<close>

lemma management_ready_path:
  assumes "lib_laws (rLib r)" and "reconcileManagement r b w = (res, b', w')"
    and "phase (istatus b') = BareMetalInstancePhaseReady"
  obtains b1 w1 where "reconcile_restart_and_power r b1 w1 = (res, b', w')"
    "uses_template b \<longrightarrow> status_of r HostConditionProvisionTemplateComplete b1 \<in> {None, Some ConditionTrue}"
proof (cases "uses_template b")
  case False
  then have "\<exists>fs. reconcile_restart_and_power r (set_bmi_finalizers fs b) w = (res, b', w')"
    using assms by (auto simp: reconcileManagement_def uses_template_def Let_def split: prod.splits sum.splits if_splits)
  then show thesis using that False by blast
next
  case True
  then have "uses_template (set_bmi_finalizers fs b)" for fs by (simp add: uses_template_def)
  with assms(2,3) obtain b1 w1 where "reconcile_restart_and_power r b1 w1 = (res, b', w')"
    and c: "\<not> (case bmi_GetStatusCondition (rLib r) HostConditionProvisionTemplateComplete b1 of
      None \<Rightarrow> False | Some c \<Rightarrow> cStatus c \<noteq> ConditionTrue)"
    by (auto simp: reconcileManagement_def Let_def split: prod.splits sum.splits if_splits option.splits)
  moreover have "status_of r HostConditionProvisionTemplateComplete b1 \<in> {None, Some ConditionTrue}"
    using c by (auto simp: status_of_def split: option.splits)
  ultimately show thesis using that by blast
qed

text \<open>C8: A management reconcile that leaves an instance in phase Ready returned no error and no
  requeue; the last restart request is acknowledged; where a template is in use its provisioning is
  not reported incomplete; and the last power status read is the one published. Where a run strategy
  is set, that status was steady and equal to the strategy, power is reported as synced, and it was
  not reported as out of sync when the power reconciliation began (the guard against stale reads).\<close>

theorem ready_is_earned:
  assumes "lib_laws (rLib r)" and "0 < ManagementRecheckIntervalDuration r"
    and "reconcileManagement r b w = (res, b', w')" and "phase (istatus b') = BareMetalInstancePhaseReady"
  shows "res = ok_done \<and> statusRestartTrigger (istatus b') = restartTrigger (ispec b') \<and>
    (uses_template b \<longrightarrow> status_of r HostConditionProvisionTemplateComplete b' \<in> {None, Some ConditionTrue}) \<and>
    (\<exists>st v b1 w1. reconcile_restart_and_power r b1 w1 = (res, b', w') \<and>
      GetPowerState (ManagementClient r) (externalHostID (ispec b')) v = (Inr (Some st), w') \<and>
      statusRunStrategy (istatus b') = (if powerState st = PowerOn then RunStrategyAlways else RunStrategyHalted) \<and>
      (runStrategy (ispec b') \<noteq> RunStrategyUnspecified \<longrightarrow>
         statusRunStrategy (istatus b') = runStrategy (ispec b') \<and> \<not> isTransitioning st \<and>
         status_of r HostConditionPowerSynced b' = Some ConditionTrue \<and>
         status_of r HostConditionPowerSynced b1 \<noteq> Some ConditionFalse))"
proof -
  obtain b1 w1 where run: "reconcile_restart_and_power r b1 w1 = (res, b', w')"
    and tmpl: "uses_template b \<longrightarrow> status_of r HostConditionProvisionTemplateComplete b1 \<in> {None, Some ConditionTrue}"
    by (rule management_ready_path[OF assms(1,3,4)])
  note p = restart_and_power_ready[OF assms(1,2) run assms(4)]
  have "status_of r HostConditionProvisionTemplateComplete b' = status_of r HostConditionProvisionTemplateComplete b1"
    using p(4) by (simp add: status_of_def)
  with tmpl have "uses_template b \<longrightarrow>
      status_of r HostConditionProvisionTemplateComplete b' \<in> {None, Some ConditionTrue}" by simp
  moreover from p(5) obtain st v where
    "GetPowerState (ManagementClient r) (externalHostID (ispec b1)) v = (Inr (Some st), w')"
    "statusRunStrategy (istatus b') = (if powerState st = PowerOn then RunStrategyAlways else RunStrategyHalted)"
    "runStrategy (ispec b1) \<noteq> RunStrategyUnspecified \<longrightarrow>
         status_of r HostConditionPowerSynced b1 \<noteq> Some ConditionFalse \<and> \<not> isTransitioning st \<and>
         statusRunStrategy (istatus b') = runStrategy (ispec b1) \<and>
         status_of r HostConditionPowerSynced b' = Some ConditionTrue" by blast
  ultimately show ?thesis using p(1,3) run unfolding p(2)
    by (intro conjI exI[of _ st] exI[of _ v] exI[of _ b1] exI[of _ w1]) simp_all
qed

text \<open>An instance whose host is assigned and which asks to be powered off.\<close>

definition demo_halted :: bmi where
  "demo_halted = (demo_selected ''metal/b'')\<lparr>
     ispec := (ispec (demo_selected ''metal/b''))\<lparr>hostClass := ''metal3'', runStrategy := RunStrategyHalted\<rparr>\<rparr>"

theorem ready_is_earned_witness:
  "\<exists>res b' w'. reconcileManagement demo_reconciler demo_halted demo_bmhs = (res, b', w') \<and>
     phase (istatus b') = BareMetalInstancePhaseReady \<and> statusRunStrategy (istatus b') = RunStrategyHalted"
proof -
  obtain res b' w' where run: "reconcileManagement demo_reconciler demo_halted demo_bmhs = (res, b', w')"
    by (rule prod_cases3)
  have "phase (istatus (fst (snd (reconcileManagement demo_reconciler demo_halted demo_bmhs)))) = BareMetalInstancePhaseReady"
    "ispec (fst (snd (reconcileManagement demo_reconciler demo_halted demo_bmhs))) = ispec demo_halted"
    by (simp_all add: reconcileManagement_def demo_reconciler_def demo_halted_def demo_selected_def demo_bmi_def
        ref_lib_def uses_template_def reconcile_restart_and_power_def reconcileRestartTrigger_def
        reconcile_power_state_def read_power_def reconcilePower_def conclude_power_def Let_def
        bmi_GetStatusCondition_def set_bmi_finalizers_def)
  then have ph: "phase (istatus b') = BareMetalInstancePhaseReady" and sp: "ispec b' = ispec demo_halted"
    using run by simp_all
  have "lib_laws (rLib demo_reconciler)" "0 < ManagementRecheckIntervalDuration demo_reconciler"
    by (simp_all add: ref_lib_laws, simp add: demo_reconciler_def)
  from ready_is_earned[OF this run ph] sp have "statusRunStrategy (istatus b') = RunStrategyHalted"
    by (auto simp: demo_halted_def)
  then show ?thesis using run ph by blast
qed

text \<open>Power is driven one way only. While the host is in transition, or is in the wanted state, no
  request is made; otherwise exactly one request is made, for the wanted state; a refusal because a
  transition is under way is not an error but asks for another look, and any other refusal is the
  error returned.\<close>

theorem power_request_cases:
  assumes "known_state (powerState st)"
  shows "reconcilePower r b st w =
    (if isTransitioning st then (Inr True, w)
     else if powerState st = wanted_state b then (Inr False, w)
     else (case SetPowerState (ManagementClient r) (externalHostID (ispec b)) (wanted_state b) w of
             (None, w') \<Rightarrow> (Inr True, w')
           | (Some err, w') \<Rightarrow> (if errors_Is err ErrTransitioning then Inr True else Inl err, w')))"
  using known_state_on_iff[OF assms, of b]
  by (auto simp: reconcilePower_def wanted_state_def Let_def split: prod.split option.split)

theorem power_request_cases_witness:
  "reconcilePower demo_reconciler demo_halted \<lparr>powerState = PowerOff, isTransitioning = False\<rparr> demo_bmhs = (Inr False, demo_bmhs)"
  using power_request_cases[of "\<lparr>powerState = PowerOff, isTransitioning = False\<rparr>" demo_reconciler demo_halted demo_bmhs]
  by (simp add: known_state_def wanted_state_def demo_halted_def)

section \<open>Restarts\<close>

text \<open>A backend that differs from another one at most in how it restarts a host.\<close>

definition with_restart ::
    "('p, 'w) bmi_reconciler \<Rightarrow> (string \<Rightarrow> 'w \<Rightarrow> go_error option \<times> 'w) \<Rightarrow> ('p, 'w) bmi_reconciler" where
  "with_restart r f = r\<lparr>ManagementClient := (ManagementClient r)\<lparr>TriggerRestart := f\<rparr>\<rparr>"

lemma with_restart_simps [simp]:
  "rLib (with_restart r f) = rLib r"
  "IsRestartComplete (ManagementClient (with_restart r f)) = IsRestartComplete (ManagementClient r)"
  "ManagementRecheckIntervalDuration (with_restart r f) = ManagementRecheckIntervalDuration r"
  "restart_done (with_restart r f) b = restart_done r b"
  by (simp_all add: with_restart_def restart_done_def)

text \<open>No restart is requested from the backend when the trigger has not changed, or when the
  instance is to be halted (whatever the backend's restart operation would do, the outcome is the
  same, and the world is not touched); in the halted case the trigger is acknowledged at once.\<close>

theorem no_restart_when_unchanged_or_halted:
  assumes "restartTrigger (ispec b) = statusRestartTrigger (istatus b) \<or> runStrategy (ispec b) = RunStrategyHalted"
  shows "\<exists>b'. reconcileRestartTrigger (with_restart r f) b w = (ok_done, b', w) \<and> ispec b' = ispec b \<and>
    reconcileRestartTrigger r b w = (ok_done, b', w) \<and> statusRestartTrigger (istatus b') = restartTrigger (ispec b)"
  using assms by (auto simp: reconcileRestartTrigger_def)

theorem no_restart_when_unchanged_or_halted_witness:
  "\<exists>b'. reconcileRestartTrigger demo_reconciler (demo_halted\<lparr>ispec := (ispec demo_halted)\<lparr>restartTrigger := 7\<rparr>\<rparr>) demo_bmhs
     = (ok_done, b', demo_bmhs) \<and> statusRestartTrigger (istatus b') = 7"
  using no_restart_when_unchanged_or_halted[of "demo_halted\<lparr>ispec := (ispec demo_halted)\<lparr>restartTrigger := 7\<rparr>\<rparr>"
      demo_reconciler "TriggerRestart (ManagementClient demo_reconciler)" demo_bmhs]
  by (auto simp: demo_halted_def)

text \<open>What the restart handler takes for a restart that is under way.\<close>

definition restart_pending :: "('p, 'w) bmi_reconciler \<Rightarrow> bmi \<Rightarrow> bool" where
  "restart_pending r b \<longleftrightarrow> (\<exists>c. bmi_GetStatusCondition (rLib r) HostConditionPowerSynced b = Some c \<and>
     cStatus c = ConditionFalse \<and> cReason c = HostConditionReasonProgressing)"

lemma restart_pending_cond:
  assumes "lib_laws (rLib r)"
  shows "restart_pending r (cond r HostConditionPowerSynced s reason m b) \<longleftrightarrow>
    s = ConditionFalse \<and> reason = HostConditionReasonProgressing"
  using bmi_get_set[OF assms, of HostConditionPowerSynced s reason m b] by (auto simp: restart_pending_def)

text \<open>The handler on a changed trigger, case by case.\<close>

lemma restart_halted:
  assumes "restartTrigger (ispec b) \<noteq> statusRestartTrigger (istatus b)" and "runStrategy (ispec b) = RunStrategyHalted"
  shows "\<exists>text. reconcileRestartTrigger r b w = (ok_done, cond r HostConditionPowerSynced ConditionTrue ''Completed'' text
    (set_statusRestartTrigger (restartTrigger (ispec b)) b), w)"
  using assms by (auto simp: reconcileRestartTrigger_def)

lemma restart_checked:
  assumes "restartTrigger (ispec b) \<noteq> statusRestartTrigger (istatus b)" and "runStrategy (ispec b) \<noteq> RunStrategyHalted"
    and "restart_pending r b" and "IsRestartComplete (ManagementClient r) (externalHostID (ispec b)) w = (x, w1)"
  shows "reconcileRestartTrigger r b w =
    (case x of
       Inl err \<Rightarrow> (failed_with err, cond r HostConditionPowerSynced ConditionFalse HostConditionReasonPowerSyncFailed
         (''Failed to check restart completion: '' @ error_text err) b, w1)
     | Inr True \<Rightarrow> (ok_done, restart_done r b, w1)
     | Inr False \<Rightarrow> ((requeue_after (ManagementRecheckIntervalDuration r), None), b, w1))"
  using assms by (auto simp: reconcileRestartTrigger_def restart_pending_def split: sum.split bool.split)

lemma restart_requested:
  assumes "lib_laws (rLib r)" and "0 < ManagementRecheckIntervalDuration r"
    and "restartTrigger (ispec b) \<noteq> statusRestartTrigger (istatus b)" and "runStrategy (ispec b) \<noteq> RunStrategyHalted"
    and "\<not> restart_pending r b" and "TriggerRestart (ManagementClient r) (externalHostID (ispec b)) w = (e, w1)"
  shows "\<exists>reason text. reconcileRestartTrigger r b w =
    ((case e of
        None \<Rightarrow> (requeue_after (ManagementRecheckIntervalDuration r), None)
      | Some err \<Rightarrow> if errors_Is err ErrTransitioning then (requeue_after (ManagementRecheckIntervalDuration r), None)
          else failed_with (ErrorWrap ''failed to trigger restart'' err)),
     cond r HostConditionPowerSynced ConditionFalse reason text b, w1) \<and>
    (reason = HostConditionReasonProgressing \<longleftrightarrow> e = None)"
proof -
  have "\<not> (case bmi_GetStatusCondition (rLib r) HostConditionPowerSynced b of None \<Rightarrow> False
      | Some c \<Rightarrow> cStatus c = ConditionFalse \<and> cReason c = HostConditionReasonProgressing)"
    using assms(5) by (auto simp: restart_pending_def split: option.splits)
  then show ?thesis using assms(1-4,6)
    by (cases e) (auto simp: reconcileRestartTrigger_def triggerRestart_def)
qed

text \<open>C23: A changed restart trigger is acknowledged in the status exactly when the instance is to be halted, or
  a restart is recorded as under way in the PowerSynced condition and the backend reports it complete. While one is
  recorded, the handler only asks the backend whether it is complete; otherwise it asks the backend
  for a restart, once. Without an acknowledgement the status keeps the old trigger and the call reports an error
  or asks to be called again; a restart is recorded as under way after the call exactly when the backend has just accepted
  it, or still says that it is not complete, so that a refused or failed request is made again by the
  next call.\<close>

theorem restart_acknowledged_iff:
  assumes "lib_laws (rLib r)" and "0 < ManagementRecheckIntervalDuration r"
    and "restartTrigger (ispec b) \<noteq> statusRestartTrigger (istatus b)"
    and "reconcileRestartTrigger r b w = ((result, err), b', w')"
  shows "let halted = (runStrategy (ispec b) = RunStrategyHalted);
      check = IsRestartComplete (ManagementClient r) (externalHostID (ispec b)) w;
      request = TriggerRestart (ManagementClient r) (externalHostID (ispec b)) w;
      acknowledged = (halted \<or> restart_pending r b \<and> fst check = Inr True)
    in statusRestartTrigger (istatus b') =
         (if acknowledged then restartTrigger (ispec b) else statusRestartTrigger (istatus b)) \<and>
       status_of r HostConditionPowerSynced b' = Some (if acknowledged then ConditionTrue else ConditionFalse) \<and>
       w' = (if halted then w else if restart_pending r b then snd check else snd request) \<and>
       (if acknowledged then (result, err) = ok_done
        else err \<noteq> None \<or> result = requeue_after (ManagementRecheckIntervalDuration r)) \<and>
       (restart_pending r b' \<longleftrightarrow> \<not> halted \<and> (if restart_pending r b then fst check = Inr False else fst request = None)) \<and>
       (err \<noteq> None \<longleftrightarrow> \<not> halted \<and> (if restart_pending r b then \<exists>e. fst check = Inl e
          else \<exists>e. fst request = Some e \<and> \<not> errors_Is e ErrTransitioning))"
proof (cases "runStrategy (ispec b) = RunStrategyHalted")
  case True
  then show ?thesis
    using restart_halted[OF assms(3) True, of r w] assms(1,4) by (auto simp: restart_pending_cond)
next
  case False
  note run = assms(3) False
  show ?thesis
  proof (cases "restart_pending r b")
    case pending: True
    obtain x w1 where x: "IsRestartComplete (ManagementClient r) (externalHostID (ispec b)) w = (x, w1)" by fastforce
    have "status_of r HostConditionPowerSynced b = Some ConditionFalse"
      using pending by (auto simp: restart_pending_def status_of_def)
    then show ?thesis
      using restart_checked[OF run pending x] assms(1,3,4) False pending x
      by (auto simp: restart_pending_cond restart_done_def Let_def split: sum.splits bool.splits)
  next
    case idle: False
    obtain e w1 where e: "TriggerRestart (ManagementClient r) (externalHostID (ispec b)) w = (e, w1)" by fastforce
    show ?thesis
      using restart_requested[OF assms(1,2) run idle e] assms(1,4) False idle e
      by (auto simp: restart_pending_cond Let_def split: option.splits if_splits)
  qed
qed

definition demo_restarting :: bmi where
  "demo_restarting = demo_halted\<lparr>ispec := (ispec demo_halted)\<lparr>runStrategy := RunStrategyAlways, restartTrigger := 7\<rparr>\<rparr>"

text \<open>A restart that was requested and that the backend reports complete.\<close>

theorem restart_acknowledged_iff_witness:
  "\<exists>result err b' w'. reconcileRestartTrigger demo_reconciler
       (cond demo_reconciler HostConditionPowerSynced ConditionFalse HostConditionReasonProgressing ''m'' demo_restarting)
       demo_bmhs = ((result, err), b', w') \<and>
     statusRestartTrigger (istatus b') = 7 \<and> (result, err) = ok_done"
proof -
  let ?b = "cond demo_reconciler HostConditionPowerSynced ConditionFalse HostConditionReasonProgressing ''m'' demo_restarting"
  obtain result err b' w' where run: "reconcileRestartTrigger demo_reconciler ?b demo_bmhs = ((result, err), b', w')"
    by (metis prod.exhaust)
  have L: "lib_laws (rLib demo_reconciler)" by (simp add: ref_lib_laws)
  have spec: "ispec ?b = ispec demo_restarting" "statusRestartTrigger (istatus demo_restarting) = 0" "restartTrigger (ispec demo_restarting) = 7"
    by (simp_all add: demo_restarting_def demo_halted_def demo_selected_def demo_bmi_def)
  have recheck: "0 < ManagementRecheckIntervalDuration demo_reconciler" by (simp add: demo_reconciler_def)
  have pending: "restart_pending demo_reconciler ?b" using restart_pending_cond[OF L] by blast
  have complete: "fst (IsRestartComplete (ManagementClient demo_reconciler) (externalHostID (ispec ?b)) demo_bmhs) = Inr True"
    by (simp add: demo_reconciler_def)
  have "restartTrigger (ispec ?b) \<noteq> statusRestartTrigger (istatus ?b)" by (simp add: spec)
  from restart_acknowledged_iff[OF L recheck this run] pending complete
  have "statusRestartTrigger (istatus b') = 7 \<and> (result, err) = ok_done" by (simp add: Let_def spec)
  with run show ?thesis by blast
qed

text \<open>The object after a reconcile that published a transition, with a new trigger in its spec.\<close>

definition retriggered_in_transition ::
    "('p, 'w) bmi_reconciler \<Rightarrow> power_status \<Rightarrow> bmi \<Rightarrow> int64 \<Rightarrow> bmi" where
  "retriggered_in_transition r st b0 t =
     (syncBareMetalInstanceStatus r (Some st) None b0)\<lparr>ispec := (ispec b0)\<lparr>restartTrigger := t\<rparr>\<rparr>"

lemma retriggered_condition:
  assumes "lib_laws (rLib r)" and "isTransitioning st"
  shows "\<exists>c. bmi_GetStatusCondition (rLib r) HostConditionPowerSynced (retriggered_in_transition r st b0 t) = Some c \<and>
    cStatus c = ConditionFalse \<and> cReason c = HostConditionReasonProgressing"
proof -
  let ?x = "set_statusRunStrategy (if powerState st = PowerOn then RunStrategyAlways else RunStrategyHalted) b0"
  have "syncBareMetalInstanceStatus r (Some st) None b0 = cond r HostConditionPowerSynced ConditionFalse
      HostConditionReasonProgressing ''node power state is transitioning'' ?x"
    using assms(2) by (simp add: syncBareMetalInstanceStatus_def Let_def)
  then have "\<exists>c. bmi_GetStatusCondition (rLib r) HostConditionPowerSynced (syncBareMetalInstanceStatus r (Some st) None b0)
      = Some c \<and> cStatus c = ConditionFalse \<and> cReason c = HostConditionReasonProgressing"
    using bmi_get_set[OF assms(1)] by metis
  then show ?thesis by (simp add: bmi_GetStatusCondition_def retriggered_in_transition_def)
qed

text \<open>C24: A restart request can be lost. Publishing an ordinary power transition leaves the very
  condition that the restart handler takes for a restart in progress; if the backend then reports
  that no restart is pending, a changed trigger is acknowledged as completed although no restart was
  ever requested from the backend.\<close>

theorem restart_swallowed_by_power_transition:
  assumes "lib_laws (rLib r)" and "isTransitioning st"
    and "t \<noteq> statusRestartTrigger (istatus b0)" and "runStrategy (ispec b0) \<noteq> RunStrategyHalted"
    and "IsRestartComplete (ManagementClient r) (externalHostID (ispec b0)) w = (Inr True, w')"
  shows "\<exists>b'. reconcileRestartTrigger (with_restart r f) (retriggered_in_transition r st b0 t) w = (ok_done, b', w') \<and>
    statusRestartTrigger (istatus b') = t \<and> status_of r HostConditionPowerSynced b' = Some ConditionTrue"
proof -
  let ?b = "retriggered_in_transition r st b0 t"
  have "ispec ?b = (ispec b0)\<lparr>restartTrigger := t\<rparr>"
    "statusRestartTrigger (istatus ?b) = statusRestartTrigger (istatus b0)"
    by (simp_all add: retriggered_in_transition_def)
  moreover obtain c where "bmi_GetStatusCondition (rLib r) HostConditionPowerSynced ?b = Some c"
    "cStatus c = ConditionFalse" "cReason c = HostConditionReasonProgressing"
    using retriggered_condition[OF assms(1,2)] by blast
  ultimately show ?thesis
    using assms(1,3-5) by (simp add: reconcileRestartTrigger_def restart_done_def)
qed

theorem restart_swallowed_by_power_transition_witness:
  "\<exists>b'. reconcileRestartTrigger (with_restart demo_reconciler (\<lambda>h w. (Some ErrTransitioning, w)))
       (retriggered_in_transition demo_reconciler \<lparr>powerState = PowerOff, isTransitioning = True\<rparr> demo_restarting 7)
       demo_bmhs = (ok_done, b', demo_bmhs) \<and> statusRestartTrigger (istatus b') = 7"
proof -
  let ?st = "\<lparr>powerState = PowerOff, isTransitioning = True\<rparr>"
  have f: "lib_laws (rLib demo_reconciler)" "isTransitioning ?st"
    "7 \<noteq> statusRestartTrigger (istatus demo_restarting)" "runStrategy (ispec demo_restarting) \<noteq> RunStrategyHalted"
    "IsRestartComplete (ManagementClient demo_reconciler) (externalHostID (ispec demo_restarting)) demo_bmhs
      = (Inr True, demo_bmhs)"
    by (simp add: ref_lib_laws, simp, simp_all add: demo_restarting_def demo_halted_def demo_selected_def
        demo_bmi_def demo_reconciler_def)
  show ?thesis
    using restart_swallowed_by_power_transition[OF f, of "\<lambda>h w. (Some ErrTransitioning, w)"] by blast
qed

section \<open>Deletion\<close>

text \<open>
  The lifecycles of the provisioning library reach the object only through the hooks they are handed:
  whatever each hook keeps, the lifecycle keeps.
\<close>

definition deprovision_laws :: "('p, 'w) bmi_reconciler \<Rightarrow> bool" where
  "deprovision_laws r \<longleftrightarrow>
     (\<forall>P prov hooks s. (\<forall>b w w'. P (b, w) \<longrightarrow> P (b, w')) \<longrightarrow> (\<forall>js s. P s \<longrightarrow> P (setJobs hooks js s)) \<longrightarrow> P s \<longrightarrow>
        P (snd (RunDeprovisioningLifecycle r prov hooks s)))"

lemma deprovision_keeps:
  assumes "deprovision_laws r" and "RunDeprovisioningLifecycle r prov (bmi_job_hooks r) (b, w) = (out, (b1, w1))"
  shows "ispec b1 = ispec b \<and> imeta b1 = imeta b"
proof -
  let ?P = "\<lambda>s. ispec (fst s) = ispec b \<and> imeta (fst s) = imeta b"
  have "?P (snd (RunDeprovisioningLifecycle r prov (bmi_job_hooks r) (b, w)))"
    by (rule assms(1)[unfolded deprovision_laws_def, rule_format]) (auto simp: bmi_job_hooks_def)
  then show ?thesis using assms(2) by simp
qed

text \<open>The parts of an object that say which host it has and how it is to be released.\<close>

definition same_claim :: "bmi \<Rightarrow> bmi \<Rightarrow> bool" where
  "same_claim b b' \<longleftrightarrow> ispec b' = ispec b \<and> ownerReferences (imeta b') = ownerReferences (imeta b)"

lemma same_claim_labels: "same_claim b b' \<Longrightarrow> labels_to_remove b' = labels_to_remove b"
  by (simp add: same_claim_def labels_to_remove_def GetPoolID_def)

definition lifecycle_finished :: "('p, 'w) bmi_reconciler \<Rightarrow> bool" where
  "lifecycle_finished r \<longleftrightarrow>
     (\<exists>s s' result fin. RunDeprovisioningLifecycle r (ProvisioningProvider r) (bmi_job_hooks r) s
        = ((result, fin, None), s') \<and> (fin \<or> result_IsZero (rLib r) result))"

definition deprovisioned :: "('p, 'w) bmi_reconciler \<Rightarrow> bool" where
  "deprovisioned r \<longleftrightarrow> ProvisioningProvider r \<noteq> None \<and> lifecycle_finished r"

lemma reconcileDeprovisioning_cases:
  assumes "deprovision_laws r" and "reconcileDeprovisioning r b w = ((result, fin, err), b1, w1)"
  shows "ispec b1 = ispec b" and "imeta b1 = imeta b"
    and "fin \<Longrightarrow> err = None \<and> lifecycle_finished r"
proof -
  let ?b = "if provisioningJobs (istatus b) = None then set_provisioningJobs (Some []) b else b"
  obtain res0 fin0 err0 b2 w2 where run:
    "RunDeprovisioningLifecycle r (ProvisioningProvider r) (bmi_job_hooks r) (?b, w) = ((res0, fin0, err0), (b2, w2))"
    by (metis prod.exhaust)
  note keep = deprovision_keeps[OF assms(1) run]
  show "ispec b1 = ispec b" "imeta b1 = imeta b"
    using assms(2) run keep by (auto simp: reconcileDeprovisioning_def Let_def split: if_splits)
  have "err0 = None \<Longrightarrow> fin0 \<or> result_IsZero (rLib r) res0 \<Longrightarrow> lifecycle_finished r"
    using run unfolding lifecycle_finished_def by blast
  then show "fin \<Longrightarrow> err = None \<and> lifecycle_finished r"
    using assms(2) run by (auto simp: reconcileDeprovisioning_def Let_def split: if_splits)
qed

lemma inventory_finalizer_distinct [simp]:
  "BareMetalInstanceInventoryFinalizer \<noteq> BareMetalInstanceManagementFinalizer"
  by simp

lemma management_cleanup_cases:
  assumes L: "lib_laws (rLib r)" and A: "bmi_api_laws r" and D: "deprovision_laws r"
    and run: "management_cleanup r b w = (out, b1, w1)"
  shows "same_claim b b1"
    and "BareMetalInstanceInventoryFinalizer \<in> set (finalizers (imeta b1)) \<longleftrightarrow>
      BareMetalInstanceInventoryFinalizer \<in> set (finalizers (imeta b))"
    and "out = None \<Longrightarrow> BareMetalInstanceManagementFinalizer \<notin> set (finalizers (imeta b1))"
    and "out = None \<Longrightarrow> BareMetalInstanceManagementFinalizer \<in> set (finalizers (imeta b)) \<Longrightarrow> uses_template b \<Longrightarrow>
      deprovisioned r"
proof -
  have upd: "same_object x y" if "rUpdate r x v = (Inr y, u)" for x y v u by (rule bmi_Update_ok[OF A that])
  have dep: "ispec y = ispec x \<and> imeta y = imeta x"
    if "reconcileDeprovisioning r x v = ((result, fin, err), y, u)" for x v result fin err y u
    using reconcileDeprovisioning_cases(1,2)[OF D that] by simp
  have tmpl: "uses_template (set_phase ph x) = uses_template x" for ph x by (simp add: uses_template_def)
  show "same_claim b b1"
    using run L
    by (auto simp: management_cleanup_def Let_def same_claim_def same_object_def
        split: if_splits prod.splits sum.splits dest!: upd dep)
  show "BareMetalInstanceInventoryFinalizer \<in> set (finalizers (imeta b1)) \<longleftrightarrow>
      BareMetalInstanceInventoryFinalizer \<in> set (finalizers (imeta b))"
    using run L
    by (auto simp: management_cleanup_def Let_def same_object_def
        split: if_splits prod.splits sum.splits dest!: upd dep)
  show "out = None \<Longrightarrow> BareMetalInstanceManagementFinalizer \<notin> set (finalizers (imeta b1))"
    using run L
    by (auto simp: management_cleanup_def Let_def same_object_def
        split: if_splits prod.splits sum.splits dest!: upd)
  show "out = None \<Longrightarrow> BareMetalInstanceManagementFinalizer \<in> set (finalizers (imeta b)) \<Longrightarrow> uses_template b \<Longrightarrow>
      deprovisioned r"
    using run L
    by (auto simp: management_cleanup_def Let_def deprovisioned_def tmpl
        split: if_splits prod.splits sum.splits dest!: reconcileDeprovisioning_cases(3)[OF D])
qed

lemma inventory_cleanup_release:
  assumes L: "lib_laws (rLib r)" and A: "bmi_api_laws r" and run: "inventory_cleanup r b p = (res, b', p')"
    and "BareMetalInstanceInventoryFinalizer \<in> set (finalizers (imeta b))"
    and "BareMetalInstanceInventoryFinalizer \<notin> set (finalizers (imeta b'))"
  shows "externalHostID (ispec b) = '''' \<or>
    (\<exists>v v'. UnassignHost (InventoryClient r) (externalHostID (ispec b)) (labels_to_remove b) v = (None, v'))"
    and "finalizers (imeta b') = fst (RemoveFinalizer (rLib r) (finalizers (imeta b)) BareMetalInstanceInventoryFinalizer)"
proof -
  have upd: "same_object x y" if "rUpdate r x v = (Inr y, u)" for x y v u by (rule bmi_Update_ok[OF A that])
  show "externalHostID (ispec b) = '''' \<or>
    (\<exists>v v'. UnassignHost (InventoryClient r) (externalHostID (ispec b)) (labels_to_remove b) v = (None, v'))"
    using run assms(4,5) L
    by (auto simp: inventory_cleanup_def release_host_def Let_def split: if_splits prod.splits option.splits)
  show "finalizers (imeta b') = fst (RemoveFinalizer (rLib r) (finalizers (imeta b)) BareMetalInstanceInventoryFinalizer)"
    using run assms(4,5) L
    by (auto simp: inventory_cleanup_def release_host_def drop_inventory_finalizer_def Let_def same_object_def
        split: if_splits prod.splits option.splits sum.splits dest!: upd)
qed

text \<open>C9: The deletion of an instance drops its inventory finalizer (the last thing that keeps the object)
  only after its host was released in the inventory, or when it has none; by then the management
  finalizer is gone too, and if that one was there and a template is in use, the deprovisioning
  lifecycle of a configured provider has reported that it is finished (or skipped).\<close>

theorem deletion_releases_host_first:
  assumes "lib_laws (rLib r)" and "bmi_api_laws r" and "deprovision_laws r"
    and "handleDeletion r b p = (res, b', p')"
    and "BareMetalInstanceInventoryFinalizer \<in> set (finalizers (imeta b))"
    and "BareMetalInstanceInventoryFinalizer \<notin> set (finalizers (imeta b'))"
  shows "(externalHostID (ispec b) = '''' \<or>
      (\<exists>v v'. UnassignHost (InventoryClient r) (externalHostID (ispec b)) (labels_to_remove b) v = (None, v'))) \<and>
    BareMetalInstanceManagementFinalizer \<notin> set (finalizers (imeta b')) \<and>
    (BareMetalInstanceManagementFinalizer \<in> set (finalizers (imeta b)) \<and> uses_template b \<longrightarrow> deprovisioned r)"
proof -
  obtain out b1 w1 where mc: "management_cleanup r b (pworld p) = (out, b1, w1)" by (metis prod.exhaust)
  note c = management_cleanup_cases[OF assms(1-3) mc]
  have none: "out = None" using assms(4-6) mc c(2) by (cases out) (auto simp: handleDeletion_def)
  then have ic: "inventory_cleanup r b1 (p\<lparr>pworld := w1\<rparr>) = (res, b', p')"
    using assms(4) mc by (simp add: handleDeletion_def)
  have "BareMetalInstanceInventoryFinalizer \<in> set (finalizers (imeta b1))" using c(2) assms(5) by simp
  note i = inventory_cleanup_release[OF assms(1,2) ic this assms(6)]
  have "externalHostID (ispec b1) = externalHostID (ispec b)" using c(1) by (simp add: same_claim_def)
  then show ?thesis
    using i c(3,4)[OF none] same_claim_labels[OF c(1)] assms(1) by auto
qed

definition demo_deleter :: "(unit, ref_world) bmi_reconciler" where
  "demo_deleter = demo_reconciler\<lparr>InventoryClient := \<lparr>FindFreeHost = (\<lambda>m w. (Inr None, w)),
     AssignHost = (\<lambda>h c ls w. (Inr None, w)), UnassignHost = (\<lambda>h ks w. (None, w))\<rparr>\<rparr>"

theorem deletion_releases_host_first_witness:
  "\<exists>res b' p'. handleDeletion demo_deleter (demo_selected ''metal/a'') \<lparr>plocks = no_locks, pworld = demo_bmhs\<rparr> = (res, b', p') \<and>
     BareMetalInstanceInventoryFinalizer \<notin> set (finalizers (imeta b')) \<and>
     (\<exists>v v'. UnassignHost (InventoryClient demo_deleter) ''metal/a'' (labels_to_remove (demo_selected ''metal/a'')) v = (None, v'))"
proof -
  let ?b = "demo_selected ''metal/a''" and ?p = "\<lparr>plocks = no_locks, pworld = demo_bmhs\<rparr>"
  obtain res b' p' where run: "handleDeletion demo_deleter ?b ?p = (res, b', p')" by (metis prod.exhaust)
  have "finalizers (imeta (fst (snd (handleDeletion demo_deleter ?b ?p)))) = []"
    by (simp add: handleDeletion_def management_cleanup_def inventory_cleanup_def release_host_def
        drop_inventory_finalizer_def demo_deleter_def demo_reconciler_def demo_selected_def demo_bmi_def
        uses_template_def ref_lib_def TryLock_def LoadOrStore_def no_locks_def Let_def)
  then have gone: "BareMetalInstanceInventoryFinalizer \<notin> set (finalizers (imeta b'))" using run by simp
  have laws: "lib_laws (rLib demo_deleter)" "bmi_api_laws demo_deleter" "deprovision_laws demo_deleter"
    by (simp_all add: demo_deleter_def ref_lib_laws bmi_api_laws_def deprovision_laws_def same_object_def,
        simp_all add: demo_reconciler_def)
  have "BareMetalInstanceInventoryFinalizer \<in> set (finalizers (imeta ?b))" "externalHostID (ispec ?b) = ''metal/a''"
    by (simp_all add: demo_selected_def)
  then show ?thesis using deletion_releases_host_first[OF laws run _ gone] run gone by auto
qed

section \<open>Allocation\<close>

context inventory_contract
begin

text \<open>What the controller gets from any backend that meets the contract.\<close>

lemma acquired_is_marked:
  assumes "laws" and "labels_ok (combined_labels b)" and "AssignHost (InventoryClient r) = assign"
    and "bmi_api_laws r" and "lib_laws (rLib r)"
    and apart: "\<And>b w x w'. rUpdate r b w = (x, w') \<Longrightarrow> consumer w' = consumer w"
    and "hostClass (ispec b) = ''''" and "acquire_host r b w = (ok_done, b', w')" and "hostClass (ispec b') \<noteq> ''''"
  shows "externalHostID (ispec b') = externalHostID (ispec b)"
    and "consumer w' (externalHostID (ispec b)) = Some (objUID (imeta b))"
    and "status_of r HostConditionAllocated b' = Some ConditionTrue"
    and "phase (istatus b') = BareMetalInstancePhaseProgressing"
proof -
  let ?h = "externalHostID (ispec b)" and ?c = "objUID (imeta b)" and ?ls = "combined_labels b"
  obtain a w1 where as: "assign ?h ?c ?ls w = (a, w1)" by fastforce
  have "\<exists>x. a = Inr (Some x)"
  proof (rule ccontr)
    assume no: "\<nexists>x. a = Inr (Some x)"
    show False
    proof (cases a)
      case (Inl e)
      then show False using assms(3,8) as by (simp add: acquire_host_def)
    next
      case (Inr q)
      then have "q = None" using no by (cases q) auto
      then have "\<exists>w2. rUpdate r (set_externalHostID '''' b) w1 = (Inr b', w2)"
        using assms(3,8) as Inr by (auto simp: acquire_host_def Let_def split: prod.splits sum.splits)
      then show False using assms(7,9) bmi_Update_ok[OF assms(4)] by (fastforce simp: same_object_def)
    qed
  qed
  then obtain x where x: "a = Inr (Some x)" ..
  let ?b = "b\<lparr>ispec := (ispec b)\<lparr>hostClass := hostHostClass x, networkClass := hostNetworkClass x\<rparr>\<rparr>"
  obtain b2 where upd: "rUpdate r ?b w1 = (Inr b2, w')"
    and b': "b' = cond r HostConditionAllocated ConditionTrue ''Allocated''
      (''BareMetalInstance allocated a host ('' @ externalHostID (ispec b2) @ '') from '' @ hostHostClass x)
      (set_phase BareMetalInstancePhaseProgressing b2)"
    using assms(3,8) as x by (auto simp: acquire_host_def Let_def split: prod.splits sum.splits)
  have "ispec b2 = ispec ?b" using bmi_Update_ok[OF assms(4) upd] by (simp add: same_object_def)
  then show "externalHostID (ispec b') = ?h" using b' by simp
  show "consumer w' ?h = Some ?c"
    using assigned_is_held[OF assms(1,2) as[unfolded x]] apart[OF upd] by simp
  show "status_of r HostConditionAllocated b' = Some ConditionTrue" using b' assms(5) by simp
  show "phase (istatus b') = BareMetalInstancePhaseProgressing" using b' by simp
qed

lemma allocated_is_marked:
  assumes "laws" and "labels_ok (combined_labels b)" and "AssignHost (InventoryClient r) = assign"
    and "bmi_api_laws r" and "lib_laws (rLib r)"
    and apart: "\<And>b w x w'. rUpdate r b w = (x, w') \<Longrightarrow> consumer w' = consumer w"
    and "hostClass (ispec b) = ''''" and "reconcileInventory r b p = (ok_done, b', p')" and "hostClass (ispec b') \<noteq> ''''"
  shows "externalHostID (ispec b') = externalHostID (ispec b)"
    and "consumer (pworld p') (externalHostID (ispec b)) = Some (objUID (imeta b))"
    and "status_of r HostConditionAllocated b' = Some ConditionTrue"
    and "phase (istatus b') = BareMetalInstancePhaseProgressing"
proof -
  let ?b = "cond r HostConditionAllocated ConditionFalse HostConditionReasonProgressing
                ''Allocating BareMetalInstance'' (set_phase BareMetalInstancePhaseAllocating b)"
  obtain fs added where add: "AddFinalizer (rLib r) (finalizers (imeta b)) BareMetalInstanceInventoryFinalizer
      = (fs, added)" by fastforce
  have keep: "hostClass (ispec y) = ''''" if "rUpdate r x v = (Inr y, u)" "hostClass (ispec x) = ''''" for x y v u
    using bmi_Update_ok[OF assms(4) that(1)] that(2) by (simp add: same_object_def)
  have run: "\<exists>w'. acquire_host r (set_bmi_finalizers fs ?b) (pworld p) = (ok_done, b', w') \<and> pworld p' = w'"
    using assms(7-9) add
    by (auto simp: reconcileInventory_def select_host_def Let_def dest: keep
        split: if_splits prod.splits sum.splits option.splits)
  from run obtain w' where acq: "acquire_host r (set_bmi_finalizers fs ?b) (pworld p) = (ok_done, b', w')"
    and w': "pworld p' = w'" by blast
  have "labels_ok (combined_labels (set_bmi_finalizers fs ?b))" "hostClass (ispec (set_bmi_finalizers fs ?b)) = ''''"
    using assms(2,7) by (simp_all add: combined_labels_frame)
  note acquired_is_marked[OF assms(1) this(1) assms(3-5) apart this(2) acq assms(9)]
  then show "externalHostID (ispec b') = externalHostID (ispec b)"
    "consumer (pworld p') (externalHostID (ispec b)) = Some (objUID (imeta b))"
    "status_of r HostConditionAllocated b' = Some ConditionTrue"
    "phase (istatus b') = BareMetalInstancePhaseProgressing"
    using w' by simp_all
qed

lemma cleanup_frees_host:
  assumes "laws" and "UnassignHost (InventoryClient r) = unassign" and "lib_laws (rLib r)"
    and A: "bmi_api_laws r"
    and apart: "\<And>b w x w'. rUpdate r b w = (x, w') \<Longrightarrow> consumer w' = consumer w"
    and run: "inventory_cleanup r b p = (res, b', p')" and "externalHostID (ispec b) \<noteq> ''''"
    and "BareMetalInstanceInventoryFinalizer \<in> set (finalizers (imeta b))"
    and gone: "BareMetalInstanceInventoryFinalizer \<notin> set (finalizers (imeta b'))"
  shows "consumer (pworld p') (externalHostID (ispec b)) = None"
proof -
  let ?h = "externalHostID (ispec b)"
  have unmarked: "consumer v' ?h = None" if "UnassignHost (InventoryClient r) ?h ks v = (None, v')" for ks v v'
    by (rule unassign_ignores_holder[OF assms(1) that[unfolded assms(2)]])
  have drop: "consumer w' ?h = None"
    if "drop_inventory_finalizer r b w = (res, b', w')" "consumer w ?h = None" for w w' res
    using that by (auto simp: drop_inventory_finalizer_def Let_def split: if_splits prod.splits sum.splits dest!: apart)
  show ?thesis
    using run assms(3,7,8) gone
    by (auto simp: inventory_cleanup_def release_host_def Let_def split: if_splits prod.splits option.splits
        dest: unmarked drop)
qed

lemma deletion_frees:
  assumes "laws" and "UnassignHost (InventoryClient r) = unassign" and "lib_laws (rLib r)"
    and "bmi_api_laws r" and "deprovision_laws r"
    and apart: "\<And>b w x w'. rUpdate r b w = (x, w') \<Longrightarrow> consumer w' = consumer w"
    and "handleDeletion r b p = (res, b', p')" and "externalHostID (ispec b) \<noteq> ''''"
    and "BareMetalInstanceInventoryFinalizer \<in> set (finalizers (imeta b))"
    and "BareMetalInstanceInventoryFinalizer \<notin> set (finalizers (imeta b'))"
  shows "consumer (pworld p') (externalHostID (ispec b)) = None"
proof -
  obtain out b1 w1 where mc: "management_cleanup r b (pworld p) = (out, b1, w1)" by (metis prod.exhaust)
  note c = management_cleanup_cases[OF assms(3-5) mc]
  have "out = None" using assms(7,9,10) mc c(2) by (cases out) (auto simp: handleDeletion_def)
  then have ic: "inventory_cleanup r b1 (p\<lparr>pworld := w1\<rparr>) = (res, b', p')"
    using assms(7) mc by (simp add: handleDeletion_def)
  have same: "externalHostID (ispec b1) = externalHostID (ispec b)" using c(1) by (simp add: same_claim_def)
  then have "externalHostID (ispec b1) \<noteq> ''''" "BareMetalInstanceInventoryFinalizer \<in> set (finalizers (imeta b1))"
    using c(2) assms(8,9) by simp_all
  from cleanup_frees_host[OF assms(1-4) apart ic this assms(10)] same show ?thesis by simp
qed

end

section \<open>Properties: allocation and release\<close>

text \<open>C5: With the Metal3 backend, and other writers active between any two requests, an instance obtains a
  host class (which sends it on to management) in a reconcile that succeeds only if the host it had
  selected is then marked in the cluster for this very instance; the instance is in phase
  Progressing and its Allocated condition is true.\<close>

theorem allocation_marks_host:
  assumes "bmh_laws (m3client m) store env" and "AssignHost (InventoryClient r) = metal3_AssignHost m"
    and "bmi_api_laws r" and "lib_laws (rLib r)"
    and apart: "\<And>b w x w'. rUpdate r b w = (x, w') \<Longrightarrow> bmh_consumer store w' = bmh_consumer store w"
    and "hostClass (ispec b) = ''''" and "reconcileInventory r b p = (ok_done, b', p')" and "hostClass (ispec b') \<noteq> ''''"
  shows "externalHostID (ispec b') = externalHostID (ispec b) \<and>
    bmh_consumer store (pworld p') (externalHostID (ispec b)) = Some (objUID (imeta b)) \<and>
    status_of r HostConditionAllocated b' = Some ConditionTrue \<and>
    phase (istatus b') = BareMetalInstancePhaseProgressing"
proof -
  note marked = metal3_contract.allocated_is_marked[OF assms(1) TrueI assms(2-4) _ assms(6-8)]
  show ?thesis by (intro conjI marked) (erule apart)+
qed

lemma demo_selected_simps [simp]:
  "hostClass (ispec (demo_selected h)) = ''''" "externalHostID (ispec (demo_selected h)) = h"
  "objUID (imeta (demo_selected h)) = ''uid-2''"
  "BareMetalInstanceInventoryFinalizer \<in> set (finalizers (imeta (demo_selected h)))"
  by (simp_all add: demo_selected_def demo_bmi_def)

lemma demo_reconciler_apart:
  "rUpdate demo_reconciler b w = (x, w') \<Longrightarrow> bmh_consumer ref_store w' = bmh_consumer ref_store w"
  by (simp add: demo_reconciler_def)

lemma metal3_client_simps [simp]:
  "AssignHost (metal3_inventory_client m) = metal3_AssignHost m"
  "UnassignHost (metal3_inventory_client m) = metal3_UnassignHost m"
  by (simp_all add: metal3_inventory_client_def)

lemma demo_assign:
  "\<exists>x w'. metal3_AssignHost demo_metal3 ''metal/b'' ''uid-2'' ls demo_bmhs = (Inr (Some x), w') \<and>
     hostHostClass x = ''metal3''"
  by (simp add: demo_metal3_eval ParseHostID_demo bmhToHost_def split: prod.splits sum.splits)

theorem allocation_marks_host_witness:
  "\<exists>b' p'. reconcileInventory demo_reconciler (demo_selected ''metal/b'') \<lparr>plocks = no_locks, pworld = demo_bmhs\<rparr>
       = (ok_done, b', p') \<and> bmh_consumer ref_store (pworld p') ''metal/b'' = Some ''uid-2''"
proof -
  let ?b = "demo_selected ''metal/b''" and ?p = "\<lparr>plocks = no_locks, pworld = demo_bmhs\<rparr>"
  obtain res b' p' where run: "reconcileInventory demo_reconciler ?b ?p = (res, b', p')" by (metis prod.exhaust)
  have as: "AssignHost (InventoryClient demo_reconciler) = metal3_AssignHost demo_metal3"
    by (simp add: metal3_inventory_client_def)
  have up: "rUpdate demo_reconciler y v = (Inr y, v)" for y v by (simp add: demo_reconciler_def)
  have acq: "\<exists>y v. acquire_host demo_reconciler x demo_bmhs = (ok_done, y, v) \<and> hostClass (ispec y) = ''metal3''"
    if "externalHostID (ispec x) = ''metal/b''" "objUID (imeta x) = ''uid-2''" for x
    using demo_assign[of "combined_labels x"] that
    by (auto simp: acquire_host_def up Let_def)
  have "AddFinalizer ref_lib (finalizers (imeta ?b)) BareMetalInstanceInventoryFinalizer = (finalizers (imeta ?b), False)"
    by (simp add: demo_selected_def ref_lib_def)
  then have "res = ok_done \<and> hostClass (ispec b') = ''metal3''"
    using run acq[of "set_bmi_finalizers (finalizers (imeta ?b)) (cond demo_reconciler HostConditionAllocated ConditionFalse
       HostConditionReasonProgressing ''Allocating BareMetalInstance'' (set_phase BareMetalInstancePhaseAllocating ?b))"]
    by (auto simp: reconcileInventory_def TryLock_def LoadOrStore_def no_locks_def Let_def)
  then have run: "reconcileInventory demo_reconciler ?b ?p = (ok_done, b', p')" "hostClass (ispec b') \<noteq> ''''"
    using run by auto
  have laws: "lib_laws (rLib demo_reconciler)" "bmi_api_laws demo_reconciler" by (simp_all add: ref_lib_laws)
  note marked = allocation_marks_host[OF demo_metal3_laws as laws(2,1) _ _ run(1)]
  have "bmh_consumer ref_store (pworld p') (externalHostID (ispec ?b)) = Some (objUID (imeta ?b))"
    by (rule marked[THEN conjunct2, THEN conjunct1]) (auto simp: run(2) dest: demo_reconciler_apart)
  then show ?thesis using run by auto
qed

text \<open>When the deletion of an instance that had selected a host lets the inventory finalizer go, that host
  is unmarked in the cluster, whoever it was marked for. The example is an instance that selected a
  host and never acquired it, because the host was marked for another instance first: its deletion
  frees the host the other instance still uses.\<close>

theorem deletion_frees_host:
  assumes "bmh_laws (m3client m) store env" and "UnassignHost (InventoryClient r) = metal3_UnassignHost m"
    and "lib_laws (rLib r)" and "bmi_api_laws r" and "deprovision_laws r"
    and apart: "\<And>b w x w'. rUpdate r b w = (x, w') \<Longrightarrow> bmh_consumer store w' = bmh_consumer store w"
    and "handleDeletion r b p = (res, b', p')" and "externalHostID (ispec b) \<noteq> ''''"
    and "BareMetalInstanceInventoryFinalizer \<in> set (finalizers (imeta b))"
    and "BareMetalInstanceInventoryFinalizer \<notin> set (finalizers (imeta b'))"
  shows "bmh_consumer store (pworld p') (externalHostID (ispec b)) = None"
  by (rule metal3_contract.deletion_frees[OF assms(1-5) _ assms(7-10)]) (erule apart)

lemma demo_unassign: "\<exists>w'. metal3_UnassignHost demo_metal3 ''metal/a'' ks demo_bmhs = (None, w')"
  by (simp add: demo_metal3_eval ParseHostID_demo split: prod.splits sum.splits)

theorem deletion_frees_host_witness:
  "bmh_consumer ref_store demo_bmhs ''metal/a'' = Some ''uid-1'' \<and> objUID (imeta (demo_selected ''metal/a'')) = ''uid-2'' \<and>
   hostClass (ispec (demo_selected ''metal/a'')) = '''' \<and>
   bmh_consumer ref_store (pworld (snd (snd (handleDeletion demo_reconciler (demo_selected ''metal/a'')
     \<lparr>plocks = no_locks, pworld = demo_bmhs\<rparr>)))) ''metal/a'' = None"
proof -
  let ?b = "demo_selected ''metal/a''" and ?p = "\<lparr>plocks = no_locks, pworld = demo_bmhs\<rparr>"
  obtain res b' p' where run: "handleDeletion demo_reconciler ?b ?p = (res, b', p')" by (metis prod.exhaust)
  have up: "rUpdate demo_reconciler y v = (Inr y, v)" for y v by (simp add: demo_reconciler_def)
  have "BareMetalInstanceInventoryFinalizer \<notin> set (finalizers (imeta b'))"
  proof -
    let ?x = "set_bmi_finalizers [BareMetalInstanceInventoryFinalizer] (set_phase BareMetalInstancePhaseDeleting ?b)"
    have "management_cleanup demo_reconciler ?b demo_bmhs = (None, ?x, demo_bmhs)"
      by (simp add: management_cleanup_def up Let_def ref_lib_def)
        (simp add: demo_selected_def demo_bmi_def uses_template_def)
    moreover obtain w' where "metal3_UnassignHost demo_metal3 ''metal/a'' (labels_to_remove ?x) demo_bmhs = (None, w')"
      using demo_unassign by blast
    ultimately show ?thesis using run
      by (auto simp: handleDeletion_def inventory_cleanup_def release_host_def drop_inventory_finalizer_def up Let_def
          ref_lib_def TryLock_def LoadOrStore_def no_locks_def)
  qed
  moreover have "lib_laws (rLib demo_reconciler)" "bmi_api_laws demo_reconciler" "deprovision_laws demo_reconciler"
    by (simp_all add: ref_lib_laws) (simp add: deprovision_laws_def demo_reconciler_def)
  note laws = this
  ultimately have "bmh_consumer ref_store (pworld p') (externalHostID (ispec ?b)) = None"
    by (intro deletion_frees_host[OF demo_metal3_laws _ laws _ run]) (auto dest: demo_reconciler_apart)
  then show ?thesis using run by (simp add: bmh_consumer_def ParseHostID_demo ref_store_def demo_bmhs_def demo_bmh_def
        bmh_key_def demo_claim_def)
qed

end
