(* ===== verification/Allocation_Protocol.thy ===== *)
theory Allocation_Protocol
  imports Api_Types
begin

text \<open>
  The allocation of hosts to instances as an abstract protocol: what the instance controller, its
  inventory backend and the users of the cluster do to the only two things that decide who has a
  host, the claims in the instance objects and the marks on the hosts. Any number of instances take
  part, one atomic request per step. The invariant \<open>exclusive\<close> says that every allocated instance
  has the mark of its host, so that no two of them share one; it holds as long as no host is
  released by an instance that does not have its mark, and the last section shows why that premise
  is needed.
\<close>

section \<open>The protocol\<close>

record claim =
  claimUID :: string
  claimHost :: string
  claimClass :: string
  claimDeleting :: bool

type_synonym object_key = "string \<times> string"

record cluster =
  claims :: "object_key \<Rightarrow> claim option"
  marks :: "string \<Rightarrow> string option"

definition free_or_own :: "cluster \<Rightarrow> claim \<Rightarrow> bool" where
  "free_or_own s c \<longleftrightarrow> marks s (claimHost c) = None \<or> marks s (claimHost c) = Some (claimUID c)"

definition fresh_uid :: "cluster \<Rightarrow> string \<Rightarrow> bool" where
  "fresh_uid s u \<longleftrightarrow> (\<forall>k c. claims s k = Some c \<longrightarrow> claimUID c \<noteq> u) \<and> (\<forall>h. marks s h \<noteq> Some u)"

text \<open>
  One step of the instance stored under a key. With the flag \<open>own\<close> a release happens only when the
  host is not marked for someone else.
\<close>

inductive protocol_step :: "bool \<Rightarrow> object_key \<Rightarrow> cluster \<Rightarrow> cluster \<Rightarrow> bool" for own :: bool and k :: object_key where
  Created: "\<lbrakk>claims s k = None; claimClass c = ''''; fresh_uid s (claimUID c)\<rbrakk>
    \<Longrightarrow> protocol_step own k s (s\<lparr>claims := (claims s)(k \<mapsto> c)\<rparr>)"
| Choose: "\<lbrakk>claims s k = Some c; claimClass c = ''''\<rbrakk>
    \<Longrightarrow> protocol_step own k s (s\<lparr>claims := (claims s)(k \<mapsto> c\<lparr>claimHost := h\<rparr>)\<rparr>)"
| Mark: "\<lbrakk>claims s k = Some c; free_or_own s c\<rbrakk>
    \<Longrightarrow> protocol_step own k s (s\<lparr>marks := (marks s)(claimHost c \<mapsto> claimUID c)\<rparr>)"
| Record: "\<lbrakk>claims s k = Some c; marks s (claimHost c) = Some (claimUID c)\<rbrakk>
    \<Longrightarrow> protocol_step own k s (s\<lparr>claims := (claims s)(k \<mapsto> c\<lparr>claimClass := cls\<rparr>)\<rparr>)"
| Deleted: "\<lbrakk>claims s k = Some c\<rbrakk>
    \<Longrightarrow> protocol_step own k s (s\<lparr>claims := (claims s)(k \<mapsto> c\<lparr>claimDeleting := True\<rparr>)\<rparr>)"
| Release: "\<lbrakk>claims s k = Some c; claimDeleting c; own \<longrightarrow> free_or_own s c\<rbrakk>
    \<Longrightarrow> protocol_step own k s (s\<lparr>marks := (marks s)(claimHost c := None)\<rparr>)"
| Gone: "\<lbrakk>claims s k = Some c; claimDeleting c\<rbrakk>
    \<Longrightarrow> protocol_step own k s (s\<lparr>claims := (claims s)(k := None)\<rparr>)"

definition protocol_path :: "bool \<Rightarrow> cluster \<Rightarrow> cluster \<Rightarrow> bool" where
  "protocol_path own = (\<lambda>s s'. \<exists>k. protocol_step own k s s')\<^sup>*\<^sup>*"

lemma protocol_path_refl [simp, intro]: "protocol_path own s s"
  by (simp add: protocol_path_def)

lemma protocol_path_step: "protocol_step own k s s' \<Longrightarrow> protocol_path own s s'"
  unfolding protocol_path_def by blast

lemma protocol_path_trans [trans]: "protocol_path own s t \<Longrightarrow> protocol_path own t u \<Longrightarrow> protocol_path own s u"
  unfolding protocol_path_def by (rule rtranclp_trans)

lemma protocol_step_mono: "protocol_step True k s s' \<Longrightarrow> protocol_step own k s s'"
  by (induction rule: protocol_step.induct) (auto intro: protocol_step.intros)

section \<open>Exclusive allocation\<close>

definition allocated :: "claim \<Rightarrow> bool" where
  "allocated c \<longleftrightarrow> claimClass c \<noteq> '''' \<and> \<not> claimDeleting c"

definition distinct_uids :: "cluster \<Rightarrow> bool" where
  "distinct_uids s \<longleftrightarrow>
     (\<forall>k k' c c'. claims s k = Some c \<longrightarrow> claims s k' = Some c' \<longrightarrow> claimUID c = claimUID c' \<longrightarrow> k = k')"

definition allocated_are_marked :: "cluster \<Rightarrow> bool" where
  "allocated_are_marked s \<longleftrightarrow>
     (\<forall>k c. claims s k = Some c \<longrightarrow> allocated c \<longrightarrow> marks s (claimHost c) = Some (claimUID c))"

definition exclusive :: "cluster \<Rightarrow> bool" where
  "exclusive s \<longleftrightarrow> distinct_uids s \<and> allocated_are_marked s"

lemma distinct_uidsD:
  "distinct_uids s \<Longrightarrow> claims s k = Some c \<Longrightarrow> claims s k' = Some c' \<Longrightarrow> claimUID c = claimUID c' \<Longrightarrow> k = k'"
  unfolding distinct_uids_def by blast

lemma allocated_markedD:
  "allocated_are_marked s \<Longrightarrow> claims s k = Some c \<Longrightarrow> allocated c \<Longrightarrow> marks s (claimHost c) = Some (claimUID c)"
  unfolding allocated_are_marked_def by blast

lemma exclusive_hosts:
  assumes "exclusive s" and "claims s k = Some c" and "claims s k' = Some c'"
    and "allocated c" and "allocated c'" and "claimHost c = claimHost c'"
  shows "k = k'"
proof -
  have "Some (claimUID c) = Some (claimUID c')"
    using assms unfolding exclusive_def by (metis allocated_markedD)
  then show ?thesis using assms(1-3) unfolding exclusive_def by (auto dest: distinct_uidsD)
qed

lemma distinct_uids_step: "protocol_step own k s s' \<Longrightarrow> distinct_uids s \<Longrightarrow> distinct_uids s'"
proof (induction rule: protocol_step.induct)
  case (Created s c)
  then have "claimUID c' \<noteq> claimUID c" if "claims s k' = Some c'" for k' c'
    using that unfolding fresh_uid_def by blast
  then show ?case using Created.prems unfolding distinct_uids_def
    by (simp del: split_paired_All) (metis option.inject)
qed (auto simp: distinct_uids_def simp del: split_paired_All)

lemma marked_step:
  assumes "protocol_step True k s s'" and "distinct_uids s" and "allocated_are_marked s"
  shows "allocated_are_marked s'"
  using assms
proof (induction rule: protocol_step.induct)
  case (Mark s c)
  then show ?case by (fastforce simp: allocated_are_marked_def free_or_own_def simp del: split_paired_All)
next
  case (Release s c)
  show ?case unfolding allocated_are_marked_def
  proof (intro allI impI)
    fix k' c'
    assume c': "claims (s\<lparr>marks := (marks s)(claimHost c := None)\<rparr>) k' = Some c'" "allocated c'"
    then have m: "marks s (claimHost c') = Some (claimUID c')"
      using allocated_markedD[OF Release.prems(2), of k' c'] by simp
    have "claimHost c' \<noteq> claimHost c"
    proof
      assume eq: "claimHost c' = claimHost c"
      then have "claimUID c' = claimUID c" using m Release.hyps(3) by (simp add: free_or_own_def)
      then have "k' = k" using distinct_uidsD[OF Release.prems(1) _ Release.hyps(1), of k' c'] c'(1) by simp
      then show False using Release.hyps(1,2) c' by (simp add: allocated_def)
    qed
    then show "marks (s\<lparr>marks := (marks s)(claimHost c := None)\<rparr>) (claimHost c') = Some (claimUID c')"
      using m by simp
  qed
qed (auto simp: allocated_are_marked_def allocated_def simp del: split_paired_All)

lemma exclusive_step: "protocol_step True k s s' \<Longrightarrow> exclusive s \<Longrightarrow> exclusive s'"
  unfolding exclusive_def using distinct_uids_step marked_step by blast

lemma exclusive_path:
  assumes "protocol_path True s s'" and "exclusive s"
  shows "exclusive s'"
  using assms unfolding protocol_path_def by (induction rule: rtranclp_induct) (auto intro: exclusive_step)

section \<open>Why releases must be one's own\<close>

text \<open>
  Without the premise on releases two instances end up allocated on one host: the first one has it,
  the second one selected it too and is deleted before it finds out, and a third one takes it.
\<close>

lemma careless_release_double_books:
  assumes "exclusive s" and "claims s k1 = Some c1" and "allocated c1" and "claimHost c1 = h"
    and "claims s k2 = Some c2" and "claimHost c2 = h" and "claimDeleting c2"
    and "claims s k3 = Some c3" and "claimHost c3 = h" and "claimClass c3 = ''''" and "\<not> claimDeleting c3"
  shows "\<exists>s' c. protocol_path False s s' \<and> claims s' k1 = Some c1 \<and> claims s' k3 = Some c \<and>
    allocated c \<and> claimHost c = h \<and> k1 \<noteq> k3 \<and> \<not> exclusive s'"
proof -
  let ?s1 = "s\<lparr>marks := (marks s)(h := None)\<rparr>"
  let ?s2 = "?s1\<lparr>marks := (marks ?s1)(h \<mapsto> claimUID c3)\<rparr>"
  let ?c = "c3\<lparr>claimClass := ''metal3''\<rparr>"
  let ?s3 = "?s2\<lparr>claims := (claims ?s2)(k3 \<mapsto> ?c)\<rparr>"
  have ne: "k1 \<noteq> k3" using assms(2,3,8,10) by (auto simp: allocated_def)
  have "protocol_step False k2 s ?s1"
    using protocol_step.Release[of s k2 c2 False] assms(5,6,7) by simp
  moreover have "protocol_step False k3 ?s1 ?s2"
    using protocol_step.Mark[of ?s1 k3 c3 False] assms(8,9) by (simp add: free_or_own_def)
  moreover have "protocol_step False k3 ?s2 ?s3"
    using protocol_step.Record[of ?s2 k3 c3 False "''metal3''"] assms(8,9) by simp
  ultimately have "protocol_path False s ?s3"
    by (meson protocol_path_step protocol_path_trans)
  moreover have "\<not> exclusive ?s3"
    using exclusive_hosts[of ?s3 k1 c1 k3 ?c] ne assms(2-4,9,11) by (auto simp: allocated_def)
  ultimately show ?thesis using ne assms(2,9,11)
    by (intro exI[of _ ?s3] exI[of _ ?c]) (simp add: allocated_def)
qed

end
