(* ===== verification/Instance_Frames.thy ===== *)
theory Instance_Frames
  imports Instance_Properties
begin

text \<open>
  What the calls of the instance controller to its backends and to the provisioning library leave
  alone. A relation \<open>R\<close> between the world before and after says it; the handlers that only make such
  calls then stay in \<open>R\<close> too. The refinement of the allocation protocol and the well-formedness of
  the stored objects use this with two relations of their own.
\<close>

section \<open>Backends\<close>

definition services_keep :: "('p, 'w) bmi_reconciler \<Rightarrow> ('w \<Rightarrow> 'w \<Rightarrow> bool) \<Rightarrow> bool" where
  "services_keep r R \<longleftrightarrow> reflp R \<and> transp R \<and>
     (\<forall>m w x w'. FindFreeHost (InventoryClient r) m w = (x, w') \<longrightarrow> R w w') \<and>
     (\<forall>a w x w'. GetPowerState (ManagementClient r) a w = (x, w') \<longrightarrow> R w w') \<and>
     (\<forall>a t w x w'. SetPowerState (ManagementClient r) a t w = (x, w') \<longrightarrow> R w w') \<and>
     (\<forall>a w x w'. TriggerRestart (ManagementClient r) a w = (x, w') \<longrightarrow> R w w') \<and>
     (\<forall>a w x w'. IsRestartComplete (ManagementClient r) a w = (x, w') \<longrightarrow> R w w') \<and>
     (\<forall>a w x w'. CheckAPIServerForNonTerminalProvisionJob r a w = (x, w') \<longrightarrow> R w w')"

locale kept_by_services =
  fixes r :: "('p, 'w) bmi_reconciler" and R :: "'w \<Rightarrow> 'w \<Rightarrow> bool"
  assumes refl: "R w w"
    and trans: "R w w1 \<Longrightarrow> R w1 w2 \<Longrightarrow> R w w2"
    and find: "FindFreeHost (InventoryClient r) m w = (x1, w') \<Longrightarrow> R w w'"
    and get_power: "GetPowerState (ManagementClient r) a w = (x2, w') \<Longrightarrow> R w w'"
    and set_power: "SetPowerState (ManagementClient r) a t w = (x3, w') \<Longrightarrow> R w w'"
    and restart: "TriggerRestart (ManagementClient r) a w = (x3, w') \<Longrightarrow> R w w'"
    and restart_complete: "IsRestartComplete (ManagementClient r) a w = (x4, w') \<Longrightarrow> R w w'"
    and check_jobs: "CheckAPIServerForNonTerminalProvisionJob r k w = (x5, w') \<Longrightarrow> R w w'"
begin

lemma read_power_keeps: "read_power r b w = (x, w') \<Longrightarrow> R w w'"
  by (auto simp: read_power_def split: prod.splits sum.splits option.splits dest: get_power)

lemma reconcilePower_keeps: "reconcilePower r b st w = (x, w') \<Longrightarrow> R w w'"
  by (auto simp: reconcilePower_def Let_def refl split: if_splits prod.splits option.splits dest: set_power)

lemma triggerRestart_keeps: "triggerRestart r b w = (x, b', w') \<Longrightarrow> R w w'"
  by (auto simp: triggerRestart_def refl split: if_splits prod.splits option.splits dest: restart)

lemma reconcileRestartTrigger_keeps: "reconcileRestartTrigger r b w = (x, b', w') \<Longrightarrow> R w w'"
  by (auto simp: reconcileRestartTrigger_def refl split: if_splits prod.splits sum.splits option.splits
      dest: restart_complete triggerRestart_keeps)

lemma reconcile_power_state_keeps: "reconcile_power_state r f b w = (x, b', w') \<Longrightarrow> R w w'"
  by (auto simp: reconcile_power_state_def split: if_splits prod.splits sum.splits
      dest!: read_power_keeps reconcilePower_keeps elim: trans)

lemma restart_and_power_keeps: "reconcile_restart_and_power r b w = (x, b', w') \<Longrightarrow> R w w'"
  by (auto simp: reconcile_restart_and_power_def Let_def split: if_splits prod.splits
      dest!: reconcileRestartTrigger_keeps reconcile_power_state_keeps elim: trans)

end

section \<open>The provisioning library\<close>

text \<open>
  The lifecycles of the provisioning library reach the object through the hooks they are given only:
  what the hooks and \<open>R\<close> keep of the object and the world, the lifecycle keeps.
\<close>

definition lifecycle_keeps :: "('p, 'w) bmi_reconciler \<Rightarrow> ('w \<Rightarrow> 'w \<Rightarrow> bool) \<Rightarrow> bool" where
  "lifecycle_keeps r R \<longleftrightarrow>
     (\<forall>P hooks s. (\<forall>b w w'. P (b, w) \<longrightarrow> R w w' \<longrightarrow> P (b, w')) \<longrightarrow>
        (\<forall>js s. P s \<longrightarrow> P (setJobs hooks js s)) \<longrightarrow> (\<forall>m s. P s \<longrightarrow> P (OnFailed hooks m s)) \<longrightarrow>
        (\<forall>s. P s \<longrightarrow> P (OnSuccess hooks s)) \<longrightarrow> (\<forall>s. P s \<longrightarrow> P (snd (checkJobs hooks s))) \<longrightarrow>
        (\<forall>s. P s \<longrightarrow> P (snd (saveStatus hooks s))) \<longrightarrow> P s \<longrightarrow>
        P (snd (RunProvisioningLifecycle r (ProvisioningProvider r) hooks s))) \<and>
     (\<forall>P hooks s. (\<forall>b w w'. P (b, w) \<longrightarrow> R w w' \<longrightarrow> P (b, w')) \<longrightarrow>
        (\<forall>js s. P s \<longrightarrow> P (setJobs hooks js s)) \<longrightarrow> P s \<longrightarrow>
        P (snd (RunDeprovisioningLifecycle r (ProvisioningProvider r) hooks s)))"

text \<open>A property of the object and the world that neither \<open>R\<close> nor a change of the status ends.\<close>

definition status_stable :: "('w \<Rightarrow> 'w \<Rightarrow> bool) \<Rightarrow> (bmi \<times> 'w \<Rightarrow> bool) \<Rightarrow> bool" where
  "status_stable R P \<longleftrightarrow> (\<forall>b w w'. P (b, w) \<longrightarrow> R w w' \<longrightarrow> P (b, w')) \<and>
     (\<forall>b b' w. P (b, w) \<longrightarrow> ispec b' = ispec b \<longrightarrow> imeta b' = imeta b \<longrightarrow> P (b', w))"

definition status_saved :: "('p, 'w) bmi_reconciler \<Rightarrow> (bmi \<times> 'w \<Rightarrow> bool) \<Rightarrow> bool" where
  "status_saved r P \<longleftrightarrow> (\<forall>b w x w'. P (b, w) \<longrightarrow> rStatusUpdate r b w = (x, w') \<longrightarrow>
     P (case x of Inl _ \<Rightarrow> b | Inr b' \<Rightarrow> b', w'))"

context kept_by_services
begin

lemma provisioning_hooks_keep:
  assumes "status_stable R P" and "status_saved r P" and "P s"
  shows "P (setJobs (provisioning_hooks r ver) js s)" and "P (OnFailed (provisioning_hooks r ver) m s)"
    and "P (OnSuccess (provisioning_hooks r ver) s)" and "P (snd (checkJobs (provisioning_hooks r ver) s))"
    and "P (snd (saveStatus (provisioning_hooks r ver) s))"
proof -
  obtain b w where s: "s = (b, w)" by fastforce
  have same: "P (b', w)" if "ispec b' = ispec b" "imeta b' = imeta b" for b'
    using assms(1,3) that unfolding s status_stable_def by blast
  show "P (setJobs (provisioning_hooks r ver) js s)" "P (OnFailed (provisioning_hooks r ver) m s)"
    "P (OnSuccess (provisioning_hooks r ver) s)"
    by (simp_all add: s provisioning_hooks_def bmi_job_hooks_def same)
  have "P (b, w')" if "R w w'" for w' using assms(1,3) that unfolding s status_stable_def by blast
  then show "P (snd (checkJobs (provisioning_hooks r ver) s))"
    by (auto simp: s provisioning_hooks_def split: prod.splits dest: check_jobs)
  have "P (case x of Inl _ \<Rightarrow> b | Inr b' \<Rightarrow> b', w')" if "rStatusUpdate r b w = (x, w')" for x w'
    using assms(2,3) that unfolding s status_saved_def by blast
  then show "P (snd (saveStatus (provisioning_hooks r ver) s))"
    by (fastforce simp: s provisioning_hooks_def split: prod.splits sum.splits)
qed

lemma reconcileProvisioning_keeps:
  assumes "lifecycle_keeps r R" and P: "status_stable R P" "status_saved r P" and "P (b, w)"
    and "reconcileProvisioning r b w = (x, b', w')"
  shows "P (b', w')"
proof (cases "ComputeDesiredConfigVersion r (config_of b)")
  case (Inl e)
  then show ?thesis using assms(4,5) by (auto simp: reconcileProvisioning_def)
next
  case (Inr ver)
  have same: "P (c', v)" if "P (c, v)" "ispec c' = ispec c" "imeta c' = imeta c" for c c' v
    using P(1) that unfolding status_stable_def by blast
  have stable: "P (c, v')" if "P (c, v)" "R v v'" for c v v'
    using P(1) that unfolding status_stable_def by blast
  let ?run = "RunProvisioningLifecycle r (ProvisioningProvider r) (provisioning_hooks r ver) (set_desiredConfigVersion ver b, w)"
  have "P (set_desiredConfigVersion ver b, w)" by (rule same[OF assms(4)]) simp_all
  then have "P (snd ?run)"
    by (rule assms(1)[unfolded lifecycle_keeps_def, THEN conjunct1, rule_format, rotated -1])
      (rule stable provisioning_hooks_keep[OF P]; assumption)+
  moreover have "ispec b' = ispec (fst (snd ?run)) \<and> imeta b' = imeta (fst (snd ?run)) \<and> w' = snd (snd ?run)"
    using assms(5) Inr
    by (auto simp: reconcileProvisioning_def Let_def split: prod.splits option.splits if_splits)
  ultimately show ?thesis using same[of "fst (snd ?run)" "snd (snd ?run)" b'] by simp
qed

end

lemma reconcileDeprovisioning_keeps:
  assumes "lifecycle_keeps r R" and P: "status_stable R P" and "P (b, w)"
    and "reconcileDeprovisioning r b w = (x, b', w')"
  shows "P (b', w')"
proof -
  let ?b = "if provisioningJobs (istatus b) = None then set_provisioningJobs (Some []) b else b"
  let ?run = "RunDeprovisioningLifecycle r (ProvisioningProvider r) (bmi_job_hooks r) (?b, w)"
  have same: "P (c', v)" if "P (c, v)" "ispec c' = ispec c" "imeta c' = imeta c" for c c' v
    using P that unfolding status_stable_def by blast
  have stable: "P (c, v')" if "P (c, v)" "R v v'" for c v v'
    using P that unfolding status_stable_def by blast
  have job_hook: "P (setJobs (bmi_job_hooks r) js s)" if "P s" for js s
    using same[of "fst s" "snd s"] that by (cases s) (simp add: bmi_job_hooks_def)
  have "P (?b, w)" by (rule same[OF assms(3)]) simp_all
  then have "P (snd ?run)"
    by (rule assms(1)[unfolded lifecycle_keeps_def, THEN conjunct2, rule_format, rotated -1])
      (rule stable job_hook; assumption)+
  moreover have "ispec b' = ispec (fst (snd ?run)) \<and> imeta b' = imeta (fst (snd ?run)) \<and> w' = snd (snd ?run)"
    using assms(4) by (auto simp: reconcileDeprovisioning_def Let_def split: prod.splits if_splits)
  ultimately show ?thesis using same[of "fst (snd ?run)" "snd (snd ?run)" b'] by simp
qed

section \<open>The controller's calls\<close>

text \<open>For any controller, a relation its services keep.\<close>

interpretation services: kept_by_services r "\<lambda>w w'. services_keep r R \<longrightarrow> R w w'"
  for r :: "('p, 'w) bmi_reconciler" and R
  by unfold_locales (auto simp: services_keep_def dest: reflpD transpD)

lemma services_keep_find: "services_keep r R \<Longrightarrow> FindFreeHost (InventoryClient r) m w = (x, w') \<Longrightarrow> R w w'"
  by (rule services.find[THEN mp])

lemma services_keep_trans: "services_keep r R \<Longrightarrow> R w w1 \<Longrightarrow> R w1 w2 \<Longrightarrow> R w w2"
  by (rule services.trans[THEN mp, of r R]) simp_all

lemma restart_and_power_frame:
  "services_keep r R \<Longrightarrow> reconcile_restart_and_power r b w = (x, b', w') \<Longrightarrow> R w w'"
  by (rule services.restart_and_power_keeps[THEN mp])

lemma reconcileProvisioning_frame:
  assumes "services_keep r R" and "lifecycle_keeps r R" and "status_stable R P" and "status_saved r P" and "P (b, w)"
    and "reconcileProvisioning r b w = (x, b', w')"
  shows "P (b', w')"
proof -
  have "(\<lambda>w w'. services_keep r R \<longrightarrow> R w w') = R" using assms(1) by simp
  note keeps = services.reconcileProvisioning_keeps[of r R, unfolded this]
  show ?thesis by (rule keeps[OF assms(2-6)])
qed

end
