(* ===== verification/Allocation_Refinement.thy ===== *)
theory Allocation_Refinement
  imports Allocation_Protocol Instance_Frames
begin

text \<open>
  The instance controller follows the allocation protocol: one call of \<open>Reconcile\<close>, with other
  workers and users acting between any two of its requests, moves the claims and marks of the
  cluster along a path of protocol steps. The lemmas follow the handlers from the inside out, once
  for every inventory backend that meets \<open>inventory_contract\<close>; the properties are stated for Metal3.
\<close>

section \<open>The cluster seen by one worker\<close>

definition claim_of :: "lib \<Rightarrow> bmi \<Rightarrow> claim" where
  "claim_of L b = \<lparr>claimUID = objUID (imeta b), claimHost = externalHostID (ispec b),
     claimClass = hostClass (ispec b), claimDeleting = (\<not> time_IsZero L (deletionTimestamp (imeta b)))\<rparr>"

text \<open>
  What may happen between two requests of the worker on the object \<open>k\<close>, whose host is \<open>h\<close>: any steps
  of the protocol, except that a concurrent change of the object itself is left out (it makes the
  worker's next update fail with a conflict) and that the mark of the host, which the worker has
  locked, stays.
\<close>

definition others :: "bool \<Rightarrow> object_key \<Rightarrow> string \<Rightarrow> cluster \<Rightarrow> cluster \<Rightarrow> bool" where
  "others own k h s s' \<longleftrightarrow> protocol_path own s s' \<and> claims s' k = claims s k \<and> marks s' h = marks s h"

lemma others_refl [simp, intro]: "others own k h s s"
  by (simp add: others_def)

lemma others_trans [trans]: "others own k h s t \<Longrightarrow> others own k h t u \<Longrightarrow> others own k h s u"
  unfolding others_def using protocol_path_trans by metis

text \<open>
  A write of the object stores its claim, or removes an object that is being deleted and has no
  finalizer left.
\<close>

definition object_written :: "lib \<Rightarrow> bmi \<Rightarrow> cluster \<Rightarrow> cluster \<Rightarrow> bool" where
  "object_written L b s s' \<longleftrightarrow>
     s' = s\<lparr>claims := (claims s)(bmi_key b \<mapsto> claim_of L b)\<rparr> \<or>
     finalizers (imeta b) = [] \<and> claimDeleting (claim_of L b) \<and> s' = s\<lparr>claims := (claims s)(bmi_key b := None)\<rparr>"

text \<open>The object in memory agrees with the stored claim.\<close>

definition in_sync :: "lib \<Rightarrow> ('w \<Rightarrow> cluster) \<Rightarrow> object_key \<Rightarrow> bmi \<Rightarrow> 'w \<Rightarrow> bool" where
  "in_sync L view k b w \<longleftrightarrow> bmi_key b = k \<and> claims (view w) k = Some (claim_of L b)"

definition object_laws ::
    "('p, 'w) bmi_reconciler \<Rightarrow> ('w \<Rightarrow> cluster) \<Rightarrow> bool \<Rightarrow> object_key \<Rightarrow> string \<Rightarrow> bool" where
  "object_laws r view own k h \<longleftrightarrow>
     (\<forall>w b w'. rGet r k w = (Inr b, w') \<longrightarrow> others own k h (view w) (view w') \<and> in_sync (rLib r) view k b w') \<and>
     (\<forall>w e w'. rGet r k w = (Inl e, w') \<longrightarrow> others own k h (view w) (view w')) \<and>
     (\<forall>b w b' w'. bmi_key b = k \<longrightarrow> rUpdate r b w = (Inr b', w') \<longrightarrow> same_object b b' \<and>
        (\<exists>s. others own k h (view w) s \<and> object_written (rLib r) b s (view w'))) \<and>
     (\<forall>b w e w'. bmi_key b = k \<longrightarrow> rUpdate r b w = (Inl e, w') \<longrightarrow>
        (\<exists>s. others own k h (view w) s \<and> (view w' = s \<or> object_written (rLib r) b s (view w')))) \<and>
     (\<forall>b w x w'. rStatusUpdate r b w = (x, w') \<longrightarrow> others own k h (view w) (view w')) \<and>
     (\<forall>b w b' w'. in_sync (rLib r) view k b w \<longrightarrow> rStatusUpdate r b w = (Inr b', w') \<longrightarrow>
        claim_of (rLib r) b' = claim_of (rLib r) b \<and> bmi_key b' = bmi_key b)"

text \<open>
  The other services the worker calls do not touch claims and marks themselves; and the lifecycle of
  the provisioning library reaches the object through the hooks it is given only.
\<close>

definition service_laws ::
    "('p, 'w) bmi_reconciler \<Rightarrow> ('w \<Rightarrow> cluster) \<Rightarrow> bool \<Rightarrow> object_key \<Rightarrow> string \<Rightarrow> bool" where
  "service_laws r view own k h \<longleftrightarrow> services_keep r (\<lambda>w w'. others own k h (view w) (view w'))"

definition lifecycle_laws ::
    "('p, 'w) bmi_reconciler \<Rightarrow> ('w \<Rightarrow> cluster) \<Rightarrow> bool \<Rightarrow> object_key \<Rightarrow> string \<Rightarrow> bool" where
  "lifecycle_laws r view own k h \<longleftrightarrow> lifecycle_keeps r (\<lambda>w w'. others own k h (view w) (view w'))"

lemma others_order [simp]:
  "reflp (\<lambda>w w'. others own k h (view w) (view w'))" "transp (\<lambda>w w'. others own k h (view w) (view w'))"
  by (auto simp: reflp_def transp_def elim: others_trans)

section \<open>Calls that leave the object alone\<close>

lemma claim_of_same: "same_object b b' \<Longrightarrow> claim_of L b' = claim_of L b \<and> bmi_key b' = bmi_key b"
  by (simp add: same_object_def claim_of_def bmi_key_def)

lemma claim_of_frame:
  "ispec b' = ispec b \<Longrightarrow> imeta b' = imeta b \<Longrightarrow> claim_of L b' = claim_of L b \<and> bmi_key b' = bmi_key b"
  by (simp add: claim_of_def bmi_key_def)

lemma claim_of_finalizers [simp]:
  "claim_of L (set_bmi_finalizers fs b) = claim_of L b" "bmi_key (set_bmi_finalizers fs b) = bmi_key b"
  by (simp_all add: claim_of_def bmi_key_def)

lemma claim_of_status [simp]:
  "claim_of L (set_bmi_condition L' t s reason m b) = claim_of L b"
  "bmi_key (set_bmi_condition L' t s reason m b) = bmi_key b"
  "claim_of L (set_phase ph b) = claim_of L b" "bmi_key (set_phase ph b) = bmi_key b"
  "claim_of L (set_provisioningJobs js b) = claim_of L b" "bmi_key (set_provisioningJobs js b) = bmi_key b"
  "claim_of L (set_desiredConfigVersion v b) = claim_of L b" "bmi_key (set_desiredConfigVersion v b) = bmi_key b"
  by (simp_all add: claim_of_def bmi_key_def)

lemma claim_of_externalHostID [simp]:
  "claim_of L (set_externalHostID x b) = (claim_of L b)\<lparr>claimHost := x\<rparr>" "bmi_key (set_externalHostID x b) = bmi_key b"
  by (simp_all add: claim_of_def bmi_key_def)

lemma object_calls:
  assumes "object_laws r view own k h"
  shows "rGet r k w = (Inr b, w') \<Longrightarrow> others own k h (view w) (view w') \<and> in_sync (rLib r) view k b w'"
    and "rGet r k w = (Inl e, w') \<Longrightarrow> others own k h (view w) (view w')"
    and "bmi_key b = k \<Longrightarrow> rUpdate r b w = (Inr b', w') \<Longrightarrow> same_object b b' \<and>
      (\<exists>s. others own k h (view w) s \<and> object_written (rLib r) b s (view w'))"
    and "bmi_key b = k \<Longrightarrow> rUpdate r b w = (Inl e, w') \<Longrightarrow>
      \<exists>s. others own k h (view w) s \<and> (view w' = s \<or> object_written (rLib r) b s (view w'))"
    and "rStatusUpdate r b w = (x, w') \<Longrightarrow> others own k h (view w) (view w')"
    and "in_sync (rLib r) view k b w \<Longrightarrow> rStatusUpdate r b w = (Inr b', w') \<Longrightarrow>
      claim_of (rLib r) b' = claim_of (rLib r) b \<and> bmi_key b' = bmi_key b"
proof -
  note L = assms[unfolded object_laws_def]
  show "rGet r k w = (Inr b, w') \<Longrightarrow> others own k h (view w) (view w') \<and> in_sync (rLib r) view k b w'" using L by metis
  show "rGet r k w = (Inl e, w') \<Longrightarrow> others own k h (view w) (view w')" using L by metis
  show "bmi_key b = k \<Longrightarrow> rUpdate r b w = (Inr b', w') \<Longrightarrow> same_object b b' \<and>
      (\<exists>s. others own k h (view w) s \<and> object_written (rLib r) b s (view w'))" using L by metis
  show "bmi_key b = k \<Longrightarrow> rUpdate r b w = (Inl e, w') \<Longrightarrow>
      \<exists>s. others own k h (view w) s \<and> (view w' = s \<or> object_written (rLib r) b s (view w'))" using L by metis
  show "rStatusUpdate r b w = (x, w') \<Longrightarrow> others own k h (view w) (view w')" using L by metis
  show "in_sync (rLib r) view k b w \<Longrightarrow> rStatusUpdate r b w = (Inr b', w') \<Longrightarrow>
      claim_of (rLib r) b' = claim_of (rLib r) b \<and> bmi_key b' = bmi_key b" using L by metis
qed

lemma find_others:
  "service_laws r view own k h \<Longrightarrow> FindFreeHost (InventoryClient r) m w = (x, w') \<Longrightarrow> others own k h (view w) (view w')"
  unfolding service_laws_def by (rule services_keep_find)

lemma restart_and_power_others:
  "service_laws r view own k h \<Longrightarrow> reconcile_restart_and_power r b w = (x, b', w') \<Longrightarrow> others own k h (view w) (view w')"
  unfolding service_laws_def by (rule restart_and_power_frame)

section \<open>Writes of the object\<close>

lemma in_sync_others: "in_sync L view k b w \<Longrightarrow> others own k h (view w) (view w') \<Longrightarrow> in_sync L view k b w'"
  by (simp add: in_sync_def others_def)

lemma in_sync_cong:
  "in_sync L view k b w \<Longrightarrow> claim_of L b' = claim_of L b \<and> bmi_key b' = bmi_key b \<Longrightarrow> in_sync L view k b' w"
  by (simp add: in_sync_def)

lemma others_path: "others own k h s s' \<Longrightarrow> protocol_path own s s'"
  by (simp add: others_def)

lemma object_written_path:
  assumes "object_written L b s s'" and "bmi_key b = k" and "claims s k = Some c"
    and "claimDeleting (claim_of L b) = claimDeleting c"
    and "protocol_path own s (s\<lparr>claims := (claims s)(k \<mapsto> claim_of L b)\<rparr>)"
  shows "protocol_path own s s'"
  using assms protocol_path_step[OF protocol_step.Gone[of s k c]] by (auto simp: object_written_def)

lemma update_path:
  assumes "object_laws r view own k h" and "rUpdate r b w = (x, w')" and "bmi_key b = k"
    and "claims (view w) k = Some c" and "claimDeleting (claim_of (rLib r) b) = claimDeleting c"
    and "\<And>s. others own k h (view w) s \<Longrightarrow> protocol_path own s (s\<lparr>claims := (claims s)(k \<mapsto> claim_of (rLib r) b)\<rparr>)"
  shows "protocol_path own (view w) (view w')"
proof -
  from assms(1-3) obtain s where s: "others own k h (view w) s"
    "view w' = s \<or> object_written (rLib r) b s (view w')"
    by (cases x) (auto dest: object_calls)
  from s(1) assms(4) have "claims s k = Some c" by (simp add: others_def)
  with s(2) assms(3,5,6) s(1) have "protocol_path own s (view w')"
    by (auto intro: object_written_path)
  with s(1) show ?thesis by (metis others_path protocol_path_trans)
qed

text \<open>A write that changes finalizers or status only.\<close>

lemma update_in_sync:
  assumes "object_laws r view own k h" and "rUpdate r b w = (Inr b', w')" and "in_sync (rLib r) view k b w"
  shows "same_object b b'"
    and "others own k h (view w) (view w') \<and> in_sync (rLib r) view k b' w' \<or>
      finalizers (imeta b') = [] \<and> marks (view w') h = marks (view w) h \<and> protocol_path own (view w) (view w')"
proof -
  have key: "bmi_key b = k" "claims (view w) k = Some (claim_of (rLib r) b)" using assms(3) by (auto simp: in_sync_def)
  from object_calls(3)[OF assms(1) key(1) assms(2)] obtain s where same: "same_object b b'"
    and s: "others own k h (view w) s" "object_written (rLib r) b s (view w')" by blast
  show "same_object b b'" by fact
  from s(1) key(2) have stored: "claims s k = Some (claim_of (rLib r) b)" by (simp add: others_def)
  from s(2) consider "view w' = s" | "finalizers (imeta b) = []" "claimDeleting (claim_of (rLib r) b)"
      "view w' = s\<lparr>claims := (claims s)(k := None)\<rparr>"
    using stored key(1) by (auto simp: object_written_def fun_upd_idem)
  then show "others own k h (view w) (view w') \<and> in_sync (rLib r) view k b' w' \<or>
      finalizers (imeta b') = [] \<and> marks (view w') h = marks (view w) h \<and> protocol_path own (view w) (view w')"
  proof cases
    case 1
    then show ?thesis using s(1) stored claim_of_same[OF same, of "rLib r"] key(1) by (auto simp: in_sync_def)
  next
    case 2
    then have "protocol_path own s (view w')"
      using protocol_path_step[OF protocol_step.Gone[OF stored]] by simp
    then show ?thesis using 2 s(1) same protocol_path_trans[of own "view w" s] by (auto simp: others_def same_object_def)
  qed
qed

lemma update_same_path:
  assumes "object_laws r view own k h" and "rUpdate r b w = (x, w')" and "in_sync (rLib r) view k b w"
  shows "protocol_path own (view w) (view w')"
  by (rule update_path[OF assms(1,2)]) (use assms(3) in \<open>auto simp: in_sync_def others_def fun_upd_idem\<close>)

section \<open>Management\<close>

definition kept ::
    "lib \<Rightarrow> ('w \<Rightarrow> cluster) \<Rightarrow> bool \<Rightarrow> object_key \<Rightarrow> string \<Rightarrow> 'w \<Rightarrow> bmi \<times> 'w \<Rightarrow> bool" where
  "kept L view own k h w0 s \<longleftrightarrow> others own k h (view w0) (view (snd s)) \<and> in_sync L view k (fst s) (snd s)"

lemma kept_others:
  "kept L view own k h w0 (b, w) \<Longrightarrow> others own k h (view w) (view w') \<Longrightarrow> kept L view own k h w0 (b, w')"
  using others_trans[of own k h "view w0" "view w"] in_sync_others by (fastforce simp: kept_def)

lemma kept_same:
  "kept L view own k h w0 (b, w) \<Longrightarrow> claim_of L b' = claim_of L b \<and> bmi_key b' = bmi_key b \<Longrightarrow>
     kept L view own k h w0 (b', w)"
  by (simp add: kept_def in_sync_def)

lemma kept_start: "in_sync L view k b w \<Longrightarrow> kept L view own k h w (b, w)"
  by (simp add: kept_def)

lemma kept_stable: "status_stable (\<lambda>w w'. others own k h (view w) (view w')) (kept L view own k h w0)"
  unfolding status_stable_def
  by (intro conjI allI impI) (erule kept_others, assumption, erule kept_same, (rule claim_of_frame; assumption))

lemma kept_saved:
  assumes "object_laws r view own k h"
  shows "status_saved r (kept (rLib r) view own k h w0)"
  unfolding status_saved_def
proof (intro allI impI)
  fix b w x w' assume k: "kept (rLib r) view own k h w0 (b, w)" and st: "rStatusUpdate r b w = (x, w')"
  have k1: "kept (rLib r) view own k h w0 (b, w')" by (rule kept_others[OF k object_calls(5)[OF assms st]])
  have "claim_of (rLib r) b' = claim_of (rLib r) b \<and> bmi_key b' = bmi_key b" if "x = Inr b'" for b'
    using object_calls(6)[OF assms _ st[unfolded that]] k by (simp add: kept_def)
  then show "kept (rLib r) view own k h w0 (case x of Inl _ \<Rightarrow> b | Inr b' \<Rightarrow> b', w')"
    using k1 kept_same[OF k1] by (cases x) auto
qed

lemma reconcileProvisioning_others:
  assumes "object_laws r view own k h" and "service_laws r view own k h" and "lifecycle_laws r view own k h"
    and "reconcileProvisioning r b w = (x, b', w')" and "in_sync (rLib r) view k b w"
  shows "others own k h (view w) (view w')"
proof -
  have "kept (rLib r) view own k h w (b', w')"
    by (rule reconcileProvisioning_frame[OF assms(2,3)[unfolded service_laws_def lifecycle_laws_def] kept_stable
          kept_saved[OF assms(1)] kept_start[OF assms(5)] assms(4)])
  then show ?thesis by (simp add: kept_def)
qed

lemma reconcileManagement_path:
  assumes "object_laws r view own k h" and "service_laws r view own k h" and "lifecycle_laws r view own k h"
    and "reconcileManagement r b w = (x, b', w')" and "in_sync (rLib r) view k b w"
  shows "protocol_path own (view w) (view w')"
proof -
  have upd: "protocol_path own (view w) (view w1)"
    if "rUpdate r (set_bmi_finalizers fs b) w = (y, w1)" for fs y w1
    by (rule update_same_path[OF assms(1) that]) (use assms(5) in \<open>simp add: in_sync_def\<close>)
  have prov: "others own k h (view w) (view w1)"
    if "reconcileProvisioning r (set_bmi_finalizers fs b) w = (y, b1, w1)" for fs y b1 w1
    by (rule reconcileProvisioning_others[OF assms(1-3) that]) (use assms(5) in \<open>simp add: in_sync_def\<close>)
  show ?thesis using assms(4)
    by (auto simp: reconcileManagement_def Let_def split: prod.splits if_splits sum.splits option.splits
        dest!: upd prov restart_and_power_others[OF assms(2)] intro: others_path elim: others_trans)
qed

section \<open>Deletion\<close>

lemma reconcileDeprovisioning_kept:
  assumes "lifecycle_laws r view own k h" and "reconcileDeprovisioning r b w = (x, b', w')"
    and "in_sync (rLib r) view k b w"
  shows "kept (rLib r) view own k h w (b', w')"
  by (rule reconcileDeprovisioning_keeps[OF assms(1)[unfolded lifecycle_laws_def] kept_stable kept_start[OF assms(3)] assms(2)])

text \<open>Where the cleanup stands after its management part.\<close>

definition cleaned ::
    "lib \<Rightarrow> ('w \<Rightarrow> cluster) \<Rightarrow> bool \<Rightarrow> object_key \<Rightarrow> string \<Rightarrow> 'w \<Rightarrow> bmi \<times> 'w \<Rightarrow> bool" where
  "cleaned L view own k h w0 s \<longleftrightarrow> kept L view own k h w0 s \<or>
     finalizers (imeta (fst s)) = [] \<and> protocol_path own (view w0) (view (snd s))"

lemma cleaned_path: "cleaned L view own k h w0 (b, w) \<Longrightarrow> protocol_path own (view w0) (view w)"
  by (auto simp: cleaned_def kept_def others_def)

lemma finish_cleaned:
  assumes "object_laws r view own k h" and "rUpdate r (set_bmi_finalizers fs b) w = (x, w')"
    and "kept (rLib r) view own k h w0 (b, w)"
  shows "protocol_path own (view w0) (view w')"
    and "x = Inr b' \<Longrightarrow> cleaned (rLib r) view own k h w0 (b', w')"
proof -
  have sync: "in_sync (rLib r) view k (set_bmi_finalizers fs b) w" and path: "others own k h (view w0) (view w)"
    using assms(3) by (simp_all add: kept_def in_sync_def)
  show "protocol_path own (view w0) (view w')"
    using protocol_path_trans[OF others_path[OF path] update_same_path[OF assms(1,2) sync]] .
  show "cleaned (rLib r) view own k h w0 (b', w')" if x: "x = Inr b'"
    using update_in_sync(2)[OF assms(1) assms(2)[unfolded x] sync] path others_trans[OF path]
      protocol_path_trans[OF others_path[OF path]]
    by (auto simp: cleaned_def kept_def)
qed

lemma management_cleanup_cleaned:
  assumes "object_laws r view own k h" and "lifecycle_laws r view own k h"
    and "management_cleanup r b w = (out, b', w')" and "in_sync (rLib r) view k b w"
  shows "protocol_path own (view w) (view w')" and "out = None \<Longrightarrow> cleaned (rLib r) view own k h w (b', w')"
proof -
  let ?d = "set_phase BareMetalInstancePhaseDeleting b"
  have start: "kept (rLib r) view own k h w (?d, w)"
    using kept_same[OF kept_start[OF assms(4)]] by simp
  have dep: "kept (rLib r) view own k h w (y, u)" if "reconcileDeprovisioning r ?d w = (x, y, u)" for x y u
    using reconcileDeprovisioning_kept[OF assms(2) that] start by (simp add: kept_def)
  note path = dep[THEN cleaned_def[THEN iffD2, OF disjI1], THEN cleaned_path]
  show "protocol_path own (view w) (view w')"
    using assms(3)
    by (auto simp: management_cleanup_def Let_def split: if_splits prod.splits sum.splits
        dest: finish_cleaned(1)[OF assms(1) _ start] finish_cleaned(1)[OF assms(1) _ dep] path)
  show "cleaned (rLib r) view own k h w (b', w')" if "out = None"
    using assms(3) that kept_start[OF assms(4)]
    by (auto simp: management_cleanup_def Let_def cleaned_def[THEN iffD2, OF disjI1]
        split: if_splits prod.splits sum.splits
        dest: finish_cleaned(2)[OF assms(1) _ start, OF _ refl] finish_cleaned(2)[OF assms(1) _ dep, OF _ _ refl])
qed

section \<open>Inventory\<close>

text \<open>
  How a backend sits in the cluster: its marks are the cluster's marks, and it does not write instance
  objects. While it works on the locked host, other workers mark and release other hosts only, and
  an earlier request of the same call may have given the host the wanted mark \<open>t\<close> already: the marks
  in between are reached by steps of the protocol.
\<close>

definition may_become :: "bool \<Rightarrow> cluster \<Rightarrow> claim \<Rightarrow> string option \<Rightarrow> bool" where
  "may_become own s cl t \<longleftrightarrow>
     t = Some (claimUID cl) \<or> t = None \<and> claimDeleting cl \<and> (own \<longrightarrow> free_or_own s cl)"

abbreviation marked_as :: "('w \<Rightarrow> cluster) \<Rightarrow> 'w \<Rightarrow> (string \<Rightarrow> string option) \<Rightarrow> cluster" where
  "marked_as view w ms \<equiv> (view w)\<lparr>marks := ms\<rparr>"

definition host_laws ::
    "('w \<Rightarrow> cluster) \<Rightarrow> ('w \<Rightarrow> string \<Rightarrow> string option) \<Rightarrow> (string \<Rightarrow> string option \<Rightarrow> 'w \<Rightarrow> 'w \<Rightarrow> bool) \<Rightarrow>
     ('p, 'w) bmi_reconciler \<Rightarrow> bool \<Rightarrow> object_key \<Rightarrow> string \<Rightarrow> bool" where
  "host_laws view consumer during r own k h \<longleftrightarrow>
     (\<forall>w. marks (view w) = consumer w) \<and>
     (\<forall>t w w1 cl. during h t w w1 \<longrightarrow> claims (view w) k = Some cl \<longrightarrow> claimHost cl = h \<longrightarrow>
        may_become own (view w) cl t \<longrightarrow>
        protocol_path own (view w) (marked_as view w (consumer w1)) \<and>
        (consumer w1 h = consumer w h \<or> consumer w1 h = t)) \<and>
     (\<forall>c ls w x w'. AssignHost (InventoryClient r) h c ls w = (x, w') \<longrightarrow> claims (view w') = claims (view w)) \<and>
     (\<forall>ks w x w'. UnassignHost (InventoryClient r) h ks w = (x, w') \<longrightarrow> claims (view w') = claims (view w))"

lemma host_lawsD:
  assumes "host_laws view consumer during r own k h"
  shows "marks (view w) = consumer w"
    and "during h t w w1 \<Longrightarrow> claims (view w) k = Some cl \<Longrightarrow> claimHost cl = h \<Longrightarrow> may_become own (view w) cl t \<Longrightarrow>
      protocol_path own (view w) (marked_as view w (consumer w1))"
    and "during h t w w1 \<Longrightarrow> claims (view w) k = Some cl \<Longrightarrow> claimHost cl = h \<Longrightarrow> may_become own (view w) cl t \<Longrightarrow>
      consumer w1 h = consumer w h \<or> consumer w1 h = t"
    and "AssignHost (InventoryClient r) h c ls w = (x, w') \<Longrightarrow> claims (view w') = claims (view w)"
    and "UnassignHost (InventoryClient r) h ks w = (y, w') \<Longrightarrow> claims (view w') = claims (view w)"
proof -
  note H = assms[unfolded host_laws_def]
  show "marks (view w) = consumer w" using H by blast
  show "during h t w w1 \<Longrightarrow> claims (view w) k = Some cl \<Longrightarrow> claimHost cl = h \<Longrightarrow> may_become own (view w) cl t \<Longrightarrow>
      protocol_path own (view w) (marked_as view w (consumer w1))" using H by blast
  show "during h t w w1 \<Longrightarrow> claims (view w) k = Some cl \<Longrightarrow> claimHost cl = h \<Longrightarrow> may_become own (view w) cl t \<Longrightarrow>
      consumer w1 h = consumer w h \<or> consumer w1 h = t" using H by blast
  show "AssignHost (InventoryClient r) h c ls w = (x, w') \<Longrightarrow> claims (view w') = claims (view w)" using H by metis
  show "UnassignHost (InventoryClient r) h ks w = (y, w') \<Longrightarrow> claims (view w') = claims (view w)" using H by metis
qed

lemma marked_view: "claims s = claims t \<Longrightarrow> s = (t :: cluster)\<lparr>marks := marks s\<rparr>"
  by simp

context inventory_contract
begin

lemma assign_path:
  assumes "laws" and "labels_ok ls" and "AssignHost (InventoryClient r) = assign"
    and H: "host_laws view consumer during r own k h"
    and run: "assign h c ls w = (x, w')" and "claims (view w) k = Some cl" and "claimHost cl = h" and "claimUID cl = c"
  shows "protocol_path own (view w) (view w')" and "claims (view w') = claims (view w)"
    and "x = Inr (Some y) \<Longrightarrow> marks (view w') h = Some c"
proof -
  note D = host_lawsD[OF H]
  show cl: "claims (view w') = claims (view w)" using D(4) run assms(3) by metis
  have v: "view w' = marked_as view w (consumer w')" using marked_view[OF cl] D(1) by simp
  have path: "protocol_path own (view w) (marked_as view w (consumer w1))" if "during h (Some c) w w1" for w1
    using D(2)[OF that assms(6,7)] assms(8) by (simp add: may_become_def)
  have marking: "protocol_path own (view w) (view w')"
    if d: "during h (Some c) w w1" and free: "consumer w1 h = None \<or> consumer w1 h = Some c"
      and upd: "consumer w' = (consumer w1)(h \<mapsto> c)" for w1
  proof -
    let ?s = "marked_as view w (consumer w1)"
    have "protocol_step own k ?s (?s\<lparr>marks := (marks ?s)(claimHost cl \<mapsto> claimUID cl)\<rparr>)"
      by (rule protocol_step.Mark) (use assms(6-8) free in \<open>auto simp: free_or_own_def\<close>)
    moreover have "?s\<lparr>marks := (marks ?s)(claimHost cl \<mapsto> claimUID cl)\<rparr> = view w'" using v upd assms(7,8) by simp
    ultimately show ?thesis using path[OF d] protocol_path_step protocol_path_trans by metis
  qed
  have still: "protocol_path own (view w) (view w')"
    if "during h (Some c) w w1" and "consumer w' = consumer w1" for w1
    using path[OF that(1)] v that(2) by simp
  show "protocol_path own (view w) (view w')"
  proof (cases x)
    case (Inl e)
    then show ?thesis using assign_fails[OF assms(1,2) run[unfolded Inl]] marking still by blast
  next
    case (Inr a)
    show ?thesis
    proof (cases a)
      case None
      then show ?thesis using assign_busy[OF assms(1,2) run[unfolded Inr None]] still by blast
    next
      case (Some y)
      then show ?thesis using assign_takes[OF assms(1,2) run[unfolded Inr Some]] marking by blast
    qed
  qed
  show "marks (view w') h = Some c" if "x = Inr (Some y)"
    using assigned_is_held[OF assms(1,2) run[unfolded that]] D(1) by simp
qed

lemma unassign_path:
  assumes "laws" and "UnassignHost (InventoryClient r) = unassign"
    and H: "host_laws view consumer during r own k h"
    and run: "unassign h ks w = (x, w')" and "claims (view w) k = Some cl" and "claimHost cl = h"
    and "claimDeleting cl" and "own \<longrightarrow> free_or_own (view w) cl"
  shows "protocol_path own (view w) (view w')" and "claims (view w') = claims (view w)"
proof -
  note D = host_lawsD[OF H]
  show cl: "claims (view w') = claims (view w)" using D(5) run assms(2) by metis
  have v: "view w' = marked_as view w (consumer w')" using marked_view[OF cl] D(1) by simp
  have may: "may_become own (view w) cl None" using assms(7,8) by (simp add: may_become_def)
  note path = D(2)[OF _ assms(5,6) may] and mark = D(3)[OF _ assms(5,6) may]
  have release: "protocol_path own (view w) (view w')"
    if d: "during h None w w1" and upd: "consumer w' = (consumer w1)(h := None)" for w1
  proof -
    let ?s = "marked_as view w (consumer w1)"
    have "protocol_step own k ?s (?s\<lparr>marks := (marks ?s)(claimHost cl := None)\<rparr>)"
      by (rule protocol_step.Release)
        (use assms(5-8) mark[OF d] D(1) in \<open>auto simp: free_or_own_def\<close>)
    moreover have "?s\<lparr>marks := (marks ?s)(claimHost cl := None)\<rparr> = view w'" using v upd assms(6) by simp
    ultimately show ?thesis using path[OF d] protocol_path_step protocol_path_trans by metis
  qed
  have still: "protocol_path own (view w) (view w')"
    if "during h None w w1" and "consumer w' = consumer w1" for w1
    using path[OF that(1)] v that(2) by simp
  show "protocol_path own (view w) (view w')"
  proof (cases x)
    case None
    then show ?thesis using unassign_frees[OF assms(1) run[unfolded None]] release by blast
  next
    case (Some e)
    then show ?thesis using unassign_fails[OF assms(1) run[unfolded Some]] release still by blast
  qed
qed

end

section \<open>The handlers\<close>

lemma claim_of_simps [simp]:
  "claimUID (claim_of L b) = objUID (imeta b)" "claimHost (claim_of L b) = externalHostID (ispec b)"
  "claimClass (claim_of L b) = hostClass (ispec b)"
  by (simp_all add: claim_of_def)

lemma choose_update_path:
  assumes "object_laws r view own k h" and "rUpdate r (set_externalHostID y b) w = (x, w')"
    and "in_sync (rLib r) view k b w" and "hostClass (ispec b) = ''''"
  shows "protocol_path own (view w) (view w')"
proof (rule update_path[OF assms(1,2)])
  show "bmi_key (set_externalHostID y b) = k" "claims (view w) k = Some (claim_of (rLib r) b)"
    "claimDeleting (claim_of (rLib r) (set_externalHostID y b)) = claimDeleting (claim_of (rLib r) b)"
    using assms(3) by (simp_all add: in_sync_def)
  fix s
  assume "others own k h (view w) s"
  then show "protocol_path own s (s\<lparr>claims := (claims s)(k \<mapsto> claim_of (rLib r) (set_externalHostID y b))\<rparr>)"
    using protocol_step.Choose[of s k "claim_of (rLib r) b" own y] assms(3,4)
    by (intro protocol_path_step[of own k]) (simp add: in_sync_def others_def)
qed

lemma record_update_path:
  assumes "object_laws r view own k h"
    and "rUpdate r (b\<lparr>ispec := (ispec b)\<lparr>hostClass := hc, networkClass := nc\<rparr>\<rparr>) w = (x, w')"
    and "in_sync (rLib r) view k b w" and "externalHostID (ispec b) = h" and "marks (view w) h = Some (objUID (imeta b))"
  shows "protocol_path own (view w) (view w')"
proof (rule update_path[OF assms(1,2)])
  let ?b = "b\<lparr>ispec := (ispec b)\<lparr>hostClass := hc, networkClass := nc\<rparr>\<rparr>"
  have c: "claim_of (rLib r) ?b = (claim_of (rLib r) b)\<lparr>claimClass := hc\<rparr>" by (simp add: claim_of_def)
  show "bmi_key ?b = k" "claims (view w) k = Some (claim_of (rLib r) b)"
    "claimDeleting (claim_of (rLib r) ?b) = claimDeleting (claim_of (rLib r) b)"
    unfolding c using assms(3) by (simp_all add: in_sync_def bmi_key_def)
  fix s
  assume "others own k h (view w) s"
  then show "protocol_path own s (s\<lparr>claims := (claims s)(k \<mapsto> claim_of (rLib r) ?b)\<rparr>)"
    unfolding c using protocol_step.Record[of s k "claim_of (rLib r) b" own hc] assms(3-5)
    by (intro protocol_path_step[of own k]) (simp add: in_sync_def others_def)
qed

lemma select_host_path:
  assumes "object_laws r view own k h" and "service_laws r view own k h"
    and "select_host r b w = (x, b', w')" and "in_sync (rLib r) view k b w" and "hostClass (ispec b) = ''''"
  shows "protocol_path own (view w) (view w')"
proof -
  have pick: "protocol_path own (view w) (view w2)"
    if "FindFreeHost (InventoryClient r) (match_expressions b) w = (y, w1)"
      "rUpdate r (set_externalHostID z b) w1 = (u, w2)" for y w1 z u w2
    using choose_update_path[OF assms(1) that(2) in_sync_others[OF assms(4)] assms(5)]
      find_others[OF assms(2) that(1)] others_path protocol_path_trans by metis
  show ?thesis using assms(3)
    by (auto simp: select_host_def Let_def split: prod.splits sum.splits option.splits
        dest: pick others_path[OF find_others[OF assms(2)]])
qed

context inventory_contract
begin

lemma acquire_host_path:
  assumes "laws" and "labels_ok (combined_labels b)" and "AssignHost (InventoryClient r) = assign"
    and H: "host_laws view consumer during r own k h" and O: "object_laws r view own k h"
    and run: "acquire_host r b w = (x, b', w')" and S: "in_sync (rLib r) view k b w"
    and h: "externalHostID (ispec b) = h" and "hostClass (ispec b) = ''''"
  shows "protocol_path own (view w) (view w')"
proof -
  obtain a w1 where as: "assign h (objUID (imeta b)) (combined_labels b) w = (a, w1)" by fastforce
  have c: "claims (view w) k = Some (claim_of (rLib r) b)" using S by (simp add: in_sync_def)
  note A = assign_path[OF assms(1-3) H as c]
  have p: "protocol_path own (view w) (view w1)" and S1: "in_sync (rLib r) view k b w1"
    and held: "\<And>y. a = Inr (Some y) \<Longrightarrow> marks (view w1) h = Some (objUID (imeta b))"
    using A h S by (simp_all add: in_sync_def)
  have up: "rUpdate r (set_externalHostID z b) w1 = (u, w2) \<Longrightarrow> protocol_path own (view w) (view w2)" for z u w2
    using choose_update_path[OF O _ S1 assms(9)] p protocol_path_trans by metis
  have rec: "a = Inr (Some y) \<Longrightarrow> rUpdate r (b\<lparr>ispec := (ispec b)\<lparr>hostClass := hc, networkClass := nc\<rparr>\<rparr>) w1 = (u, w2)
      \<Longrightarrow> protocol_path own (view w) (view w2)" for y hc nc u w2
    using record_update_path[OF O _ S1 h held] p protocol_path_trans by metis
  show ?thesis using run assms(3) as h p
    by (auto simp: acquire_host_def Let_def split: prod.splits sum.splits option.splits dest: up rec)
qed

lemma reconcileInventory_path:
  assumes "laws" and "labels_ok (combined_labels b)" and "AssignHost (InventoryClient r) = assign"
    and H: "host_laws view consumer during r own k h" and O: "object_laws r view own k h"
    and V: "service_laws r view own k h"
    and run: "reconcileInventory r b p = (x, b', p')" and S: "in_sync (rLib r) view k b (pworld p)"
    and h: "externalHostID (ispec b) = h" and "hostClass (ispec b) = ''''"
  shows "protocol_path own (view (pworld p)) (view (pworld p'))"
proof -
  let ?b = "cond r HostConditionAllocated ConditionFalse HostConditionReasonProgressing
                ''Allocating BareMetalInstance'' (set_phase BareMetalInstancePhaseAllocating b)"
  have sync: "in_sync (rLib r) view k (set_bmi_finalizers fs ?b) (pworld p)" for fs
    using S by (simp add: in_sync_def)
  have up: "rUpdate r (set_bmi_finalizers fs ?b) (pworld p) = (u, w2) \<Longrightarrow> protocol_path own (view (pworld p)) (view w2)"
    for fs u w2 using update_same_path[OF O _ sync] .
  have sel: "select_host r (set_bmi_finalizers fs ?b) (pworld p) = (u, y, w2) \<Longrightarrow>
      protocol_path own (view (pworld p)) (view w2)" for fs u y w2
    using select_host_path[OF O V _ sync] assms(10) by simp
  have acq: "acquire_host r (set_bmi_finalizers fs ?b) (pworld p) = (u, y, w2) \<Longrightarrow>
      protocol_path own (view (pworld p)) (view w2)" for fs u y w2
    using acquire_host_path[OF assms(1) _ assms(3) H O _ sync] assms(2,9,10) by (simp add: combined_labels_frame)
  show ?thesis using run
    by (auto simp: reconcileInventory_def Let_def split: prod.splits sum.splits if_splits dest: up sel acq)
qed

lemma drop_finalizer_path:
  assumes "object_laws r view own k h" and "drop_inventory_finalizer r b w = (x, b', w')"
    and "in_sync (rLib r) view k b w"
  shows "protocol_path own (view w) (view w')"
proof -
  have "in_sync (rLib r) view k (set_bmi_finalizers fs b) w" for fs using assms(3) by (simp add: in_sync_def)
  note up = update_same_path[OF assms(1) _ this]
  show ?thesis using assms(2)
    by (auto simp: drop_inventory_finalizer_def Let_def split: prod.splits sum.splits if_splits dest: up)
qed

lemma inventory_cleanup_path:
  assumes "laws" and "UnassignHost (InventoryClient r) = unassign"
    and H: "host_laws view consumer during r own k h" and O: "object_laws r view own k h"
    and run: "inventory_cleanup r b p = (x, b', p')" and S: "in_sync (rLib r) view k b (pworld p)"
    and h: "externalHostID (ispec b) = h" and del: "claimDeleting (claim_of (rLib r) b)"
    and free: "own \<longrightarrow> free_or_own (view (pworld p)) (claim_of (rLib r) b)"
  shows "protocol_path own (view (pworld p)) (view (pworld p'))"
proof -
  have c: "claims (view (pworld p)) k = Some (claim_of (rLib r) b)" using S by (simp add: in_sync_def)
  have un: "protocol_path own (view (pworld p)) (view w1) \<and> in_sync (rLib r) view k b w1"
    if "unassign h ks (pworld p) = (y, w1)" for ks y w1
    using unassign_path[OF assms(1,2) H that c _ del free] S h by (simp add: in_sync_def)
  note drop = drop_finalizer_path[OF O]
  have rel: "release_host r b (pworld p) = (u, y, w2) \<Longrightarrow> protocol_path own (view (pworld p)) (view w2)" for u y w2
    unfolding release_host_def assms(2) h
    by (auto split: prod.splits option.splits dest!: un dest: drop intro: protocol_path_trans)
  show ?thesis using run S
    by (auto simp: inventory_cleanup_def Let_def split: prod.splits if_splits dest: rel drop)
qed

end

lemma kept_claim:
  assumes "kept L view own k h w0 (b, w)" and "in_sync L view k b0 w0"
  shows "claim_of L b = claim_of L b0" and "in_sync L view k b w" and "marks (view w) h = marks (view w0) h"
    and "protocol_path own (view w0) (view w)"
  using assms by (auto simp: kept_def in_sync_def others_def)

context inventory_contract
begin

lemma handleDeletion_path:
  assumes "laws" and "UnassignHost (InventoryClient r) = unassign" and "lib_laws (rLib r)"
    and H: "host_laws view consumer during r own k h" and O: "object_laws r view own k h"
    and F: "lifecycle_laws r view own k h"
    and run: "handleDeletion r b p = (x, b', p')" and S: "in_sync (rLib r) view k b (pworld p)"
    and h: "externalHostID (ispec b) = h" and del: "claimDeleting (claim_of (rLib r) b)"
    and free: "own \<longrightarrow> free_or_own (view (pworld p)) (claim_of (rLib r) b)"
  shows "protocol_path own (view (pworld p)) (view (pworld p'))"
proof -
  obtain out b1 w1 where mc: "management_cleanup r b (pworld p) = (out, b1, w1)" by (metis prod.exhaust)
  note M = management_cleanup_cleaned[OF O F mc S]
  show ?thesis
  proof (cases out)
    case (Some y)
    then show ?thesis using run mc M(1) by (auto simp: handleDeletion_def)
  next
    case None
    then have ic: "inventory_cleanup r b1 (p\<lparr>pworld := w1\<rparr>) = (x, b', p')"
      using run mc by (simp add: handleDeletion_def)
    from M(2)[OF None] show ?thesis unfolding cleaned_def
    proof
      assume K: "kept (rLib r) view own k h (pworld p) (b1, w1)"
      note c = kept_claim[OF K S]
      have "externalHostID (ispec b1) = h" using arg_cong[OF c(1), of claimHost] h by simp
      then have "protocol_path own (view (pworld (p\<lparr>pworld := w1\<rparr>))) (view (pworld p'))"
        using inventory_cleanup_path[OF assms(1,2) H O ic] c del free h
        by (auto simp: free_or_own_def)
      then show ?thesis using c(4) protocol_path_trans by fastforce
    next
      assume "finalizers (imeta (fst (b1, w1))) = [] \<and> protocol_path own (view (pworld p)) (view (snd (b1, w1)))"
      then show ?thesis using ic assms(3) by (auto simp: inventory_cleanup_def split: if_splits)
    qed
  qed
qed

lemma handleUpdate_path:
  assumes "laws" and "labels_ok (combined_labels b)" and "AssignHost (InventoryClient r) = assign"
    and H: "host_laws view consumer during r own k h" and O: "object_laws r view own k h"
    and V: "service_laws r view own k h" and F: "lifecycle_laws r view own k h"
    and run: "handleUpdate r b p = (x, b', p')" and S: "in_sync (rLib r) view k b (pworld p)"
    and h: "externalHostID (ispec b) = h"
  shows "protocol_path own (view (pworld p)) (view (pworld p'))"
proof (cases "uses_template b \<and> ProvisioningProvider r = None")
  case True
  then show ?thesis using run by (auto simp: handleUpdate_def Let_def)
next
  case False
  note I = reconcileInventory_path[OF assms(1,2,3) H O V _ S h]
  note M = reconcileManagement_path[OF O V F _ S]
  show ?thesis using run False
    by (auto simp: handleUpdate_def split: if_splits prod.splits intro: I M)
qed

text \<open>
  The whole call. The laws are needed for the host of the object as it was when the call read it,
  and, in the careful protocol, an object under deletion must not have lost its host to another.
\<close>

lemma Reconcile_path:
  assumes "laws" and "\<And>b w. rGet r k (pworld p) = (Inr b, w) \<Longrightarrow> labels_ok (combined_labels b)" and "AssignHost (InventoryClient r) = assign"
    and "UnassignHost (InventoryClient r) = unassign" and "lib_laws (rLib r)"
    and H: "host_laws view consumer during r own k h" and O: "object_laws r view own k h"
    and V: "service_laws r view own k h" and F: "lifecycle_laws r view own k h"
    and run: "Reconcile r k p = (x, p')"
    and h: "\<And>c. claims (view (pworld p)) k = Some c \<Longrightarrow> claimHost c = h"
    and free: "\<And>c. own \<Longrightarrow> claims (view (pworld p)) k = Some c \<Longrightarrow> claimDeleting c \<Longrightarrow> free_or_own (view (pworld p)) c"
  shows "protocol_path own (view (pworld p)) (view (pworld p'))"
proof -
  obtain g w1 where get: "rGet r k (pworld p) = (g, w1)" by fastforce
  show ?thesis
  proof (cases g)
    case (Inl e)
    then show ?thesis using run get others_path[OF object_calls(2)[OF O]] by (auto simp: Reconcile_def)
  next
    case (Inr b)
    let ?p = "p\<lparr>pworld := w1\<rparr>"
    note G = object_calls(1)[OF O get[unfolded Inr]]
    then have S: "in_sync (rLib r) view k b (pworld ?p)" and o: "others own k h (view (pworld p)) (view w1)" by simp_all
    then have stored: "claims (view (pworld p)) k = Some (claim_of (rLib r) b)" by (simp add: in_sync_def others_def)
    have hb: "externalHostID (ispec b) = h" using h[OF stored] by simp
    have fb: "own \<longrightarrow> free_or_own (view (pworld ?p)) (claim_of (rLib r) b)" if "claimDeleting (claim_of (rLib r) b)"
      using free[OF _ stored that] o hb by (auto simp: free_or_own_def others_def)
    obtain res b1 p1 where hd: "(if \<not> time_IsZero (rLib r) (deletionTimestamp (imeta b))
        then handleDeletion r b ?p else handleUpdate r b ?p) = (res, b1, p1)" by (metis prod.exhaust)
    have "protocol_path own (view w1) (view (pworld p1))"
    proof (cases "time_IsZero (rLib r) (deletionTimestamp (imeta b))")
      case True
      then show ?thesis
        using handleUpdate_path[OF assms(1) assms(2)[OF get[unfolded Inr]] assms(3) H O V F _ S hb] hd by simp
    next
      case False
      then have d: "claimDeleting (claim_of (rLib r) b)" by (simp add: claim_of_def)
      show ?thesis using handleDeletion_path[OF assms(1,4,5) H O F _ S hb d fb[OF d]] hd False by simp
    qed
    then have p1: "protocol_path own (view (pworld p)) (view (pworld p1))"
      using others_path[OF o] protocol_path_trans by metis
    obtain y w2 where st: "rStatusUpdate r b1 (pworld p1) = (y, w2)" by fastforce
    have "p' = p1 \<or> p' = p1\<lparr>pworld := w2\<rparr>"
      using run get Inr hd st by (auto simp: Reconcile_def Let_def split: if_splits sum.splits)
    then show ?thesis using p1 others_path[OF object_calls(5)[OF O st]] protocol_path_trans by auto
  qed
qed

end

section \<open>The operator on Metal3\<close>

definition metal3_view ::
    "lib \<Rightarrow> ('w \<Rightarrow> object_key \<Rightarrow> bmi option) \<Rightarrow> 'w bmh_store \<Rightarrow> 'w \<Rightarrow> cluster" where
  "metal3_view L objs store w = \<lparr>claims = (\<lambda>k. map_option (claim_of L) (objs w k)), marks = bmh_consumer store w\<rparr>"

lemma metal3_view_simps [simp]:
  "claims (metal3_view L objs store w) k = map_option (claim_of L) (objs w k)"
  "marks (metal3_view L objs store w) = bmh_consumer store w"
  by (simp_all add: metal3_view_def)

text \<open>
  All a worker relies on when it is called for the object \<open>k\<close>, whose host is \<open>h\<close>: the laws of the
  libraries and of both object stores, and others acting as the protocol allows.
\<close>

definition metal3_worker ::
    "('w \<Rightarrow> object_key \<Rightarrow> bmi option) \<Rightarrow> 'w bmh_store \<Rightarrow> ('p, 'w) bmi_reconciler \<Rightarrow> 'w metal3_inventory \<Rightarrow>
     ('w \<Rightarrow> 'w \<Rightarrow> bool) \<Rightarrow> bool \<Rightarrow> object_key \<Rightarrow> string \<Rightarrow> bool" where
  "metal3_worker objs store r m env own k h \<longleftrightarrow>
     (let view = metal3_view (rLib r) objs store in
      InventoryClient r = metal3_inventory_client m \<and> lib_laws (rLib r) \<and> bmh_laws (m3client m) store env \<and>
      object_laws r view own k h \<and> service_laws r view own k h \<and> lifecycle_laws r view own k h \<and>
      (\<forall>w w'. env w w' \<longrightarrow> others own k h (view w) (view w') \<and> claims (view w') = claims (view w)) \<and>
      (\<forall>b w y w'. bmh_Update (m3client m) b w = (y, w') \<longrightarrow> claims (view w') = claims (view w)))"

lemma bmh_Get_env: "bmh_laws A store env \<Longrightarrow> bmh_Get A k w = (x, w') \<Longrightarrow> env w w'"
  by (cases x) (auto dest: bmh_Get_ok(3) bmh_Get_error)

text \<open>What the reads' environment and the writes leave alone, a whole inventory call leaves alone.\<close>

lemma metal3_inventory_frame:
  assumes L: "bmh_laws (m3client m) store env" and env: "\<And>w w'. env w w' \<Longrightarrow> f w' = f w"
    and upd: "\<And>b w y w'. bmh_Update (m3client m) b w = (y, w') \<Longrightarrow> f w' = f w"
  shows "metal3_AssignHost m h c ls w = (x, w') \<Longrightarrow> f w' = f w"
    and "metal3_UnassignHost m h ks w = (y, w') \<Longrightarrow> f w' = f w"
proof -
  have get: "bmh_Get (m3client m) k v = (z, v') \<Longrightarrow> f v' = f v" for k v z v' using env bmh_Get_env[OF L] by blast
  show "f w' = f w" if "metal3_AssignHost m h c ls w = (x, w')"
    using that by (auto simp: metal3_AssignHost_def Let_def split: if_splits prod.splits sum.splits
        dest!: get upd)
  show "f w' = f w" if "metal3_UnassignHost m h ks w = (y, w')"
    using that by (auto simp: metal3_UnassignHost_def Let_def split: prod.splits sum.splits dest!: get upd)
qed

lemma metal3_host_laws:
  assumes W: "metal3_worker objs store r m env own k h"
  shows "host_laws (metal3_view (rLib r) objs store) (bmh_consumer store) (\<lambda>h t w w1. w1 = w \<or> env w w1) r own k h"
proof -
  let ?view = "metal3_view (rLib r) objs store"
  note W' = W[unfolded metal3_worker_def Let_def]
  have client: "InventoryClient r = metal3_inventory_client m" and laws: "bmh_laws (m3client m) store env"
    using W' by simp_all
  have env: "env w w' \<Longrightarrow> others own k h (?view w) (?view w')"
    and env': "env w w' \<Longrightarrow> claims (?view w') = claims (?view w)" for w w' using W' by blast+
  have upd: "bmh_Update (m3client m) b w = (z, w') \<Longrightarrow> claims (?view w') = claims (?view w)" for b w z w'
    using W' by metis
  note frame = metal3_inventory_frame[OF laws, where f = "\<lambda>w. claims (?view w)", OF env' upd]
  have during: "protocol_path own (?view w) (marked_as ?view w (bmh_consumer store w1)) \<and>
      bmh_consumer store w1 h = bmh_consumer store w h" if "w1 = w \<or> env w w1" for w w1
  proof -
    have o: "others own k h (?view w) (?view w1)" using that env by auto
    have "?view w1 = marked_as ?view w (bmh_consumer store w1)"
      using that env' marked_view[of "?view w1" "?view w"] by auto
    then show ?thesis using others_path[OF o] o by (simp add: others_def)
  qed
  show ?thesis unfolding host_laws_def client using during frame
    by (auto simp: metal3_inventory_client_def simp del: metal3_view_simps(1))
qed

lemma metal3_worker_path:
  assumes W: "metal3_worker objs store r m env own k h" and run: "Reconcile r k p = (x, p')"
    and h: "\<And>b. objs (pworld p) k = Some b \<Longrightarrow> externalHostID (ispec b) = h"
    and free: "\<And>b. own \<Longrightarrow> objs (pworld p) k = Some b \<Longrightarrow> \<not> time_IsZero (rLib r) (deletionTimestamp (imeta b)) \<Longrightarrow>
      bmh_consumer store (pworld p) h = None \<or> bmh_consumer store (pworld p) h = Some (objUID (imeta b))"
  shows "protocol_path own (metal3_view (rLib r) objs store (pworld p)) (metal3_view (rLib r) objs store (pworld p'))"
proof -
  note W' = W[unfolded metal3_worker_def Let_def]
  have client: "AssignHost (InventoryClient r) = metal3_AssignHost m" "UnassignHost (InventoryClient r) = metal3_UnassignHost m"
    using W' by (simp_all add: metal3_inventory_client_def)
  have free': "free_or_own (metal3_view (rLib r) objs store (pworld p)) c"
    if "own" "claims (metal3_view (rLib r) objs store (pworld p)) k = Some c" "claimDeleting c" for c
    using that free h by (auto simp: free_or_own_def claim_of_def)
  show ?thesis
    by (rule metal3_contract.Reconcile_path[where m = m and store = store and env = env,
          OF _ TrueI client _ metal3_host_laws[OF W] _ _ _ run _ free'])
      (use W' h in auto)
qed

section \<open>An example cluster\<close>

record 'h demo_state =
  dObjs :: "object_key \<Rightarrow> bmi option"
  dHosts :: 'h

type_synonym demo_world = "ref_world demo_state"

definition demo_hosts_store :: "demo_world bmh_store" where
  "demo_hosts_store w = ref_store (dHosts w)"

abbreviation on_hosts :: "(ref_world \<Rightarrow> 'a \<times> ref_world) \<Rightarrow> demo_world \<Rightarrow> 'a \<times> demo_world" where
  "on_hosts \<equiv> at_part dHosts (\<lambda>v w. w\<lparr>dHosts := v\<rparr>)"

definition demo_hosts_api :: "demo_world bmh_api" where
  "demo_hosts_api = bmh_api_at dHosts (\<lambda>v w. w\<lparr>dHosts := v\<rparr>) ref_bmh_api"

lemma demo_hosts_laws: "bmh_laws demo_hosts_api demo_hosts_store (=)"
  unfolding demo_hosts_api_def demo_hosts_store_def by (rule bmh_laws_at[OF ref_bmh_laws]) simp_all

definition demo_cluster_metal3 :: "demo_world metal3_inventory" where
  "demo_cluster_metal3 = \<lparr>m3client = demo_hosts_api, m3namespace = ''metal'', m3hostClass = ''metal3'',
     m3networkClass = ''net'', m3draws = (\<lambda>_ _. 0)\<rparr>"

definition demo_get :: "object_key \<Rightarrow> 'h demo_state \<Rightarrow> (go_error + bmi) \<times> 'h demo_state" where
  "demo_get k w = (case dObjs w k of
     Some b \<Rightarrow> (if bmi_key b = k then Inr b else Inl (ForeignError ''not found''), w)
   | None \<Rightarrow> (Inl (ForeignError ''not found''), w))"

definition demo_put :: "bmi \<Rightarrow> 'h demo_state \<Rightarrow> (go_error + bmi) \<times> 'h demo_state" where
  "demo_put b w = (if dObjs w (bmi_key b) = None then (Inl (ForeignError ''not found''), w)
     else (Inr b, w\<lparr>dObjs := (dObjs w)(bmi_key b :=
       (if finalizers (imeta b) = [] \<and> \<not> time_IsZero ref_lib (deletionTimestamp (imeta b)) then None else Some b))\<rparr>))"

definition demo_put_status :: "bmi \<Rightarrow> 'h demo_state \<Rightarrow> (go_error + bmi) \<times> 'h demo_state" where
  "demo_put_status b w = (case demo_get (bmi_key b) w of
     (Inl e, _) \<Rightarrow> (Inl e, w)
   | (Inr b0, _) \<Rightarrow> (let b1 = b0\<lparr>istatus := istatus b\<rparr> in (Inr b1, w\<lparr>dObjs := (dObjs w)(bmi_key b \<mapsto> b1)\<rparr>)))"

definition demo_operator :: "(unit, demo_world) bmi_reconciler" where
  "demo_operator = \<lparr>rLib = ref_lib, rGet = demo_get, rUpdate = demo_put,
     rStatusUpdate = demo_put_status, rDeepEqual = (=),
     InventoryClient = metal3_inventory_client demo_cluster_metal3,
     ManagementClient = \<lparr>GetPowerState = (\<lambda>h w. (Inr (Some \<lparr>powerState = PowerOff, isTransitioning = False\<rparr>), w)),
       SetPowerState = (\<lambda>h t w. (None, w)), TriggerRestart = (\<lambda>h w. (None, w)),
       IsRestartComplete = (\<lambda>h w. (Inr True, w))\<rparr>,
     ProvisioningProvider = Some (), NoFreeHostsPollIntervalDuration = 30, TryLockFailPollIntervalDuration = 1,
     ManagementRecheckIntervalDuration = 10, ProvisionPollIntervalDuration = 60,
     provisioning_DefaultMaxJobHistory = 10,
     ComputeDesiredConfigVersion = (\<lambda>c. Inr ''v1''),
     RunProvisioningLifecycle = (\<lambda>p hooks s. ((no_requeue, None), OnSuccess hooks s)),
     RunDeprovisioningLifecycle = (\<lambda>p hooks s. ((no_requeue, True, None), s)),
     CheckAPIServerForNonTerminalProvisionJob = (\<lambda>k w. (False, w))\<rparr>"

abbreviation demo_view :: "demo_world \<Rightarrow> cluster" where
  "demo_view \<equiv> metal3_view ref_lib dObjs demo_hosts_store"

lemma demo_marks: "marks (demo_view w) = bmh_consumer ref_store (dHosts w)"
  unfolding metal3_view_simps bmh_consumer_def demo_hosts_store_def ..

text \<open>A view that shows the stored objects and takes nothing else of the cluster from them.\<close>

definition shows_objects :: "('h demo_state \<Rightarrow> cluster) \<Rightarrow> bool" where
  "shows_objects view \<longleftrightarrow> (\<forall>w. claims (view w) = (\<lambda>k. map_option (claim_of ref_lib) (dObjs w k))) \<and>
     (\<forall>w f. marks (view (w\<lparr>dObjs := f\<rparr>)) = marks (view w))"

lemma shows_objects_upd:
  assumes "shows_objects view"
  shows "view (w\<lparr>dObjs := (dObjs w)(k := x)\<rparr>)
    = (view w)\<lparr>claims := (claims (view w))(k := map_option (claim_of ref_lib) x)\<rparr>"
proof -
  have "claims (view (w\<lparr>dObjs := (dObjs w)(k := x)\<rparr>)) = (claims (view w))(k := map_option (claim_of ref_lib) x)"
    using assms by (intro ext) (simp add: shows_objects_def)
  then show ?thesis using assms by (simp add: shows_objects_def)
qed

lemma demo_view_shows: "shows_objects demo_view"
proof -
  have "bmh_consumer demo_hosts_store (w\<lparr>dObjs := f\<rparr>) = bmh_consumer demo_hosts_store w" for w f
    by (rule bmh_consumer_same_store) (simp add: demo_hosts_store_def)
  then show ?thesis by (simp add: shows_objects_def metal3_view_def)
qed

lemma demo_FindFreeHost: "metal3_FindFreeHost demo_cluster_metal3 ms w = (x, w') \<Longrightarrow> w' = w"
proof -
  have "w1 = w" if "bmh_List demo_hosts_api ns ls w = (y, w1)" for ns ls y w1
    using that by (simp add: demo_hosts_api_def bmh_api_at_def at_part_iff ref_bmh_api_def)
  then show "metal3_FindFreeHost demo_cluster_metal3 ms w = (x, w') \<Longrightarrow> w' = w"
    by (auto simp: metal3_FindFreeHost_def demo_cluster_metal3_def Let_def split: prod.splits sum.splits if_splits)
qed

lemma demo_get_cases:
  "demo_get k w = (x, w') \<Longrightarrow> w' = w \<and> (\<forall>b. x = Inr b \<longrightarrow> bmi_key b = k \<and> dObjs w k = Some b)"
  by (auto simp: demo_get_def split: option.splits if_splits)

lemma demo_put_written:
  assumes "demo_put b w = (Inr b', w')" and "shows_objects view"
  shows "b' = b \<and> object_written ref_lib b (view w) (view w')"
  using assms
  by (auto simp: demo_put_def object_written_def shows_objects_upd claim_of_def split: if_splits)

lemma demo_put_error: "demo_put b w = (Inl e, w') \<Longrightarrow> w' = w"
  by (auto simp: demo_put_def split: if_splits)

lemma demo_put_status_view:
  assumes "demo_put_status b w = (x, w')" and V: "shows_objects view"
  shows "view w' = view w" and "x = Inr b' \<Longrightarrow> dObjs w (bmi_key b) \<noteq> None \<and> bmi_key b' = bmi_key b \<and>
    map_option (claim_of ref_lib) (dObjs w (bmi_key b)) = Some (claim_of ref_lib b')"
proof -
  obtain y v where g: "demo_get (bmi_key b) w = (y, v)" by fastforce
  note G = demo_get_cases[OF g]
  have "view w' = view w \<and> (\<forall>b'. x = Inr b' \<longrightarrow> dObjs w (bmi_key b) \<noteq> None \<and> bmi_key b' = bmi_key b \<and>
    map_option (claim_of ref_lib) (dObjs w (bmi_key b)) = Some (claim_of ref_lib b'))"
  proof (cases y)
    case (Inl e)
    then show ?thesis using assms g by (auto simp: demo_put_status_def)
  next
    case (Inr b0)
    let ?b1 = "b0\<lparr>istatus := istatus b\<rparr>"
    have b0: "bmi_key b0 = bmi_key b" "dObjs w (bmi_key b) = Some b0" using G Inr by auto
    have run: "x = Inr ?b1" "w' = w\<lparr>dObjs := (dObjs w)(bmi_key b \<mapsto> ?b1)\<rparr>"
      using assms g Inr by (auto simp: demo_put_status_def Let_def)
    have same: "claim_of ref_lib ?b1 = claim_of ref_lib b0" "bmi_key ?b1 = bmi_key b0"
      by (simp_all add: claim_of_def bmi_key_def)
    have "(claims (view w))(bmi_key b \<mapsto> claim_of ref_lib b0) = claims (view w)"
      using b0(2) V by (intro fun_upd_idem) (simp add: shows_objects_def)
    then show ?thesis using run b0 same unfolding run(2) shows_objects_upd[OF V] by simp
  qed
  then show "view w' = view w" "x = Inr b' \<Longrightarrow> dObjs w (bmi_key b) \<noteq> None \<and> bmi_key b' = bmi_key b \<and>
    map_option (claim_of ref_lib) (dObjs w (bmi_key b)) = Some (claim_of ref_lib b')" by auto
qed

lemma demo_worker: "metal3_worker dObjs demo_hosts_store demo_operator demo_cluster_metal3 (=) own k h"
proof -
  note V = demo_view_shows
  have "object_laws demo_operator demo_view own k h"
    unfolding object_laws_def demo_operator_def bmi_reconciler.simps
  proof (intro conjI allI impI)
    fix b x w' and w :: demo_world assume "demo_put_status b w = (x, w')"
    then show "others own k h (demo_view w) (demo_view w')" using demo_put_status_view(1)[OF _ V] by simp
  next
    fix b b' w' and w :: demo_world assume "in_sync ref_lib demo_view k b w" "demo_put_status b w = (Inr b', w')"
    then show "claim_of ref_lib b' = claim_of ref_lib b" "bmi_key b' = bmi_key b"
      using demo_put_status_view(2)[of b w "Inr b'" w', OF _ V, of b'] by (auto simp: in_sync_def)
  qed (auto dest!: demo_get_cases demo_put_error dest: demo_put_written[OF _ V]
      simp: in_sync_def same_object_def intro: exI[of _ "demo_view w" for w] others_refl)
  moreover have "service_laws demo_operator demo_view own k h"
    by (auto simp: service_laws_def services_keep_def demo_operator_def metal3_inventory_client_def dest!: demo_FindFreeHost)
  moreover have "lifecycle_laws demo_operator demo_view own k h"
    unfolding lifecycle_laws_def lifecycle_keeps_def demo_operator_def by auto
  moreover have "claims (demo_view w') = claims (demo_view w)" if "bmh_Update demo_hosts_api b w = (y, w')" for b w y w'
    using that by (auto simp: demo_hosts_api_def bmh_api_at_def at_part_iff metal3_view_def)
  ultimately show ?thesis
    using demo_hosts_laws ref_lib_laws
    by (auto simp: metal3_worker_def demo_operator_def demo_cluster_metal3_def Let_def simp del: metal3_view_simps(1))
qed

section \<open>Runs of the operator\<close>

text \<open>
  The operator and its users as a transition system over the outside world: one call of \<open>Reconcile\<close>
  for some object, by a reconciler from \<open>R\<close> (each of which stands for one way the services may
  answer and others may act meanwhile), or a step of a user, who creates an object or asks for its
  deletion. The last premise of a call is the one the code does not enforce: an object under
  deletion that still has a host is not released while its host is marked for another one.
\<close>

inductive operator_step ::
    "('p, 'w) bmi_reconciler set \<Rightarrow> ('w \<Rightarrow> object_key \<Rightarrow> bmi option) \<Rightarrow> 'w bmh_store \<Rightarrow> lib \<Rightarrow> 'w \<Rightarrow> 'w \<Rightarrow> bool"
  for R :: "('p, 'w) bmi_reconciler set" and objs :: "'w \<Rightarrow> object_key \<Rightarrow> bmi option"
    and store :: "'w bmh_store" and L :: lib where
  Call: "\<lbrakk>r \<in> R; rLib r = L; metal3_worker objs store r m env True k h; Reconcile r k p = (x, p');
      \<And>b. objs (pworld p) k = Some b \<Longrightarrow> externalHostID (ispec b) = h;
      \<And>b. objs (pworld p) k = Some b \<Longrightarrow> \<not> time_IsZero L (deletionTimestamp (imeta b)) \<Longrightarrow>
        bmh_consumer store (pworld p) h = None \<or> bmh_consumer store (pworld p) h = Some (objUID (imeta b))\<rbrakk>
    \<Longrightarrow> operator_step R objs store L (pworld p) (pworld p')"
| Create: "\<lbrakk>objs w k = None; hostClass (ispec b) = ''''; fresh_uid (metal3_view L objs store w) (objUID (imeta b));
      metal3_view L objs store w' = (metal3_view L objs store w)\<lparr>claims :=
        (claims (metal3_view L objs store w))(k \<mapsto> claim_of L b)\<rparr>\<rbrakk>
    \<Longrightarrow> operator_step R objs store L w w'"
| Delete: "\<lbrakk>objs w k = Some b;
      metal3_view L objs store w' = (metal3_view L objs store w)\<lparr>claims :=
        (claims (metal3_view L objs store w))(k \<mapsto> (claim_of L b)\<lparr>claimDeleting := True\<rparr>)\<rparr>\<rbrakk>
    \<Longrightarrow> operator_step R objs store L w w'"

inductive_cases operator_stepE: "operator_step R objs store L w w'"

lemma operator_step_path:
  assumes "operator_step R objs store L w w'"
  shows "protocol_path True (metal3_view L objs store w) (metal3_view L objs store w')"
  using assms
proof (induction rule: operator_step.induct)
  case (Call r m env k h p x p')
  then show ?case using metal3_worker_path[OF Call.hyps(3,4)] by blast
next
  case (Create w k b w')
  then show ?case
    using protocol_step.Created[of "metal3_view L objs store w" k "claim_of L b" True]
    by (auto intro!: protocol_path_step[of True k])
next
  case (Delete w k b w')
  then show ?case
    using protocol_step.Deleted[of "metal3_view L objs store w" k "claim_of L b" True]
    by (auto intro!: protocol_path_step[of True k])
qed

lemma operator_run_exclusive:
  assumes "(operator_step R objs store L)\<^sup>*\<^sup>* w w'" and "exclusive (metal3_view L objs store w)"
  shows "exclusive (metal3_view L objs store w')"
  using assms by (induction rule: rtranclp_induct) (auto intro: exclusive_path operator_step_path)

section \<open>Concrete runs\<close>

text \<open>What a call does in the example cluster for an instance that has selected a host it can take.\<close>

definition demo_takes :: "string \<Rightarrow> string \<Rightarrow> demo_world \<Rightarrow> bool" where
  "demo_takes h c w \<longleftrightarrow> (\<forall>ls. \<exists>z w'. metal3_AssignHost demo_cluster_metal3 h c ls w = (Inr (Some z), w') \<and>
     hostHostClass z = ''metal3'' \<and> dObjs w' = dObjs w)"

lemma demo_takes_free:
  assumes "ParseHostID h = Inr k" and "h \<noteq> ''''" and "c \<noteq> ''''"
    and "ref_store (dHosts w) k = Some b" and "bmhConsumerRef b = None"
  shows "demo_takes h c w"
  unfolding demo_takes_def
proof
  fix ls
  have k: "bmh_key b = k" using ref_store_SomeD[OF assms(4)] by simp
  have get: "bmh_Get demo_hosts_api k w = (Inr b, w)"
    using assms(4) by (simp add: demo_hosts_api_def bmh_api_at_def at_part_def ref_bmh_api_def)
  obtain b' w' where "bmh_Update demo_hosts_api (assigned_bmh c ls b) w = (Inr b', w')" "dObjs w' = dObjs w"
    using assms(4) k by (simp add: demo_hosts_api_def bmh_api_at_def at_part_def ref_bmh_api_def ref_update_def Let_def)
  then show "\<exists>z w'. metal3_AssignHost demo_cluster_metal3 h c ls w = (Inr (Some z), w') \<and>
     hostHostClass z = ''metal3'' \<and> dObjs w' = dObjs w"
    using get assms(5)
    by (simp add: metal3_AssignHost_unfold[OF assms(2,3,1)] demo_cluster_metal3_def held_by_other_def)
qed

definition demo_ready_for :: "string \<Rightarrow> object_key \<Rightarrow> bmi \<Rightarrow> bool" where
  "demo_ready_for h k b \<longleftrightarrow> bmi_key b = k \<and> externalHostID (ispec b) = h \<and> h \<noteq> '''' \<and> hostClass (ispec b) = '''' \<and>
     deletionTimestamp (imeta b) = None \<and> \<not> uses_template b \<and>
     BareMetalInstanceInventoryFinalizer \<in> set (finalizers (imeta b))"

lemma demo_operator_ops [simp]:
  "rGet demo_operator = demo_get" "rUpdate demo_operator = demo_put"
  "rStatusUpdate demo_operator = demo_put_status" "rLib demo_operator = ref_lib"
  "InventoryClient demo_operator = metal3_inventory_client demo_cluster_metal3"
  by (simp_all add: demo_operator_def)

lemma demo_allocates:
  assumes "dObjs (pworld p) k = Some b" and B: "demo_ready_for h k b"
    and T: "demo_takes h (objUID (imeta b)) (pworld p)" and "h \<notin> held (plocks p)"
  shows "\<exists>x p' b'. Reconcile demo_operator k p = (x, p') \<and> dObjs (pworld p') k = Some b' \<and>
     externalHostID (ispec b') = h \<and> hostClass (ispec b') = ''metal3'' \<and> imeta b' = imeta b \<and>
     (\<forall>k'. k' \<noteq> k \<longrightarrow> dObjs (pworld p') k' = dObjs (pworld p) k')"
proof -
  note B' = B[unfolded demo_ready_for_def]
  let ?w = "pworld p"
  have get: "demo_get k ?w = (Inr b, ?w)" using assms(1) B' by (simp add: demo_get_def)
  have meta: "time_IsZero ref_lib (deletionTimestamp (imeta b))" "\<not> uses_template b"
    "AddFinalizer ref_lib (finalizers (imeta b)) BareMetalInstanceInventoryFinalizer = (finalizers (imeta b), False)"
    using B' by (simp_all add: ref_lib_def)
  let ?x = "set_bmi_finalizers (finalizers (imeta b)) (cond demo_operator HostConditionAllocated ConditionFalse
    HostConditionReasonProgressing ''Allocating BareMetalInstance'' (set_phase BareMetalInstancePhaseAllocating b))"
  have x: "imeta ?x = imeta b" "ispec ?x = ispec b" by simp_all
  obtain z w' where as: "metal3_AssignHost demo_cluster_metal3 h (objUID (imeta b)) (combined_labels ?x) ?w = (Inr (Some z), w')"
    "hostHostClass z = ''metal3''" and w': "dObjs w' = dObjs ?w" using T unfolding demo_takes_def by blast
  let ?b1 = "?x\<lparr>ispec := (ispec ?x)\<lparr>hostClass := ''metal3'', networkClass := hostNetworkClass z\<rparr>\<rparr>"
  let ?v = "w'\<lparr>dObjs := (dObjs ?w)(k \<mapsto> ?b1)\<rparr>"
  have key: "bmi_key ?b1 = k" using B' x by (simp add: bmi_key_def)
  have fin: "finalizers (imeta ?b1) \<noteq> []" unfolding x using B' by auto
  have put: "demo_put ?b1 w' = (Inr ?b1, ?v)"
    using assms(1) fin unfolding demo_put_def key w' by (simp add: w')
  obtain y where acq: "acquire_host demo_operator ?x ?w = (ok_done, y, ?v)" and y: "bmi_key y = k"
    using as put key x B' by (simp add: acquire_host_def Let_def metal3_inventory_client_def bmi_key_def)
  obtain l where lock: "TryLock h (plocks p) = (True, l)"
    using TryLock_result[of h "plocks p"] assms(4) by (metis prod.collapse)
  have upd: "handleUpdate demo_operator b p = (ok_done, y, \<lparr>plocks = Unlock h l, pworld = ?v\<rparr>)"
    using acq meta(2,3) lock B' by (simp add: handleUpdate_def reconcileInventory_def Let_def)
  have st: "demo_put_status y ?v = (Inr (?b1\<lparr>istatus := istatus y\<rparr>), ?v\<lparr>dObjs := (dObjs ?v)(k \<mapsto> ?b1\<lparr>istatus := istatus y\<rparr>)\<rparr>)"
    using y key by (simp add: demo_put_status_def demo_get_def Let_def)
  show ?thesis
    unfolding Reconcile_def demo_operator_ops using get meta(1) upd st B'
    by (cases "rDeepEqual demo_operator (istatus y) (istatus b)") (simp_all add: Let_def)
qed

text \<open>And for an instance under deletion that had selected a host.\<close>

definition demo_leaving :: "string \<Rightarrow> object_key \<Rightarrow> bmi \<Rightarrow> bool" where
  "demo_leaving h k b \<longleftrightarrow> bmi_key b = k \<and> externalHostID (ispec b) = h \<and> h \<noteq> '''' \<and>
     deletionTimestamp (imeta b) = Some 5 \<and> \<not> uses_template b \<and>
     finalizers (imeta b) = [BareMetalInstanceInventoryFinalizer, BareMetalInstanceManagementFinalizer]"

lemma demo_unassigns:
  assumes "ParseHostID h = Inr k" and "ref_store (dHosts w) k = Some b"
  shows "\<exists>w' b'. metal3_UnassignHost demo_cluster_metal3 h ks w = (None, w') \<and> dObjs w' = dObjs w \<and>
    ref_store (dHosts w') k = Some b' \<and> bmhConsumerRef b' = None"
proof -
  have k: "bmh_key b = k" using ref_store_SomeD[OF assms(2)] by simp
  let ?u = "unassigned_bmh ks b" let ?b = "?u\<lparr>bmhResourceVersion := CHR ''v'' # bmhResourceVersion ?u\<rparr>"
  have get: "bmh_Get demo_hosts_api k w = (Inr b, w)"
    using assms(2) by (simp add: demo_hosts_api_def bmh_api_at_def at_part_def ref_bmh_api_def)
  have "bmh_Update demo_hosts_api ?u w = (Inr ?b, w\<lparr>dHosts := ref_replace ?b (dHosts w)\<rparr>)"
    using assms(2) k by (simp add: demo_hosts_api_def bmh_api_at_def at_part_def ref_bmh_api_def ref_update_def Let_def)
  moreover have "ref_store (ref_replace ?b (dHosts w)) k = Some ?b"
    using ref_store_replace[of "dHosts w" ?b b] assms(2) k by simp
  moreover have "bmhConsumerRef ?b = None" by simp
  ultimately show ?thesis
    using get by (simp add: metal3_UnassignHost_unfold[OF assms(1)] demo_cluster_metal3_def)
qed

lemma demo_leaves:
  assumes "dObjs (pworld p) k = Some b" and B: "demo_leaving h k b"
    and "ParseHostID h = Inr hk" and "ref_store (dHosts (pworld p)) hk = Some a" and "h \<notin> held (plocks p)"
  shows "\<exists>x p' a'. Reconcile demo_operator k p = (x, p') \<and> ref_store (dHosts (pworld p')) hk = Some a' \<and>
     bmhConsumerRef a' = None \<and> dObjs (pworld p') k = None \<and>
     (\<forall>k'. k' \<noteq> k \<longrightarrow> dObjs (pworld p') k' = dObjs (pworld p) k')"
proof -
  note B' = B[unfolded demo_leaving_def]
  let ?w = "pworld p"
  have get: "demo_get k ?w = (Inr b, ?w)" using assms(1) B' by (simp add: demo_get_def)
  let ?b1 = "set_bmi_finalizers [BareMetalInstanceInventoryFinalizer] (set_phase BareMetalInstancePhaseDeleting b)"
  let ?w1 = "?w\<lparr>dObjs := (dObjs ?w)(k \<mapsto> ?b1)\<rparr>"
  have key1: "bmi_key (set_bmi_finalizers fs (set_phase ph b)) = k" for fs ph using B' by simp
  have put1: "demo_put ?b1 ?w = (Inr ?b1, ?w1)" unfolding demo_put_def key1 using assms(1) by simp
  have mc: "management_cleanup demo_operator b ?w = (None, ?b1, ?w1)"
    using B' put1 by (simp add: management_cleanup_def Let_def ref_lib_def uses_template_def)
  have "ref_store (dHosts ?w1) hk = Some a" using assms(4) by simp
  from demo_unassigns[OF assms(3) this, of "labels_to_remove ?b1"] obtain w2 a2 where
    un: "metal3_UnassignHost demo_cluster_metal3 h (labels_to_remove ?b1) ?w1 = (None, w2)" "dObjs w2 = dObjs ?w1"
    "ref_store (dHosts w2) hk = Some a2" "bmhConsumerRef a2 = None" by blast
  let ?b2 = "set_bmi_finalizers [] ?b1"
  let ?w3 = "w2\<lparr>dObjs := (dObjs ?w1)(k := None)\<rparr>"
  have put2: "demo_put ?b2 w2 = (Inr ?b2, ?w3)"
    unfolding demo_put_def using B' un(2) by (simp add: ref_lib_def)
  have rel: "release_host demo_operator ?b1 ?w1 = (ok_done, ?b2, ?w3)"
    using un(1) put2 B' by (simp add: release_host_def drop_inventory_finalizer_def metal3_inventory_client_def ref_lib_def Let_def)
  obtain l where lock: "TryLock h (plocks p) = (True, l)"
    using TryLock_result[of h "plocks p"] assms(5) by (metis prod.collapse)
  have del: "handleDeletion demo_operator b p = (ok_done, ?b2, \<lparr>plocks = Unlock h l, pworld = ?w3\<rparr>)"
    using mc rel lock B' by (simp add: handleDeletion_def inventory_cleanup_def Let_def ref_lib_def)
  have st: "demo_put_status ?b2 ?w3 = (Inl (ForeignError ''not found''), ?w3)"
    using B' by (simp add: demo_put_status_def demo_get_def)
  show ?thesis
    unfolding Reconcile_def demo_operator_ops using get del st un(3,4) B'
    by (cases "rDeepEqual demo_operator (istatus ?b2) (istatus b)") (simp_all add: Let_def ref_lib_def)
qed

text \<open>One instance is allocated on the first host; others have selected the second host, or the first.\<close>

definition demo_first :: bmi where
  "demo_first = demo_bmi\<lparr>imeta := (imeta demo_bmi)\<lparr>objName := ''first'', objUID := ''uid-1''\<rparr>,
     ispec := (ispec demo_bmi)\<lparr>externalHostID := ''metal/a'', hostClass := ''metal3''\<rparr>\<rparr>"

definition demo_late :: bmi where
  "demo_late = (demo_selected ''metal/a'')\<lparr>imeta := (imeta (demo_selected ''metal/a''))\<lparr>deletionTimestamp := Some 5\<rparr>\<rparr>"

definition demo_third :: bmi where
  "demo_third = (demo_selected ''metal/a'')\<lparr>imeta := (imeta (demo_selected ''metal/a''))\<lparr>objName := ''third'', objUID := ''uid-3''\<rparr>\<rparr>"

definition demo_cluster :: "bmi \<Rightarrow> demo_world" where
  "demo_cluster b = \<lparr>dObjs = [(''ns'', ''first'') \<mapsto> demo_first, (''ns'', ''bmi'') \<mapsto> b, (''ns'', ''third'') \<mapsto> demo_third],
     dHosts = demo_bmhs\<rparr>"

lemma demo_cluster_simps [simp]:
  "dObjs (demo_cluster b) (''ns'', ''first'') = Some demo_first" "dObjs (demo_cluster b) (''ns'', ''bmi'') = Some b"
  "dObjs (demo_cluster b) (''ns'', ''third'') = Some demo_third" "dHosts (demo_cluster b) = demo_bmhs"
  by (simp_all add: demo_cluster_def)

lemma demo_instances [simp]:
  "demo_ready_for ''metal/b'' (''ns'', ''bmi'') (demo_selected ''metal/b'')"
  "demo_ready_for ''metal/a'' (''ns'', ''third'') demo_third"
  "demo_leaving ''metal/a'' (''ns'', ''bmi'') demo_late"
  by (simp_all add: demo_ready_for_def demo_leaving_def demo_third_def demo_late_def demo_selected_def demo_bmi_def
      bmi_key_def uses_template_def)

lemma demo_instance_simps [simp]:
  "hostClass (ispec demo_first) = ''metal3''" "externalHostID (ispec demo_first) = ''metal/a''"
  "deletionTimestamp (imeta demo_first) = None" "objUID (imeta demo_first) = ''uid-1''"
  "hostClass (ispec demo_third) = ''''" "deletionTimestamp (imeta demo_third) = None"
  "objUID (imeta demo_third) = ''uid-3''" "deletionTimestamp (imeta demo_late) = Some 5"
  "objUID (imeta demo_late) = ''uid-2''" "hostClass (ispec demo_late) = ''''"
  "deletionTimestamp (imeta (demo_selected x)) = None"
  by (simp_all add: demo_first_def demo_third_def demo_late_def demo_selected_def demo_bmi_def)

lemma demo_cluster_exclusive:
  assumes "objUID (imeta b) = ''uid-2''" and "hostClass (ispec b) = ''''"
  shows "exclusive (demo_view (demo_cluster b))"
proof -
  have a: "bmh_consumer demo_hosts_store (demo_cluster b) ''metal/a'' = Some ''uid-1''"
    by (simp add: bmh_consumer_def ParseHostID_demo demo_hosts_store_def ref_store_def demo_bmhs_def demo_bmh_def
        bmh_key_def demo_claim_def)
  have objs: "k = (''ns'', ''first'') \<and> x = demo_first \<or> k = (''ns'', ''bmi'') \<and> x = b \<or> k = (''ns'', ''third'') \<and> x = demo_third"
    if "dObjs (demo_cluster b) k = Some x" for k x
    using that by (auto simp: demo_cluster_def split: if_splits)
  show ?thesis
    unfolding exclusive_def distinct_uids_def allocated_are_marked_def
    using assms a by (auto simp: allocated_def dest!: objs)
qed

lemma demo_store_a: "ref_store demo_bmhs (''metal'', ''a'') = Some (demo_bmh ''a'' (Some (demo_claim ''uid-1'')))"
  and demo_store_b: "ref_store demo_bmhs (''metal'', ''b'') = Some (demo_bmh ''b'' None)"
  by (simp_all add: ref_store_def demo_bmhs_def demo_bmh_def bmh_key_def)

section \<open>Properties\<close>

text \<open>C3: One call of \<open>Reconcile\<close> on a Metal3 cluster, with other workers and users acting between any two of
  its requests, and with errors anywhere, moves the claims of the instance objects and the marks of
  the hosts along a path of the allocation protocol: it marks only a host that is free or its own,
  records a host only when it has the mark, and releases only for an object under deletion.\<close>

theorem reconcile_follows_protocol:
  assumes "metal3_worker objs store r m env False k h" and "Reconcile r k p = (x, p')"
    and "\<And>b. objs (pworld p) k = Some b \<Longrightarrow> externalHostID (ispec b) = h"
  shows "protocol_path False (metal3_view (rLib r) objs store (pworld p)) (metal3_view (rLib r) objs store (pworld p'))"
  by (rule metal3_worker_path[OF assms]) simp_all

theorem reconcile_follows_protocol_witness:
  "\<exists>x p' b. Reconcile demo_operator (''ns'', ''bmi'') \<lparr>plocks = no_locks, pworld = demo_cluster (demo_selected ''metal/b'')\<rparr>
       = (x, p') \<and> dObjs (pworld p') (''ns'', ''bmi'') = Some b \<and> hostClass (ispec b) = ''metal3'' \<and>
     protocol_path False (demo_view (demo_cluster (demo_selected ''metal/b''))) (demo_view (pworld p'))"
proof -
  let ?w = "demo_cluster (demo_selected ''metal/b'')" and ?k = "(''ns'', ''bmi'')"
  let ?p = "\<lparr>plocks = no_locks, pworld = ?w\<rparr>"
  have "demo_takes ''metal/b'' ''uid-2'' ?w"
    by (rule demo_takes_free[OF ParseHostID_demo(2), where b = "demo_bmh ''b'' None"])
      (simp_all add: demo_store_b, simp add: demo_bmh_def)
  then obtain x p' b where run: "Reconcile demo_operator ?k ?p = (x, p')"
    and b: "dObjs (pworld p') ?k = Some b" "hostClass (ispec b) = ''metal3''"
    using demo_allocates[of ?p ?k "demo_selected ''metal/b''" "''metal/b''"] by auto
  have "protocol_path False (demo_view ?w) (demo_view (pworld p'))"
    using reconcile_follows_protocol[OF demo_worker[of False ?k "''metal/b''"] run] by simp
  then show ?thesis using run b by blast
qed

text \<open>C2: No run of the operator, with any number of instances, workers and users, gives one host to two
  instances: two live objects that both have a host class (they are allocated) never name the same
  host, provided that objects under deletion are reconciled only while their host is free or marked
  for them. The example runs an allocation next to an allocated instance.\<close>

theorem operator_allocates_exclusively:
  assumes "(operator_step R objs store L)\<^sup>*\<^sup>* w w'" and "exclusive (metal3_view L objs store w)"
    and "objs w' k1 = Some b1" and "hostClass (ispec b1) \<noteq> ''''" and "time_IsZero L (deletionTimestamp (imeta b1))"
    and "objs w' k2 = Some b2" and "hostClass (ispec b2) \<noteq> ''''" and "time_IsZero L (deletionTimestamp (imeta b2))"
    and "externalHostID (ispec b1) = externalHostID (ispec b2)"
  shows "k1 = k2"
  by (rule exclusive_hosts[OF operator_run_exclusive[OF assms(1,2)], where c = "claim_of L b1" and c' = "claim_of L b2"])
    (use assms in \<open>simp_all add: allocated_def claim_of_def\<close>)

theorem operator_allocates_exclusively_witness:
  "\<exists>w b. (operator_step {demo_operator} dObjs demo_hosts_store ref_lib)\<^sup>*\<^sup>* (demo_cluster (demo_selected ''metal/b'')) w \<and>
     dObjs w (''ns'', ''bmi'') = Some b \<and> hostClass (ispec b) = ''metal3'' \<and>
     dObjs w (''ns'', ''first'') = Some demo_first \<and> externalHostID (ispec b) \<noteq> externalHostID (ispec demo_first)"
proof -
  let ?w = "demo_cluster (demo_selected ''metal/b'')" and ?k = "(''ns'', ''bmi'')"
  let ?p = "\<lparr>plocks = no_locks, pworld = ?w\<rparr>"
  have "demo_takes ''metal/b'' ''uid-2'' ?w"
    by (rule demo_takes_free[OF ParseHostID_demo(2), where b = "demo_bmh ''b'' None"])
      (simp_all add: demo_store_b, simp add: demo_bmh_def)
  then obtain x p' b where run: "Reconcile demo_operator ?k ?p = (x, p')"
    and b: "dObjs (pworld p') ?k = Some b" "hostClass (ispec b) = ''metal3''" "deletionTimestamp (imeta b) = None"
    and a: "dObjs (pworld p') (''ns'', ''first'') = Some demo_first"
    using demo_allocates[of ?p ?k "demo_selected ''metal/b''" "''metal/b''"] by auto
  have "operator_step {demo_operator} dObjs demo_hosts_store ref_lib (pworld ?p) (pworld p')"
    by (rule operator_step.Call[OF _ _ demo_worker run]) (simp_all add: ref_lib_def)
  then have path: "(operator_step {demo_operator} dObjs demo_hosts_store ref_lib)\<^sup>*\<^sup>* ?w (pworld p')" by simp
  have "exclusive (demo_view ?w)" by (rule demo_cluster_exclusive) simp_all
  note excl = operator_allocates_exclusively[where objs = dObjs and store = demo_hosts_store and L = ref_lib
      and w = ?w and w' = "pworld p'" and ?k1.0 = ?k and ?b1.0 = b and ?k2.0 = "(''ns'', ''first'')" and ?b2.0 = demo_first,
      OF path this b(1) _ _ a]
  have "externalHostID (ispec b) \<noteq> externalHostID (ispec demo_first)"
    by (rule notI, drule excl[rotated -1]) (use b in \<open>simp_all add: ref_lib_def\<close>)
  then show ?thesis using path b a by blast
qed

text \<open>C22: Without that proviso two instances are booked on one host: from a cluster in which every
  allocated instance has the mark of its host, the operator deletes an instance that had selected
  the host of an allocated one and never obtained it, and then allocates that host to a third
  instance that had selected it too. Two calls of \<open>Reconcile\<close> lead to two live instances with a host
  class on the same host.\<close>

theorem deletion_leads_to_double_booking:
  "\<exists>w x1 p1 x2 p2 b1 b3. exclusive (demo_view w) \<and>
     Reconcile demo_operator (''ns'', ''bmi'') \<lparr>plocks = no_locks, pworld = w\<rparr> = (x1, p1) \<and>
     Reconcile demo_operator (''ns'', ''third'') p1 = (x2, p2) \<and>
     dObjs (pworld p2) (''ns'', ''first'') = Some b1 \<and> dObjs (pworld p2) (''ns'', ''third'') = Some b3 \<and>
     hostClass (ispec b1) \<noteq> '''' \<and> hostClass (ispec b3) \<noteq> '''' \<and>
     deletionTimestamp (imeta b1) = None \<and> deletionTimestamp (imeta b3) = None \<and>
     externalHostID (ispec b1) = externalHostID (ispec b3)"
proof -
  let ?w = "demo_cluster demo_late" and ?k = "(''ns'', ''bmi'')" and ?k3 = "(''ns'', ''third'')"
  let ?p = "\<lparr>plocks = no_locks, pworld = ?w\<rparr>"
  obtain x1 p1 a where run1: "Reconcile demo_operator ?k ?p = (x1, p1)"
    and freed: "ref_store (dHosts (pworld p1)) (''metal'', ''a'') = Some a" "bmhConsumerRef a = None"
    and keep1: "\<forall>k'. k' \<noteq> ?k \<longrightarrow> dObjs (pworld p1) k' = dObjs ?w k'"
    using demo_leaves[of ?p ?k demo_late "''metal/a''", OF _ _ ParseHostID_demo(1)] demo_store_a by auto
  have locks: "held (plocks p1) = {}" using Reconcile_locks[of ?p demo_operator ?k] run1 by (simp add: same_locks_def)
  have "demo_takes ''metal/a'' ''uid-3'' (pworld p1)"
    by (rule demo_takes_free[OF ParseHostID_demo(1) _ _ freed]) simp_all
  then obtain x2 p2 b3 where run2: "Reconcile demo_operator ?k3 p1 = (x2, p2)"
    and b3: "dObjs (pworld p2) ?k3 = Some b3" "hostClass (ispec b3) = ''metal3''" "externalHostID (ispec b3) = ''metal/a''"
      "imeta b3 = imeta demo_third"
    and keep2: "\<forall>k'. k' \<noteq> ?k3 \<longrightarrow> dObjs (pworld p2) k' = dObjs (pworld p1) k'"
    using demo_allocates[of p1 ?k3 demo_third "''metal/a''"] keep1 locks by auto
  have "exclusive (demo_view ?w)" by (rule demo_cluster_exclusive) simp_all
  moreover have "dObjs (pworld p2) (''ns'', ''first'') = Some demo_first" using keep1 keep2 by simp
  ultimately show ?thesis using run1 run2 b3
    by (intro exI[of _ ?w] exI[of _ x1] exI[of _ p1] exI[of _ x2] exI[of _ p2] exI[of _ demo_first] exI[of _ b3]) simp
qed

end
