(* ===== verification/Allocation_Progress.thy ===== *)
theory Allocation_Progress
  imports Allocation_Refinement
begin

text \<open>
  Progress of an allocation: when the services answer and nobody interferes, an instance for which
  a free host exists is allocated after three calls of \<open>Reconcile\<close>, one for its finalizer, one to
  select a host and one to obtain it.
\<close>

section \<open>Services that answer\<close>

definition reliable_services ::
    "('w \<Rightarrow> object_key \<Rightarrow> bmi option) \<Rightarrow> 'w bmh_store \<Rightarrow> ('p, 'w) bmi_reconciler \<Rightarrow> 'w metal3_inventory \<Rightarrow>
     object_key \<Rightarrow> bool" where
  "reliable_services objs store r m k \<longleftrightarrow>
     InventoryClient r = metal3_inventory_client m \<and> lib_laws (rLib r) \<and> bmh_laws (m3client m) store (=) \<and>
     (\<forall>w b. objs w k = Some b \<longrightarrow> bmi_key b = k \<longrightarrow> rGet r k w = (Inr b, w)) \<and>
     (\<forall>b w. bmi_key b = k \<longrightarrow> objs w k \<noteq> None \<longrightarrow> finalizers (imeta b) \<noteq> [] \<longrightarrow>
        (\<exists>b' w'. rUpdate r b w = (Inr b', w') \<and> same_object b b' \<and> objs w' k = Some b' \<and> store w' = store w)) \<and>
     (\<forall>b w b0. bmi_key b = k \<longrightarrow> objs w k = Some b0 \<longrightarrow> bmi_key b0 = k \<longrightarrow>
        (\<exists>x w' b1. rStatusUpdate r b w = (x, w') \<and> objs w' k = Some b1 \<and> same_object b0 b1 \<and> store w' = store w)) \<and>
     (\<forall>ns ls w. \<exists>bs. bmh_List (m3client m) ns ls w = (Inr bs, w)) \<and>
     (\<forall>hk w h. store w hk = Some h \<longrightarrow> bmh_Get (m3client m) hk w = (Inr h, w)) \<and>
     (\<forall>h w h0. store w (bmh_key h) = Some h0 \<longrightarrow> bmhResourceVersion h0 = bmhResourceVersion h \<longrightarrow>
        (\<exists>h' w'. bmh_Update (m3client m) h w = (Inr h', w') \<and> objs w' = objs w))"

lemma answering_calls:
  assumes "reliable_services objs store r m k"
  shows "InventoryClient r = metal3_inventory_client m" and "lib_laws (rLib r)" and "bmh_laws (m3client m) store (=)"
    and "objs w k = Some b \<Longrightarrow> bmi_key b = k \<Longrightarrow> rGet r k w = (Inr b, w)"
    and "bmi_key b = k \<Longrightarrow> objs w k \<noteq> None \<Longrightarrow> finalizers (imeta b) \<noteq> [] \<Longrightarrow>
      \<exists>b' w'. rUpdate r b w = (Inr b', w') \<and> same_object b b' \<and> objs w' k = Some b' \<and> store w' = store w"
    and "bmi_key b = k \<Longrightarrow> objs w k = Some b0 \<Longrightarrow> bmi_key b0 = k \<Longrightarrow>
      \<exists>x w' b1. rStatusUpdate r b w = (x, w') \<and> objs w' k = Some b1 \<and> same_object b0 b1 \<and> store w' = store w"
    and "\<exists>bs. bmh_List (m3client m) ns ls w = (Inr bs, w)"
    and "store w hk = Some h \<Longrightarrow> bmh_Get (m3client m) hk w = (Inr h, w)"
    and "store w (bmh_key h) = Some h0 \<Longrightarrow> bmhResourceVersion h0 = bmhResourceVersion h \<Longrightarrow>
      \<exists>h' w'. bmh_Update (m3client m) h w = (Inr h', w') \<and> objs w' = objs w"
proof -
  note R = assms[unfolded reliable_services_def]
  show "InventoryClient r = metal3_inventory_client m" "lib_laws (rLib r)" "bmh_laws (m3client m) store (=)"
    using R by simp_all
  show "objs w k = Some b \<Longrightarrow> bmi_key b = k \<Longrightarrow> rGet r k w = (Inr b, w)" using R by metis
  show "bmi_key b = k \<Longrightarrow> objs w k \<noteq> None \<Longrightarrow> finalizers (imeta b) \<noteq> [] \<Longrightarrow>
      \<exists>b' w'. rUpdate r b w = (Inr b', w') \<and> same_object b b' \<and> objs w' k = Some b' \<and> store w' = store w"
    using R by metis
  show "bmi_key b = k \<Longrightarrow> objs w k = Some b0 \<Longrightarrow> bmi_key b0 = k \<Longrightarrow>
      \<exists>x w' b1. rStatusUpdate r b w = (x, w') \<and> objs w' k = Some b1 \<and> same_object b0 b1 \<and> store w' = store w"
    using R by metis
  show "\<exists>bs. bmh_List (m3client m) ns ls w = (Inr bs, w)" using R by metis
  show "store w hk = Some h \<Longrightarrow> bmh_Get (m3client m) hk w = (Inr h, w)" using R by metis
  show "store w (bmh_key h) = Some h0 \<Longrightarrow> bmhResourceVersion h0 = bmhResourceVersion h \<Longrightarrow>
      \<exists>h' w'. bmh_Update (m3client m) h w = (Inr h', w') \<and> objs w' = objs w" using R by metis
qed

section \<open>The three calls\<close>

text \<open>An instance that still waits for a host: not under deletion, not allocated, without a workflow.\<close>

definition waiting :: "lib \<Rightarrow> object_key \<Rightarrow> bmi \<Rightarrow> bool" where
  "waiting L k b \<longleftrightarrow> bmi_key b = k \<and> hostClass (ispec b) = '''' \<and> time_IsZero L (deletionTimestamp (imeta b)) \<and>
     \<not> uses_template b \<and> objUID (imeta b) \<noteq> ''''"

lemma same_object_spec:
  "same_object b b' \<Longrightarrow> ispec b' = ispec b \<and> bmi_key b' = bmi_key b \<and> objUID (imeta b') = objUID (imeta b) \<and>
     finalizers (imeta b') = finalizers (imeta b) \<and> deletionTimestamp (imeta b') = deletionTimestamp (imeta b)"
  by (simp add: same_object_def bmi_key_def)

lemma waiting_same: "same_object b b' \<Longrightarrow> waiting L k b \<Longrightarrow> waiting L k b'"
  by (simp add: waiting_def same_object_def bmi_key_def uses_template_def)

lemma reconcile_saves:
  assumes R: "reliable_services objs store r m k" and "objs (pworld p) k = Some b" and "bmi_key b = k"
    and "time_IsZero (rLib r) (deletionTimestamp (imeta b))"
    and run: "handleUpdate r b p = (res, y, p1)" and "bmi_key y = k"
    and "objs (pworld p1) k = Some b1" and "bmi_key b1 = k"
  shows "\<exists>b2. objs (pworld (snd (Reconcile r k p))) k = Some b2 \<and> same_object b1 b2 \<and>
    store (pworld (snd (Reconcile r k p))) = store (pworld p1)"
proof -
  have get: "rGet r k (pworld p) = (Inr b, pworld p)" by (rule answering_calls(4)[OF R assms(2,3)])
  obtain x w' b2 where "rStatusUpdate r y (pworld p1) = (x, w')" "objs w' k = Some b2" "same_object b1 b2"
    "store w' = store (pworld p1)" using answering_calls(6)[OF R assms(6-8)] by blast
  moreover have "same_object b1 b1" by (simp add: same_object_def)
  ultimately show ?thesis using get run assms(4,7)
    by (cases "rDeepEqual r (istatus y) (istatus b)") (auto simp: Reconcile_def Let_def split: sum.split)
qed

text \<open>The object as \<open>reconcileInventory\<close> works on it.\<close>

abbreviation allocating :: "('p, 'w) bmi_reconciler \<Rightarrow> string list \<Rightarrow> bmi \<Rightarrow> bmi" where
  "allocating r fs b \<equiv> set_bmi_finalizers fs (cond r HostConditionAllocated ConditionFalse
     HostConditionReasonProgressing ''Allocating BareMetalInstance'' (set_phase BareMetalInstancePhaseAllocating b))"

lemma handleUpdate_waiting: "waiting L k b \<Longrightarrow> handleUpdate r b p = reconcileInventory r b p"
  by (simp add: handleUpdate_def waiting_def)

lemma first_call:
  assumes R: "reliable_services objs store r m k" and "objs (pworld p) k = Some b" and W: "waiting (rLib r) k b"
    and "BareMetalInstanceInventoryFinalizer \<notin> set (finalizers (imeta b))"
  shows "\<exists>b2. objs (pworld (snd (Reconcile r k p))) k = Some b2 \<and> waiting (rLib r) k b2 \<and> ispec b2 = ispec b \<and>
    objUID (imeta b2) = objUID (imeta b) \<and> BareMetalInstanceInventoryFinalizer \<in> set (finalizers (imeta b2)) \<and>
    store (pworld (snd (Reconcile r k p))) = store (pworld p)"
proof -
  obtain fs where add: "AddFinalizer (rLib r) (finalizers (imeta b)) BareMetalInstanceInventoryFinalizer = (fs, True)"
    and fs: "BareMetalInstanceInventoryFinalizer \<in> set fs"
    using lib_AddFinalizer(1,2)[OF answering_calls(2)[OF R], where fs = "finalizers (imeta b)"
        and f = BareMetalInstanceInventoryFinalizer] assms(4)
    by (cases "AddFinalizer (rLib r) (finalizers (imeta b)) BareMetalInstanceInventoryFinalizer") auto
  let ?x = "allocating r fs b"
  have key: "bmi_key ?x = k" "finalizers (imeta ?x) \<noteq> []" using W fs by (auto simp: waiting_def)
  obtain b' w' where up: "rUpdate r ?x (pworld p) = (Inr b', w')" "same_object ?x b'" "objs w' k = Some b'"
    "store w' = store (pworld p)" using answering_calls(5)[OF R key(1) _ key(2)] assms(2) by (metis option.distinct(1))
  have run: "handleUpdate r b p = (ok_done, b', p\<lparr>pworld := w'\<rparr>)"
    using handleUpdate_waiting[OF W, of r p] add up(1) by (simp add: reconcileInventory_def Let_def)
  have b': "ispec b' = ispec b" "bmi_key b' = k" "objUID (imeta b') = objUID (imeta b)" "finalizers (imeta b') = fs"
    "waiting (rLib r) k b'"
    using same_object_spec[OF up(2)] key W waiting_same[OF up(2)] by (simp_all add: waiting_def uses_template_def)
  obtain b2 where b2: "objs (pworld (snd (Reconcile r k p))) k = Some b2" "same_object b' b2"
    "store (pworld (snd (Reconcile r k p))) = store (pworld p)"
    using reconcile_saves[OF R assms(2) _ _ run b'(2)] W up(3,4) b'(2) by (auto simp: waiting_def)
  then show ?thesis using same_object_spec[OF b2(2)] waiting_same[OF b2(2) b'(5)] b' fs by auto
qed

lemma find_answers:
  assumes "reliable_services objs store r m k"
  shows "\<exists>a. metal3_FindFreeHost m match w = (Inr a, w)"
proof -
  have "\<exists>bs. bmh_List (m3client m) ns ls w = (Inr bs, w)" for ns ls by (rule answering_calls(7)[OF assms])
  then obtain f where f: "bmh_List (m3client m) ns ls w = (Inr (f ns ls), w)" for ns ls by metis
  show ?thesis by (simp add: metal3_FindFreeHost_def f Let_def)
qed

lemma find_finds:
  assumes R: "reliable_services objs store r m k" and "store w (bmh_key h) = Some h" and "metal3_free m match h"
  shows "\<exists>h'. metal3_FindFreeHost m match w = (Inr (Some (bmhToHost h' (m3hostClass m) (m3networkClass m))), w) \<and>
    store w (bmh_key h') = Some h' \<and> metal3_free m match h'"
proof -
  obtain a where a: "metal3_FindFreeHost m match w = (Inr a, w)" using find_answers[OF R] by blast
  show ?thesis
    using metal3_FindFreeHost_cases[OF answering_calls(3)[OF R], where match = match and w = w] a assms(2,3)
    by (cases a) auto
qed

lemma reconcileInventory_no_finalizer_write:
  assumes "lib_laws (rLib r)" and "BareMetalInstanceInventoryFinalizer \<in> set (finalizers (imeta b))"
  shows "AddFinalizer (rLib r) (finalizers (imeta b)) BareMetalInstanceInventoryFinalizer = (finalizers (imeta b), False)"
  using lib_AddFinalizer(2,3)[OF assms(1), where fs = "finalizers (imeta b)" and f = BareMetalInstanceInventoryFinalizer]
    assms(2) by (simp add: prod_eq_iff)

lemma second_call:
  assumes R: "reliable_services objs store r m k" and "objs (pworld p) k = Some b" and W: "waiting (rLib r) k b"
    and fin: "BareMetalInstanceInventoryFinalizer \<in> set (finalizers (imeta b))" and "externalHostID (ispec b) = ''''"
    and "store (pworld p) (bmh_key h) = Some h" and "metal3_free m (match_expressions b) h"
  shows "\<exists>b2 h'. objs (pworld (snd (Reconcile r k p))) k = Some b2 \<and> waiting (rLib r) k b2 \<and>
    objUID (imeta b2) = objUID (imeta b) \<and> BareMetalInstanceInventoryFinalizer \<in> set (finalizers (imeta b2)) \<and>
    externalHostID (ispec b2) = bmhNamespace h' @ ''/'' @ bmhName h' \<and> store (pworld p) (bmh_key h') = Some h' \<and>
    metal3_free m (match_expressions b) h' \<and> store (pworld (snd (Reconcile r k p))) = store (pworld p)"
proof -
  let ?x = "allocating r (finalizers (imeta b)) b"
  have match: "match_expressions ?x = match_expressions b" by (simp add: match_expressions_def)
  obtain h' where find: "metal3_FindFreeHost m (match_expressions b) (pworld p)
      = (Inr (Some (bmhToHost h' (m3hostClass m) (m3networkClass m))), pworld p)"
    and h': "store (pworld p) (bmh_key h') = Some h'" "metal3_free m (match_expressions b) h'"
    using find_finds[OF R assms(6,7)] by blast
  let ?id = "bmhNamespace h' @ ''/'' @ bmhName h'" let ?y = "set_externalHostID ?id ?x"
  have key: "bmi_key ?y = k" "finalizers (imeta ?y) \<noteq> []" using W fin by (auto simp: waiting_def)
  obtain b' w' where up: "rUpdate r ?y (pworld p) = (Inr b', w')" "same_object ?y b'" "objs w' k = Some b'"
    "store w' = store (pworld p)" using answering_calls(5)[OF R key(1) _ key(2)] assms(2) by (metis option.distinct(1))
  have sel: "select_host r ?x (pworld p) = (ok_done, b', w')"
    unfolding select_host_def match using find up(1) answering_calls(1)[OF R]
    by (simp add: metal3_inventory_client_def)
  have run: "handleUpdate r b p = (ok_done, b', p\<lparr>pworld := w'\<rparr>)"
    unfolding handleUpdate_waiting[OF W] reconcileInventory_def Let_def
    using reconcileInventory_no_finalizer_write[OF answering_calls(2)[OF R] fin] sel assms(5) by simp
  have b': "externalHostID (ispec b') = ?id" "bmi_key b' = k" "objUID (imeta b') = objUID (imeta b)"
    "BareMetalInstanceInventoryFinalizer \<in> set (finalizers (imeta b'))" "waiting (rLib r) k b'"
    using same_object_spec[OF up(2)] key W fin by (simp_all add: waiting_def uses_template_def)
  obtain b2 where b2: "objs (pworld (snd (Reconcile r k p))) k = Some b2" "same_object b' b2"
    "store (pworld (snd (Reconcile r k p))) = store (pworld p)"
    using reconcile_saves[OF R assms(2) _ _ run b'(2)] W up(3,4) b'(2) by (auto simp: waiting_def)
  show ?thesis
    by (rule exI[of _ b2], rule exI[of _ h'])
      (use b2 h' same_object_spec[OF b2(2)] waiting_same[OF b2(2) b'(5)] b' in auto)
qed

lemma assign_reliable:
  assumes R: "reliable_services objs store r m k" and "store w (bmh_key h) = Some h" and "bmhConsumerRef h = None"
    and "ParseHostID hid = Inr (bmh_key h)" and "hid \<noteq> ''''" and "c \<noteq> ''''"
  shows "\<exists>x w'. metal3_AssignHost m hid c ls w = (Inr (Some x), w') \<and> hostHostClass x = m3hostClass m \<and>
    objs w' = objs w \<and> bmh_consumer store w' hid = Some c"
proof -
  obtain h' w' where up: "bmh_Update (m3client m) (assigned_bmh c ls h) w = (Inr h', w')" "objs w' = objs w"
    using answering_calls(9)[OF R, of w "assigned_bmh c ls h" h] assms(2) by auto
  have run: "metal3_AssignHost m hid c ls w = (Inr (Some (bmhToHost h' (m3hostClass m) (m3networkClass m))), w')"
    using metal3_AssignHost_unfold[OF assms(5,6,4) answering_calls(8)[OF R assms(2)], of ls] up(1) assms(3)
    by (simp add: held_by_other_def)
  have "bmh_consumer store w' hid = Some c"
    by (rule metal3_contract.assigned_is_held[OF answering_calls(3)[OF R] TrueI run])
  then show ?thesis using run up(2) by simp
qed

lemma third_call:
  assumes R: "reliable_services objs store r m k" and "objs (pworld p) k = Some b" and W: "waiting (rLib r) k b"
    and fin: "BareMetalInstanceInventoryFinalizer \<in> set (finalizers (imeta b))" and hid: "externalHostID (ispec b) = hid"
    and h: "store (pworld p) (bmh_key h) = Some h" "bmhConsumerRef h = None" "ParseHostID hid = Inr (bmh_key h)" "hid \<noteq> ''''"
    and lock: "hid \<notin> held (plocks p)"
  shows "\<exists>b2. objs (pworld (snd (Reconcile r k p))) k = Some b2 \<and> hostClass (ispec b2) = m3hostClass m \<and>
    externalHostID (ispec b2) = hid \<and> objUID (imeta b2) = objUID (imeta b) \<and>
    bmh_consumer store (pworld (snd (Reconcile r k p))) hid = Some (objUID (imeta b))"
proof -
  let ?x = "allocating r (finalizers (imeta b)) b"
  have uid: "objUID (imeta b) \<noteq> ''''" using W by (simp add: waiting_def)
  obtain a w1 where as: "metal3_AssignHost m hid (objUID (imeta b)) (combined_labels ?x) (pworld p) = (Inr (Some a), w1)"
    "hostHostClass a = m3hostClass m" "objs w1 = objs (pworld p)" "bmh_consumer store w1 hid = Some (objUID (imeta b))"
    using assign_reliable[OF R h uid] by blast
  let ?y = "?x\<lparr>ispec := (ispec ?x)\<lparr>hostClass := hostHostClass a, networkClass := hostNetworkClass a\<rparr>\<rparr>"
  have key: "bmi_key ?y = k" "finalizers (imeta ?y) \<noteq> []" using W fin by (auto simp: waiting_def bmi_key_def)
  obtain b' w' where up: "rUpdate r ?y w1 = (Inr b', w')" "same_object ?y b'" "objs w' k = Some b'"
    "store w' = store w1" using answering_calls(5)[OF R key(1) _ key(2)] assms(2) as(3) by (metis option.distinct(1))
  obtain z where acq: "acquire_host r ?x (pworld p) = (ok_done, z, w')" and z: "bmi_key z = bmi_key b'"
    unfolding acquire_host_def using as(1) up(1) hid answering_calls(1)[OF R]
    by (simp add: metal3_inventory_client_def Let_def)
  obtain l where l: "TryLock hid (plocks p) = (True, l)"
    using TryLock_result[of hid "plocks p"] lock by (metis prod.collapse)
  have run: "handleUpdate r b p = (ok_done, z, \<lparr>plocks = Unlock hid l, pworld = w'\<rparr>)"
    unfolding handleUpdate_waiting[OF W] reconcileInventory_def Let_def
    using reconcileInventory_no_finalizer_write[OF answering_calls(2)[OF R] fin] acq hid h(4) l by simp
  note s = same_object_spec[OF up(2)]
  have b': "bmi_key b' = k" "externalHostID (ispec b') = hid" "hostClass (ispec b') = m3hostClass m"
    "objUID (imeta b') = objUID (imeta b)" using s key(1) hid as(2) by simp_all
  obtain b2 where b2: "objs (pworld (snd (Reconcile r k p))) k = Some b2" "same_object b' b2"
    "store (pworld (snd (Reconcile r k p))) = store w'"
    using reconcile_saves[OF R assms(2) _ _ run _ _ b'(1)] W up(3) b'(1) z by (auto simp: waiting_def)
  have "bmh_consumer store (pworld (snd (Reconcile r k p))) hid = Some (objUID (imeta b))"
    using bmh_consumer_same_store[of store "pworld (snd (Reconcile r k p))" w1] b2(3) up(4) as(4) by simp
  then show ?thesis using b2(1) same_object_spec[OF b2(2)] b' by auto
qed

section \<open>Property\<close>

text \<open>C10: When the services answer every request and nobody else acts, an instance without a workflow that is
  not under deletion and has no host yet is allocated after three calls of \<open>Reconcile\<close>, whatever the
  random choice among the hosts, provided that some stored host in the configured namespace matches
  and is free: its object then has the backend's host class and names a host that is marked for it.\<close>

theorem allocation_completes:
  assumes R: "reliable_services objs store r m k" and "objs (pworld p) k = Some b" and W: "waiting (rLib r) k b"
    and "BareMetalInstanceInventoryFinalizer \<notin> set (finalizers (imeta b))" and "externalHostID (ispec b) = ''''"
    and "store (pworld p) (bmh_key h) = Some h" and "metal3_free m (match_expressions b) h"
    and names: "m3namespace m \<noteq> ''''" "CHR ''/'' \<notin> set (m3namespace m)"
      "\<And>h. store (pworld p) (bmh_key h) = Some h \<Longrightarrow> bmhName h \<noteq> ''''"
    and "held (plocks p) = {}"
  shows "\<exists>b'. objs (pworld (((\<lambda>q. snd (Reconcile r k q)) ^^ 3) p)) k = Some b' \<and>
    hostClass (ispec b') = m3hostClass m \<and> externalHostID (ispec b') \<noteq> '''' \<and>
    bmh_consumer store (pworld (((\<lambda>q. snd (Reconcile r k q)) ^^ 3) p)) (externalHostID (ispec b')) = Some (objUID (imeta b))"
proof -
  let ?p1 = "snd (Reconcile r k p)" let ?p2 = "snd (Reconcile r k ?p1)"
  obtain b1 where b1: "objs (pworld ?p1) k = Some b1" "waiting (rLib r) k b1" "ispec b1 = ispec b"
    "objUID (imeta b1) = objUID (imeta b)" "BareMetalInstanceInventoryFinalizer \<in> set (finalizers (imeta b1))"
    "store (pworld ?p1) = store (pworld p)" using first_call[OF R assms(2) W assms(4)] by blast
  have "match_expressions b1 = match_expressions b" by (simp add: match_expressions_def b1(3))
  with second_call[OF R b1(1,2,5)] b1(3,6) assms(5-7) obtain b2 h' where
    b2: "objs (pworld ?p2) k = Some b2" "waiting (rLib r) k b2" "objUID (imeta b2) = objUID (imeta b1)"
    "BareMetalInstanceInventoryFinalizer \<in> set (finalizers (imeta b2))"
    and h': "externalHostID (ispec b2) = bmhNamespace h' @ ''/'' @ bmhName h'" "store (pworld p) (bmh_key h') = Some h'"
      "metal3_free m (match_expressions b) h'" "store (pworld ?p2) = store (pworld p)" by metis
  let ?hid = "bmhNamespace h' @ ''/'' @ bmhName h'"
  have "ParseHostID ?hid = Inr (bmh_key h')"
    using ParseHostID_join[of "bmhNamespace h'" "bmhName h'"] h'(2,3) names by (simp add: metal3_free_def bmh_key_def)
  moreover have "held (plocks ?p2) = {}"
    using Reconcile_locks[of p r k] Reconcile_locks[of ?p1 r k] assms(11) by (simp add: same_locks_def)
  moreover have "bmhConsumerRef h' = None" using h'(3) by (simp add: metal3_free_def)
  ultimately show ?thesis
    using third_call[OF R b2(1,2,4) h'(1), where h = h'] h'(2,4) b2(3) b1(4) by (auto simp: numeral_3_eq_3)
qed

lemma demo_reliable: "reliable_services dObjs demo_hosts_store demo_operator demo_cluster_metal3 k"
proof -
  have api: "m3client demo_cluster_metal3 = demo_hosts_api" by (simp add: demo_cluster_metal3_def)
  have get: "dObjs w k = Some b \<Longrightarrow> bmi_key b = k \<Longrightarrow> demo_get k w = (Inr b, w)" for w b by (simp add: demo_get_def)
  have put: "\<exists>b' w'. demo_put b w = (Inr b', w') \<and> same_object b b' \<and> dObjs w' k = Some b' \<and>
      demo_hosts_store w' = demo_hosts_store w" if "bmi_key b = k" "dObjs w k \<noteq> None" "finalizers (imeta b) \<noteq> []" for b w
    using that by (auto simp: demo_put_def same_object_def demo_hosts_store_def)
  have st: "\<exists>x w' b1. demo_put_status b w = (x, w') \<and> dObjs w' k = Some b1 \<and> same_object b0 b1 \<and>
      demo_hosts_store w' = demo_hosts_store w" if "bmi_key b = k" "dObjs w k = Some b0" "bmi_key b0 = k" for b w b0
    using that by (simp add: demo_put_status_def get Let_def same_object_def demo_hosts_store_def)
  have lst: "\<exists>bs. bmh_List demo_hosts_api ns ls w = (Inr bs, w)" for ns ls w
    by (simp add: demo_hosts_api_def bmh_api_at_def at_part_def ref_bmh_api_def)
  have hget: "demo_hosts_store w hk = Some h \<Longrightarrow> bmh_Get demo_hosts_api hk w = (Inr h, w)" for w hk h
    by (simp add: demo_hosts_api_def bmh_api_at_def at_part_def ref_bmh_api_def demo_hosts_store_def)
  have hupd: "\<exists>h' w'. bmh_Update demo_hosts_api h w = (Inr h', w') \<and> dObjs w' = dObjs w"
    if "demo_hosts_store w (bmh_key h) = Some h0" "bmhResourceVersion h0 = bmhResourceVersion h" for w h h0
    using that by (simp add: demo_hosts_api_def bmh_api_at_def at_part_def ref_bmh_api_def demo_hosts_store_def ref_update_def Let_def)
  show ?thesis
    unfolding reliable_services_def api demo_operator_ops
    using get put st lst hget hupd demo_hosts_laws ref_lib_laws by blast
qed

theorem allocation_completes_witness:
  "\<exists>b'. dObjs (pworld (((\<lambda>q. snd (Reconcile demo_operator (''ns'', ''bmi'') q)) ^^ 3)
       \<lparr>plocks = no_locks, pworld = demo_cluster demo_bmi\<rparr>)) (''ns'', ''bmi'') = Some b' \<and> hostClass (ispec b') = ''metal3''"
proof -
  let ?p = "\<lparr>plocks = no_locks, pworld = demo_cluster demo_bmi\<rparr>" and ?h = "demo_bmh ''b'' None"
  have "waiting ref_lib (''ns'', ''bmi'') demo_bmi"
    by (simp add: waiting_def demo_bmi_def bmi_key_def ref_lib_def uses_template_def)
  moreover have "BareMetalInstanceInventoryFinalizer \<notin> set (finalizers (imeta demo_bmi))" "externalHostID (ispec demo_bmi) = ''''"
    by (simp_all add: demo_bmi_def)
  moreover have "demo_hosts_store (pworld ?p) (bmh_key ?h) = Some ?h"
    by (simp add: demo_hosts_store_def demo_store_b bmh_key_def[of ?h]) (simp add: demo_bmh_def demo_store_b[unfolded demo_bmh_def])
  moreover have "metal3_free demo_cluster_metal3 (match_expressions demo_bmi) ?h"
    by (simp add: metal3_free_def demo_bmh_def demo_cluster_metal3_def demo_hosts_api_def bmh_api_at_def ref_bmh_api_def wanted_host_type_def
        match_expressions_def managed_by_def wanted_managed_by_def map_index_def demo_bmi_def Let_def)
  moreover have "m3namespace demo_cluster_metal3 \<noteq> ''''" "CHR ''/'' \<notin> set (m3namespace demo_cluster_metal3)"
    by (simp_all add: demo_cluster_metal3_def)
  moreover have "bmhName h \<noteq> ''''" if "demo_hosts_store (pworld ?p) (bmh_key h) = Some h" for h
    using ref_store_SomeD[of demo_bmhs "bmh_key h" h] that
    by (auto simp: demo_hosts_store_def demo_bmhs_def demo_bmh_def)
  moreover have "held (plocks ?p) = {}" "dObjs (pworld ?p) (''ns'', ''bmi'') = Some demo_bmi" by simp_all
  moreover have "m3hostClass demo_cluster_metal3 = ''metal3''" by (simp add: demo_cluster_metal3_def)
  ultimately show ?thesis
    using allocation_completes[OF demo_reliable[of "(''ns'', ''bmi'')"], where p = ?p and b = demo_bmi and h = ?h] by auto
qed

end
