(* ===== verification/Allocation_OpenStack.thy ===== *)
theory Allocation_OpenStack
  imports Allocation_Refinement Inventory_OpenStack
begin

text \<open>
  The operator on OpenStack: the same handlers, with Ironic nodes as hosts. The generic path lemma of
  \<open>Allocation_Refinement\<close> is instantiated for the OpenStack backend, whose calls take several requests
  and may set the mark in an earlier one (an update that was carried out and reported as failed, then
  the retry after an authentication error). The label of the mark must not be among the labels of
  the instance; a property of \<open>Inventory_OpenStack\<close> shows what happens otherwise.
\<close>

section \<open>The cluster with Ironic nodes\<close>

definition claims_in :: "lib \<Rightarrow> ('w \<Rightarrow> object_key \<Rightarrow> bmi option) \<Rightarrow> 'w \<Rightarrow> object_key \<Rightarrow> claim option" where
  "claims_in L objs w k = map_option (claim_of L) (objs w k)"

definition openstack_view ::
    "lib \<Rightarrow> ('w \<Rightarrow> object_key \<Rightarrow> bmi option) \<Rightarrow> 'w node_store \<Rightarrow> 'c \<times> 'w \<Rightarrow> cluster" where
  "openstack_view L objs store s = \<lparr>claims = claims_in L objs (snd s), marks = node_consumer store (snd s)\<rparr>"

lemma openstack_view_simps [simp]:
  "claims (openstack_view L objs store s) = claims_in L objs (snd s)"
  "marks (openstack_view L objs store s) = node_consumer store (snd s)"
  by (simp_all add: openstack_view_def)

lemma marked_openstack_view:
  assumes "claims_in L objs w1 = claims_in L objs (snd s)"
  shows "marked_as (openstack_view L objs store) s (node_consumer store w1) = openstack_view L objs store (c, w1)"
  using assms by (simp add: openstack_view_def)

text \<open>What a worker relies on, as for Metal3; others leave the objects alone during an inventory call.\<close>

definition openstack_worker ::
    "('w \<Rightarrow> object_key \<Rightarrow> bmi option) \<Rightarrow> 'w node_store \<Rightarrow> ('p, 'c \<times> 'w) bmi_reconciler \<Rightarrow>
     ('c, 'w) openstack_inventory \<Rightarrow> (string \<Rightarrow> 'w \<Rightarrow> 'w \<Rightarrow> bool) \<Rightarrow> bool \<Rightarrow> object_key \<Rightarrow> string \<Rightarrow> bool" where
  "openstack_worker objs store r m env own k h \<longleftrightarrow>
     (let view = openstack_view (rLib r) objs store in
      InventoryClient r = openstack_inventory_client m \<and> lib_laws (rLib r) \<and>
      openstack_laws m store (claims_in (rLib r) objs) env \<and>
      object_laws r view own k h \<and> service_laws r view own k h \<and> lifecycle_laws r view own k h \<and>
      (\<forall>c w w'. env h w w' \<longrightarrow> others own k h (view (c, w)) (view (c, w')) \<and>
         claims_in (rLib r) objs w' = claims_in (rLib r) objs w))"

section \<open>Between the requests of a call\<close>

lemma during_frame:
  assumes "node_during store frame env h t w w1" and "\<And>u v. env h u v \<Longrightarrow> frame v = frame u"
  shows "frame w1 = frame w"
  using assms(1) by (induction rule: node_during.induct) (auto simp: assms(2) own_write_def)

text \<open>A write of the call itself is no step, a marking or a release.\<close>

lemma own_write_path:
  assumes W: "own_write store (claims_in L objs) h t w1 w2" and "claims_in L objs w1 k = Some cl" and "claimHost cl = h"
    and t: "t = Some (claimUID cl) \<or> t = None \<and> claimDeleting cl \<and>
      (own \<longrightarrow> free_or_own (openstack_view L objs store (c, w1)) cl)"
  shows "protocol_path own (openstack_view L objs store (c, w1)) (openstack_view L objs store (c, w2))"
proof -
  let ?v1 = "openstack_view L objs store (c, w1)" and ?v2 = "openstack_view L objs store (c, w2)"
  have frame: "claims_in L objs w2 = claims_in L objs w1" using W by (simp add: own_write_def)
  from W obtain n' where st: "store w2 = (store w1)(h \<mapsto> n')" and
    mk: "node_mark n' = node_consumer store w1 h \<or>
      node_mark n' = t \<and> (t = None \<or> node_consumer store w1 h = None \<or> node_consumer store w1 h = t)"
    by (auto simp: own_write_def)
  have v2: "?v2 = ?v1\<lparr>marks := (marks ?v1)(h := node_mark n')\<rparr>"
    using node_consumer_upd[of store w2 w1 h n', OF st] frame by (simp add: openstack_view_def)
  consider "node_mark n' = node_consumer store w1 h"
    | "t = Some (claimUID cl)" "node_mark n' = t" "node_consumer store w1 h = None \<or> node_consumer store w1 h = t"
    | "t = None" "node_mark n' = t"
    using mk t by blast
  then show ?thesis
  proof cases
    case 1
    then have "?v2 = ?v1" unfolding v2 by (simp add: openstack_view_def)
    then show ?thesis by simp
  next
    case 2
    then have "protocol_step own k ?v1 (?v1\<lparr>marks := (marks ?v1)(claimHost cl \<mapsto> claimUID cl)\<rparr>)"
      by (intro protocol_step.Mark) (use assms(2,3) in \<open>auto simp: free_or_own_def\<close>)
    then show ?thesis unfolding v2 using 2(1,2) assms(3) protocol_path_step by simp
  next
    case 3
    then have "protocol_step own k ?v1 (?v1\<lparr>marks := (marks ?v1)(claimHost cl := None)\<rparr>)"
      by (intro protocol_step.Release) (use assms(2) t in auto)
    then show ?thesis unfolding v2 using 3 assms(3) protocol_path_step by simp
  qed
qed

lemma openstack_during_path:
  assumes d: "node_during store (claims_in L objs) env h t w w1" and S: "marks_stable store env"
    and env: "\<forall>u v. env h u v \<longrightarrow>
      others own k h (openstack_view L objs store (c, u)) (openstack_view L objs store (c, v)) \<and>
      claims_in L objs v = claims_in L objs u"
    and cl: "claims_in L objs w k = Some cl" "claimHost cl = h"
    and may: "may_become own (openstack_view L objs store (c, w)) cl t"
  shows "protocol_path own (openstack_view L objs store (c, w)) (openstack_view L objs store (c, w1))"
  using d S cl may
proof (induction rule: node_during.induct)
  case (others w w1 w2)
  then show ?case using env others_path protocol_path_trans by metis
next
  case (own w w1 w2)
  have frame: "claims_in L objs w1 = claims_in L objs w"
    using during_frame[OF own.hyps(1)] env by blast
  have "t = Some (claimUID cl) \<or> t = None \<and> claimDeleting cl \<and>
      (own \<longrightarrow> free_or_own (openstack_view L objs store (c, w1)) cl)"
    using own.prems(4) during_mark[OF own.hyps(1) S] cl(2) by (auto simp: may_become_def free_or_own_def)
  then show ?case
    using own_write_path[OF own.hyps(2), where k = k and cl = cl and c = c and own = own] frame own protocol_path_trans
    by metis
qed simp

section \<open>The worker\<close>

text \<open>What the environment leaves alone, a whole inventory call leaves alone.\<close>

lemma ironic_requests_frame:
  assumes L: "ironic_laws A store frame env" and env: "\<forall>w w'. env h w w' \<longrightarrow> frame w' = frame w"
  shows "nodes_Get A c h w = (x, w') \<Longrightarrow> frame w' = frame w"
    and "nodes_Update A c h ops w = (y, w') \<Longrightarrow> frame w' = frame w"
proof -
  show "frame w' = frame w" if "nodes_Get A c h w = (x, w')"
    using that env ironic_Get_ok(1)[OF L] ironic_Get_error[OF L] by (cases x) blast+
  have patch: "frame w' = frame w" if "env h w u" "patches_node store frame h ops u n w'" for u n
    using that env patches_node_frame by metis
  show "frame w' = frame w" if "nodes_Update A c h ops w = (y, w')"
  proof (cases y)
    case (Inl e)
    then show ?thesis using ironic_Update_error[OF L] that env patch by blast
  next
    case (Inr n)
    with that have "nodes_Update A c h ops w = (Inr n, w')" by simp
    from ironic_Update_ok[OF L this] patch show ?thesis by blast
  qed
qed

lemma openstack_attempt_frame:
  assumes L: "ironic_laws (osApi m) store frame env" and env: "\<forall>w w'. env h w w' \<longrightarrow> frame w' = frame w"
  shows "assignHost m h c ls s = (x, s') \<Longrightarrow> frame (snd s') = frame (snd s)"
    and "unassignHost m h ks s = (y, s') \<Longrightarrow> frame (snd s') = frame (snd s)"
proof -
  note F = ironic_requests_frame[where h = h, OF L env]
  show "frame (snd s') = frame (snd s)" if "assignHost m h c ls s = (x, s')"
    using that
    by (auto simp: assignHost_def Let_def split: if_splits prod.splits sum.splits option.splits dest!: F)
  show "frame (snd s') = frame (snd s)" if "unassignHost m h ks s = (y, s')"
    using that
    by (auto simp: unassignHost_def Let_def split: if_splits prod.splits sum.splits option.splits dest!: F)
qed

lemma openstack_inventory_frame:
  assumes L: "openstack_laws m store frame env" and env: "\<forall>w w'. env h w w' \<longrightarrow> frame w' = frame w"
  shows "openstack_AssignHost m h c ls s = (x, s') \<Longrightarrow> frame (snd s') = frame (snd s)"
    and "openstack_UnassignHost m h ks s = (y, s') \<Longrightarrow> frame (snd s') = frame (snd s)"
proof -
  note F = openstack_attempt_frame[where h = h, OF openstack_lawsD(1)[OF L] env]
  have rec: "reconnect m s = (z, s') \<Longrightarrow> frame (snd s') = frame (snd s)" for s s' z
    using env reconnect_env[OF L] by blast
  obtain a s1 b s2 where a: "assignHost m h c ls s = (a, s1)" and b: "unassignHost m h ks s = (b, s2)"
    by (metis prod.exhaust)
  obtain e t1 f t2 where e: "reconnect m s1 = (e, t1)" and f: "reconnect m s2 = (f, t2)" by (metis prod.exhaust)
  obtain a' u1 b' u2 where a': "assignHost m h c ls t1 = (a', u1)" and b': "unassignHost m h ks t2 = (b', u2)"
    by (metis prod.exhaust)
  note frames = F(1)[OF a] F(2)[OF b] rec[OF e] rec[OF f] F(1)[OF a'] F(2)[OF b']
  show "frame (snd s') = frame (snd s)" if "openstack_AssignHost m h c ls s = (x, s')"
    using that a e a' frames by (auto simp: openstack_AssignHost_def split: if_splits sum.splits option.splits)
  show "frame (snd s') = frame (snd s)" if "openstack_UnassignHost m h ks s = (y, s')"
    using that b f b' frames by (auto simp: openstack_UnassignHost_def split: if_splits sum.splits option.splits)
qed

lemma openstack_host_laws:
  fixes m :: "('c, 'w) openstack_inventory"
  assumes W: "openstack_worker objs store r m env own k h"
  shows "host_laws (openstack_view (rLib r) objs store) (\<lambda>s. node_consumer store (snd s))
    (\<lambda>h t s s'. node_during store (claims_in (rLib r) objs) env h t (snd s) (snd s')) r own k h"
proof -
  let ?L = "rLib r" let ?view = "openstack_view ?L objs store" let ?frame = "claims_in ?L objs"
  note W' = W[unfolded openstack_worker_def Let_def]
  have client: "InventoryClient r = openstack_inventory_client m" and laws: "openstack_laws m store ?frame env"
    using W' by simp_all
  have env: "\<forall>u v. env h u v \<longrightarrow> others own k h (?view (c, u)) (?view (c, v)) \<and> ?frame v = ?frame u" for c :: 'c
    using W' by blast
  note S = openstack_lawsD(2)[OF laws] and frame = openstack_inventory_frame[OF laws, where h = h]
  have during: "protocol_path own (?view s) (marked_as ?view s (node_consumer store (snd s'))) \<and>
      (node_consumer store (snd s') h = node_consumer store (snd s) h \<or> node_consumer store (snd s') h = t)"
    if "node_during store ?frame env h t (snd s) (snd s')" "?frame (snd s) k = Some cl" "claimHost cl = h"
      "may_become own (?view s) cl t" for t cl and s s' :: "'c \<times> 'w"
  proof -
    have "?frame (snd s') = ?frame (snd s)" using during_frame[OF that(1)] env by blast
    then have "marked_as ?view s (node_consumer store (snd s')) = ?view (fst s, snd s')"
      by (rule marked_openstack_view)
    moreover have "protocol_path own (?view (fst s, snd s)) (?view (fst s, snd s'))"
      using openstack_during_path[OF that(1) S env[of "fst s"] that(2,3)] that(4) by simp
    ultimately show ?thesis using during_mark[OF that(1) S] by auto
  qed
  show ?thesis unfolding host_laws_def client openstack_inventory_client_def
    using during env frame by (simp del: split_paired_All)
qed

text \<open>The path of a whole call; for the careful protocol the object must not have lost its host.\<close>

lemma openstack_worker_path:
  assumes W: "openstack_worker objs store r m env own k h" and run: "Reconcile r k p = (x, p')"
    and labels: "\<And>b w. rGet r k (pworld p) = (Inr b, w) \<Longrightarrow> mark_untouched (combined_labels b)"
    and h: "\<And>b. objs (snd (pworld p)) k = Some b \<Longrightarrow> externalHostID (ispec b) = h"
    and free: "\<And>b. own \<Longrightarrow> objs (snd (pworld p)) k = Some b \<Longrightarrow>
      \<not> time_IsZero (rLib r) (deletionTimestamp (imeta b)) \<Longrightarrow>
      node_consumer store (snd (pworld p)) h = None \<or> node_consumer store (snd (pworld p)) h = Some (objUID (imeta b))"
  shows "protocol_path own (openstack_view (rLib r) objs store (pworld p)) (openstack_view (rLib r) objs store (pworld p'))"
proof -
  note W' = W[unfolded openstack_worker_def Let_def]
  have client: "AssignHost (InventoryClient r) = openstack_AssignHost m"
    "UnassignHost (InventoryClient r) = openstack_UnassignHost m"
    using W' by (simp_all add: openstack_inventory_client_def)
  have claim: "claims (openstack_view (rLib r) objs store (pworld p)) k = Some c \<Longrightarrow>
      \<exists>b. objs (snd (pworld p)) k = Some b \<and> c = claim_of (rLib r) b" for c
    by (auto simp: claims_in_def)
  show ?thesis
  proof (rule openstack_contract.Reconcile_path[where m = m and store = store and env = env
        and frame = "claims_in (rLib r) objs", OF _ labels client _ openstack_host_laws[OF W] _ _ _ run])
    show "claimHost c = h" if "claims (openstack_view (rLib r) objs store (pworld p)) k = Some c" for c
      using claim[OF that] h by auto
    show "free_or_own (openstack_view (rLib r) objs store (pworld p)) c"
      if "own" "claims (openstack_view (rLib r) objs store (pworld p)) k = Some c" "claimDeleting c" for c
      using claim[OF that(2)] that(1,3) h free by (auto simp: free_or_own_def claim_of_def)
  qed (use W' in auto)
qed

section \<open>An example cluster\<close>

type_synonym demo_ironic_world = "node list demo_state"

definition demo_node_store :: "demo_ironic_world node_store" where
  "demo_node_store w = ref_nodes (dHosts w)"

definition on_nodes :: "(node list \<Rightarrow> 'a \<times> node list) \<Rightarrow> demo_ironic_world \<Rightarrow> 'a \<times> demo_ironic_world" where
  "on_nodes f w = (case f (dHosts w) of (x, v) \<Rightarrow> (x, w\<lparr>dHosts := v\<rparr>))"

lemma on_nodes_iff: "on_nodes f w = (x, w') \<longleftrightarrow> (\<exists>v. f (dHosts w) = (x, v) \<and> w' = w\<lparr>dHosts := v\<rparr>)"
  by (auto simp: on_nodes_def split: prod.split)

definition demo_node_api :: "(unit, demo_ironic_world) ironic_api" where
  "demo_node_api = \<lparr>ResponseCodeIs = ResponseCodeIs ref_ironic_api,
     nodes_Pages = (\<lambda>c opts. on_nodes (nodes_Pages ref_ironic_api c opts)),
     nodes_Get = (\<lambda>c h. on_nodes (nodes_Get ref_ironic_api c h)),
     nodes_Update = (\<lambda>c h ops. on_nodes (nodes_Update ref_ironic_api c h ops)),
     nodes_ChangePowerState = (\<lambda>c h t. on_nodes (nodes_ChangePowerState ref_ironic_api c h t))\<rparr>"

definition demo_ironic :: "(unit, demo_ironic_world) openstack_inventory" where
  "demo_ironic = \<lparr>osApi = demo_node_api, newServiceClient = (\<lambda>w. (Inr (), w)),
     osHostClass = ''openstack'', osNetworkClass = ''net'', osDraws = (\<lambda>_ _ _. 0)\<rparr>"

lemma demo_ironic_laws: "openstack_laws demo_ironic demo_node_store (claims_in ref_lib dObjs) (\<lambda>h. (=))"
proof -
  note R = ref_ironic_laws
  have patch: "patches_node demo_node_store (claims_in ref_lib dObjs) h ops w n' (w\<lparr>dHosts := v\<rparr>)"
    if "patches_node ref_nodes (\<lambda>_. ()) h ops (dHosts w) n' v" for h ops w n' v
    using that by (simp add: patches_node_def demo_node_store_def claims_in_def fun_eq_iff)
  have upd: "patches_node ref_nodes (\<lambda>_. ()) h ops v n' v'"
    if "nodes_Update ref_ironic_api c h ops v = (Inr n', v')" for c h ops v n' v'
    using ironic_Update_ok[OF R that] by blast
  have err: "v' = v" if "nodes_Update ref_ironic_api c h ops v = (Inl e, v')" for c h ops v e v'
    using that by (auto simp: ref_ironic_api_def dest: ref_node_update_laws(2))
  have get: "v' = v \<and> ref_nodes v h = Some n" if "nodes_Get ref_ironic_api c h v = (Inr n, v')" for c h v n v'
    using ironic_Get_ok[OF R that] by simp
  have "ironic_laws demo_node_api demo_node_store (claims_in ref_lib dObjs) (\<lambda>h. (=))"
    unfolding ironic_laws_def demo_node_api_def
    by (auto simp: on_nodes_iff intro: patch upd dest: err dest!: get ironic_Get_error[OF R])
      (simp_all add: demo_node_store_def)
  then show ?thesis by (simp add: openstack_laws_def demo_ironic_def marks_stable_def)
qed

definition at_client :: "('w \<Rightarrow> 'a \<times> 'w) \<Rightarrow> 'c \<times> 'w \<Rightarrow> 'a \<times> ('c \<times> 'w)" where
  "at_client f s = (case f (snd s) of (x, w) \<Rightarrow> (x, (fst s, w)))"

definition demo_ironic_operator :: "(unit, unit \<times> demo_ironic_world) bmi_reconciler" where
  "demo_ironic_operator = \<lparr>rLib = ref_lib, rGet = (\<lambda>k. at_client (demo_get k)), rUpdate = (\<lambda>b. at_client (demo_put b)),
     rStatusUpdate = (\<lambda>b. at_client (demo_put_status b)), rDeepEqual = (\<lambda>a b. phase a = phase b \<and> conditions a = conditions b),
     InventoryClient = openstack_inventory_client demo_ironic,
     ManagementClient = \<lparr>GetPowerState = (\<lambda>h w. (Inr (Some \<lparr>powerState = PowerOff, isTransitioning = False\<rparr>), w)),
       SetPowerState = (\<lambda>h t w. (None, w)), TriggerRestart = (\<lambda>h w. (None, w)),
       IsRestartComplete = (\<lambda>h w. (Inr True, w))\<rparr>,
     ProvisioningProvider = Some (), NoFreeHostsPollIntervalDuration = 30, TryLockFailPollIntervalDuration = 1,
     ManagementRecheckIntervalDuration = 10, ProvisionPollIntervalDuration = 60,
     provisioning_DefaultMaxJobHistory = 10,
     ComputeDesiredConfigVersion = (\<lambda>c. Inr ''v1''),
     RunProvisioningLifecycle = (\<lambda>p hooks s. ((no_requeue, None), OnSuccess hooks s)),
     RunDeprovisioningLifecycle = (\<lambda>p hooks s. ((no_requeue, True, None), s)),
     CheckAPIServerForNonTerminalProvisionJob = (\<lambda>k w. (False, w))\<rparr>"

abbreviation demo_ironic_view :: "unit \<times> demo_ironic_world \<Rightarrow> cluster" where
  "demo_ironic_view \<equiv> openstack_view ref_lib dObjs demo_node_store"

lemma demo_ironic_view_shows: "shows_objects (\<lambda>w. demo_ironic_view (c, w))"
proof -
  have "node_consumer demo_node_store (w\<lparr>dObjs := f\<rparr>) = node_consumer demo_node_store w" for w f
    by (rule ext) (simp add: node_consumer_def demo_node_store_def)
  then show ?thesis by (simp add: shows_objects_def claims_in_def fun_eq_iff)
qed

lemma at_client_iff: "at_client f s = (x, s') \<longleftrightarrow> f (snd s) = (x, snd s') \<and> fst s' = fst s"
  by (auto simp: at_client_def prod_eq_iff split: prod.splits)

lemma demo_ironic_FindFreeHost: "openstack_FindFreeHost demo_ironic ms s = (x, s') \<Longrightarrow> s' = s"
proof -
  have pages: "snd (nodes_Pages demo_node_api c opts w) = w" for c opts w
    by (simp add: demo_node_api_def on_nodes_def ref_ironic_api_def)
  have find: "snd (findFreeHost demo_ironic ms s) = s" for s
    using pages by (simp add: findFreeHost_def demo_ironic_def Let_def prod_eq_iff split: prod.split)
  have rec: "snd (reconnect demo_ironic s) = s" for s
    by (simp add: reconnect_def demo_ironic_def prod_eq_iff)
  show "openstack_FindFreeHost demo_ironic ms s = (x, s') \<Longrightarrow> s' = s"
    using find[of s] rec[of s]
    by (cases "findFreeHost demo_ironic ms s"; cases "reconnect demo_ironic s")
      (auto simp: openstack_FindFreeHost_def split: sum.splits option.splits if_splits)
qed

lemma demo_ironic_worker: "openstack_worker dObjs demo_node_store demo_ironic_operator demo_ironic (\<lambda>h. (=)) own k h"
proof -
  note V = demo_ironic_view_shows
  have up: "object_written ref_lib b (demo_ironic_view s) (demo_ironic_view s') \<and> b' = b"
    if "at_client (demo_put b) s = (Inr b', s')" for b s b' s'
    using demo_put_written[of b "snd s" b' "snd s'", OF _ V, of "fst s"] that
    by (cases s; cases s') (auto simp: at_client_iff)
  have "object_laws demo_ironic_operator demo_ironic_view own k h"
    unfolding object_laws_def demo_ironic_operator_def bmi_reconciler.simps
  proof (intro conjI allI impI)
    fix b x and s s' :: "unit \<times> demo_ironic_world" assume "at_client (demo_put_status b) s = (x, s')"
    then show "others own k h (demo_ironic_view s) (demo_ironic_view s')"
      using demo_put_status_view(1)[of b "snd s" x "snd s'", OF _ V, of "()"]
      by (cases s; cases s') (simp add: at_client_iff)
  next
    fix b b' and s s' :: "unit \<times> demo_ironic_world"
    assume "in_sync ref_lib demo_ironic_view k b s" "at_client (demo_put_status b) s = (Inr b', s')"
    then show "claim_of ref_lib b' = claim_of ref_lib b" "bmi_key b' = bmi_key b"
      using demo_put_status_view(2)[of b "snd s" "Inr b'" "snd s'", OF _ V, of b']
      by (auto simp: in_sync_def at_client_iff claims_in_def)
  next
    fix b b' and s s' :: "unit \<times> demo_ironic_world" assume "at_client (demo_put b) s = (Inr b', s')"
    from up[OF this] show "same_object b b'"
      "\<exists>t. others own k h (demo_ironic_view s) t \<and> object_written ref_lib b t (demo_ironic_view s')"
      by (auto simp: same_object_def)
  next
    fix b e and s s' :: "unit \<times> demo_ironic_world" assume "at_client (demo_put b) s = (Inl e, s')"
    then have "s' = s" using demo_put_error[of b "snd s" e "snd s'"] by (cases s; cases s') (simp add: at_client_iff)
    then show "\<exists>t. others own k h (demo_ironic_view s) t \<and>
        (demo_ironic_view s' = t \<or> object_written ref_lib b t (demo_ironic_view s'))" by auto
  next
    fix b and s s' :: "unit \<times> demo_ironic_world" assume "at_client (demo_get k) s = (Inr b, s')"
    then have "s' = s" "bmi_key b = k" "dObjs (snd s) k = Some b"
      using demo_get_cases[of k "snd s" "Inr b" "snd s'"] by (cases s; cases s'; auto simp: at_client_iff)+
    then show "others own k h (demo_ironic_view s) (demo_ironic_view s')" "in_sync ref_lib demo_ironic_view k b s'"
      by (simp_all add: in_sync_def claims_in_def)
  next
    fix e and s s' :: "unit \<times> demo_ironic_world" assume "at_client (demo_get k) s = (Inl e, s')"
    then show "others own k h (demo_ironic_view s) (demo_ironic_view s')"
      using demo_get_cases[of k "snd s" "Inl e" "snd s'"] by (simp add: at_client_iff openstack_view_def)
  qed
  moreover have "service_laws demo_ironic_operator demo_ironic_view own k h"
    by (auto simp: service_laws_def services_keep_def demo_ironic_operator_def openstack_inventory_client_def dest!: demo_ironic_FindFreeHost)
  moreover have "lifecycle_laws demo_ironic_operator demo_ironic_view own k h"
    unfolding lifecycle_laws_def lifecycle_keeps_def demo_ironic_operator_def by auto
  ultimately show ?thesis
    using demo_ironic_laws ref_lib_laws
    by (simp add: openstack_worker_def demo_ironic_operator_def)
qed

text \<open>Two nodes, the first one marked for an allocated instance; the second instance selected the other.\<close>

definition demo_ironic_cluster :: demo_ironic_world where
  "demo_ironic_cluster = \<lparr>dObjs = [(''ns'', ''first'') \<mapsto> demo_first\<lparr>ispec := (ispec demo_first)\<lparr>externalHostID := ''n1''\<rparr>\<rparr>,
     (''ns'', ''bmi'') \<mapsto> demo_selected ''n2''], dHosts = demo_nodes\<rparr>"

section \<open>Property\<close>

text \<open>C4: One call of \<open>Reconcile\<close> on an OpenStack cluster, with other workers and users acting between any two
  of its requests, with failures anywhere and with the retry after an authentication error, follows
  the allocation protocol and keeps the hosts exclusive, as on Metal3: every allocated instance has the
  mark of its node afterwards if it had it before. It needs two provisos the code does not enforce:
  no label of the instance has the key of the mark, and an instance under deletion is reconciled only
  while its node is free or marked for it.\<close>

theorem openstack_reconcile_keeps_hosts_exclusive:
  assumes "openstack_worker objs store r m env True k h" and "Reconcile r k p = (x, p')"
    and "\<And>b w. rGet r k (pworld p) = (Inr b, w) \<Longrightarrow> mark_untouched (combined_labels b)"
    and "\<And>b. objs (snd (pworld p)) k = Some b \<Longrightarrow> externalHostID (ispec b) = h"
    and "\<And>b. objs (snd (pworld p)) k = Some b \<Longrightarrow> \<not> time_IsZero (rLib r) (deletionTimestamp (imeta b)) \<Longrightarrow>
      node_consumer store (snd (pworld p)) h = None \<or> node_consumer store (snd (pworld p)) h = Some (objUID (imeta b))"
    and "exclusive (openstack_view (rLib r) objs store (pworld p))"
  shows "protocol_path True (openstack_view (rLib r) objs store (pworld p)) (openstack_view (rLib r) objs store (pworld p')) \<and>
    exclusive (openstack_view (rLib r) objs store (pworld p'))"
proof -
  have "protocol_path True (openstack_view (rLib r) objs store (pworld p)) (openstack_view (rLib r) objs store (pworld p'))"
    by (rule openstack_worker_path[OF assms(1,2)]) (use assms(3-5) in blast)+
  then show ?thesis using exclusive_path[OF _ assms(6)] by blast
qed

lemma demo_ironic_run:
  "\<exists>x p' b. Reconcile demo_ironic_operator (''ns'', ''bmi'') \<lparr>plocks = no_locks, pworld = ((), demo_ironic_cluster)\<rparr> = (x, p') \<and>
     dObjs (snd (pworld p')) (''ns'', ''bmi'') = Some b \<and> hostClass (ispec b) = ''openstack'' \<and>
     node_consumer demo_node_store (snd (pworld p')) ''n2'' = Some ''uid-2''"
proof -
  let ?R = "Reconcile demo_ironic_operator (''ns'', ''bmi'') \<lparr>plocks = no_locks, pworld = ((), demo_ironic_cluster)\<rparr>"
  have "map_option (\<lambda>b. hostClass (ispec b)) (dObjs (snd (pworld (snd ?R))) (''ns'', ''bmi'')) = Some ''openstack'' \<and>
     node_consumer demo_node_store (snd (pworld (snd ?R))) ''n2'' = Some ''uid-2''"
    by code_simp
  then show ?thesis by (cases ?R) auto
qed

lemma demo_ironic_exclusive: "exclusive (demo_ironic_view ((), demo_ironic_cluster))"
proof -
  have a: "node_consumer demo_node_store demo_ironic_cluster ''n1'' = Some ''uid-1''"
    by (simp add: node_consumer_def demo_node_store_def demo_ironic_cluster_def node_mark_def demo_openstack_eval)
  have objs: "k = (''ns'', ''first'') \<and> c = claim_of ref_lib (demo_first\<lparr>ispec := (ispec demo_first)\<lparr>externalHostID := ''n1''\<rparr>\<rparr>) \<or>
      k = (''ns'', ''bmi'') \<and> c = claim_of ref_lib (demo_selected ''n2'')"
    if "claims_in ref_lib dObjs demo_ironic_cluster k = Some c" for k c
    using that by (auto simp: claims_in_def demo_ironic_cluster_def split: if_splits)
  show ?thesis
    unfolding exclusive_def distinct_uids_def allocated_are_marked_def
    using a by (auto simp: allocated_def dest!: objs)
qed

theorem openstack_reconcile_keeps_hosts_exclusive_witness:
  "\<exists>x p' b. Reconcile demo_ironic_operator (''ns'', ''bmi'') \<lparr>plocks = no_locks, pworld = ((), demo_ironic_cluster)\<rparr> = (x, p') \<and>
     dObjs (snd (pworld p')) (''ns'', ''bmi'') = Some b \<and> hostClass (ispec b) = ''openstack'' \<and>
     exclusive (demo_ironic_view (pworld p'))"
proof -
  let ?p = "\<lparr>plocks = no_locks, pworld = ((), demo_ironic_cluster)\<rparr>" and ?k = "(''ns'', ''bmi'')"
  obtain x p' b where run: "Reconcile demo_ironic_operator ?k ?p = (x, p')"
    and b: "dObjs (snd (pworld p')) ?k = Some b" "hostClass (ispec b) = ''openstack''"
    using demo_ironic_run by blast
  have stored: "dObjs demo_ironic_cluster ?k = Some (demo_selected ''n2'')" by (simp add: demo_ironic_cluster_def)
  have "mark_untouched (combined_labels (demo_selected ''n2''))" by code_simp
  then have labels: "mark_untouched (combined_labels c)" if "rGet demo_ironic_operator ?k (pworld ?p) = (Inr c, w)" for c w
    using that stored demo_get_cases[of ?k demo_ironic_cluster "Inr c" "snd w"]
    by (auto simp: demo_ironic_operator_def at_client_iff)
  have L: "rLib demo_ironic_operator = ref_lib" by (simp add: demo_ironic_operator_def)
  have "exclusive (demo_ironic_view (pworld p'))"
    using openstack_reconcile_keeps_hosts_exclusive[OF demo_ironic_worker[where h = "''n2''"] run labels] stored
      demo_ironic_exclusive by (simp add: L ref_lib_def demo_selected_def demo_bmi_def)
  then show ?thesis using run b by blast
qed

end
