(* ===== verification/Power_Progress.thy ===== *)
theory Power_Progress
  imports Allocation_Progress Management_Metal3
begin

text \<open>
  The requeue loop of a running instance comes to an end. A management backend whose hosts follow an
  accepted power request after finitely many reads is the locale \<open>settling_power\<close>; inside it, every
  call of \<open>Reconcile\<close> on an allocated instance either ends it in the phase Ready with its host in the
  wanted state, or asks to be called again and lowers a measure. The work queue that calls again is
  the recursion \<open>requeue_loop\<close>; it terminates. The Metal3 backend is an instance.
\<close>

section \<open>Power that settles\<close>

text \<open>
  \<open>wanted h w\<close> is the state last asked of the host \<open>h\<close>, \<open>lag h w\<close> bounds how many more reads of its
  status will report a transition, \<open>bound\<close> how many may follow a request, and \<open>answering\<close> says that
  the host exists and the service answers. The objects of the cluster, \<open>objs\<close>, are not touched.
\<close>

locale settling_power =
  fixes get :: "string \<Rightarrow> 'w \<Rightarrow> (go_error + power_status option) \<times> 'w"
    and set_power :: "string \<Rightarrow> power_state \<Rightarrow> 'w \<Rightarrow> go_error option \<times> 'w"
    and objs :: "'w \<Rightarrow> object_key \<Rightarrow> bmi option"
    and answering :: "string \<Rightarrow> 'w \<Rightarrow> bool"
    and wanted :: "string \<Rightarrow> 'w \<Rightarrow> bool"
    and lag :: "string \<Rightarrow> 'w \<Rightarrow> nat"
    and bound :: nat
  assumes still: "answering h w \<Longrightarrow> lag h w = 0 \<Longrightarrow>
      \<exists>w'. get h w = (Inr (Some \<lparr>powerState = (if wanted h w then PowerOn else PowerOff), isTransitioning = False\<rparr>), w') \<and>
        answering h w' \<and> lag h w' = 0 \<and> wanted h w' = wanted h w \<and> objs w' = objs w"
    and moving: "answering h w \<Longrightarrow> 0 < lag h w \<Longrightarrow>
      \<exists>st w'. get h w = (Inr (Some st), w') \<and> isTransitioning st \<and>
        answering h w' \<and> lag h w' < lag h w \<and> wanted h w' = wanted h w \<and> objs w' = objs w"
    and accepted: "answering h w \<Longrightarrow> lag h w = 0 \<Longrightarrow> known_state t \<Longrightarrow>
      \<exists>w'. set_power h t w = (None, w') \<and>
        answering h w' \<and> lag h w' \<le> bound \<and> wanted h w' = (t = PowerOn) \<and> objs w' = objs w"
begin

lemma reads:
  assumes "answering h w"
  obtains st w' where "get h w = (Inr (Some st), w')" and "answering h w'" and "lag h w' \<le> lag h w"
    and "0 < lag h w \<Longrightarrow> lag h w' < lag h w" and "isTransitioning st \<longleftrightarrow> 0 < lag h w"
    and "wanted h w' = wanted h w" and "objs w' = objs w"
    and "lag h w = 0 \<Longrightarrow> st = \<lparr>powerState = (if wanted h w then PowerOn else PowerOff), isTransitioning = False\<rparr>"
proof (cases "lag h w = 0")
  case True
  then show thesis using still[OF assms] that by auto
next
  case False
  then show thesis using moving[OF assms] that by fastforce
qed

end

text \<open>What the run strategy of an instance asks for, and whether its power counted as synced.\<close>

abbreviation wants_on :: "bmi \<Rightarrow> bool" where
  "wants_on b \<equiv> runStrategy (ispec b) = RunStrategyAlways"

definition power_synced :: "('p, 'w) bmi_reconciler \<Rightarrow> bmi \<Rightarrow> bool" where
  "power_synced r b \<longleftrightarrow> (case bmi_GetStatusCondition (rLib r) HostConditionPowerSynced b of
     None \<Rightarrow> True | Some prev \<Rightarrow> cStatus prev = ConditionTrue)"

lemma power_synced_status: "status_of r HostConditionPowerSynced b = Some s \<Longrightarrow> power_synced r b \<longleftrightarrow> s = ConditionTrue"
  by (auto simp: power_synced_def status_of_def split: option.splits)

context settling_power
begin

text \<open>
  One pass over the power state: the host was at rest in the wanted state, or at rest in the other
  one and has been asked to change, or under way.
\<close>

definition power_pass :: "string \<Rightarrow> bool \<Rightarrow> bool \<Rightarrow> power_status \<Rightarrow> 'w \<Rightarrow> 'w \<Rightarrow> bool" where
  "power_pass h on again st w w' \<longleftrightarrow> objs w' = objs w \<and> answering h w' \<and>
     (lag h w = 0 \<and> wanted h w = on \<and> \<not> again \<and> st = \<lparr>powerState = (if on then PowerOn else PowerOff), isTransitioning = False\<rparr> \<and>
        lag h w' = 0 \<and> wanted h w' = on \<or>
      lag h w = 0 \<and> wanted h w \<noteq> on \<and> again \<and> lag h w' \<le> bound \<and> wanted h w' = on \<or>
      0 < lag h w \<and> again \<and> lag h w' < lag h w \<and> wanted h w' = wanted h w)"

lemma reconcile_power_pass:
  assumes client: "GetPowerState (ManagementClient r) = get" "SetPowerState (ManagementClient r) = set_power"
    and A: "answering h w" and b: "externalHostID (ispec b) = h" "runStrategy (ispec b) \<noteq> RunStrategyUnspecified"
  shows "\<exists>again st w'. power_pass h (wants_on b) again st w w' \<and>
    reconcile_power_state r prev b w = (case conclude_power r prev again st b of (res, b1) \<Rightarrow> (res, b1, w'))"
proof -
  obtain st1 w1 where g1: "get h w = (Inr (Some st1), w1)" and a1: "answering h w1"
    and l1: "lag h w1 \<le> lag h w" "0 < lag h w \<Longrightarrow> lag h w1 < lag h w"
    and t1: "isTransitioning st1 \<longleftrightarrow> 0 < lag h w" and n1: "wanted h w1 = wanted h w" "objs w1 = objs w"
    and s1: "lag h w = 0 \<Longrightarrow> st1 = \<lparr>powerState = (if wanted h w then PowerOn else PowerOff), isTransitioning = False\<rparr>"
    using that by (rule reads[OF A])
  have read1: "read_power r b w = (Inr st1, w1)" using g1 client b(1) by (simp add: read_power_Inr)
  have final: "\<exists>st2 w3. read_power r b w2 = (Inr st2, w3) \<and> answering h w3 \<and> lag h w3 \<le> lag h w2 \<and>
      wanted h w3 = wanted h w2 \<and> objs w3 = objs w2 \<and>
      (lag h w2 = 0 \<longrightarrow> st2 = \<lparr>powerState = (if wanted h w2 then PowerOn else PowerOff), isTransitioning = False\<rparr>)"
    if "answering h w2" for w2
    by (rule reads[OF that]) (use client b(1) in \<open>auto simp: read_power_Inr\<close>)
  show ?thesis
  proof (cases "0 < lag h w")
    case True
    have "reconcilePower r b st1 w1 = (Inr True, w1)" using t1 True by (simp add: reconcilePower_def)
    moreover obtain st2 w3 where "read_power r b w1 = (Inr st2, w3)" "answering h w3" "lag h w3 \<le> lag h w1"
      "wanted h w3 = wanted h w1" "objs w3 = objs w1" using final[OF a1] by blast
    ultimately show ?thesis using read1 b(2) True l1 n1
      by (intro exI[of _ True] exI[of _ st2] exI[of _ w3]) (simp add: reconcile_power_state_def power_pass_def)
  next
    case rest: False
    then have st1: "\<not> isTransitioning st1" "powerState st1 = PowerOn \<longleftrightarrow> wanted h w" using t1 s1 by simp_all
    show ?thesis
    proof (cases "wanted h w = wants_on b")
      case True
      then have "reconcilePower r b st1 w1 = (Inr False, w1)" using st1 by (simp add: reconcilePower_def Let_def)
      moreover obtain w3 where "read_power r b w1 =
          (Inr \<lparr>powerState = (if wanted h w1 then PowerOn else PowerOff), isTransitioning = False\<rparr>, w3)"
        "answering h w3" "lag h w3 \<le> lag h w1" "wanted h w3 = wanted h w1" "objs w3 = objs w1"
        using final[OF a1] rest l1 by fastforce
      ultimately show ?thesis using read1 b(2) True rest l1 n1
        by (intro exI[of _ False] exI[of _ "\<lparr>powerState = (if wanted h w1 then PowerOn else PowerOff), isTransitioning = False\<rparr>"]
            exI[of _ w3]) (simp add: reconcile_power_state_def power_pass_def)
    next
      case False
      let ?t = "if wants_on b then PowerOn else PowerOff"
      have "lag h w1 = 0" "known_state ?t" using rest l1 by (simp_all add: known_state_def)
      from accepted[OF a1 this] obtain w2 where w2: "set_power h ?t w1 = (None, w2)" "answering h w2"
        "lag h w2 \<le> bound" "wanted h w2 = (?t = PowerOn)" "objs w2 = objs w1" by blast
      have "reconcilePower r b st1 w1 = (Inr True, w2)"
        using st1 False w2(1) client(2) b(1) by (simp add: reconcilePower_def Let_def)
      moreover obtain st2 w3 where "read_power r b w2 = (Inr st2, w3)" "answering h w3" "lag h w3 \<le> lag h w2"
        "wanted h w3 = wanted h w2" "objs w3 = objs w2" using final[OF w2(2)] by blast
      ultimately show ?thesis using read1 b(2) False rest w2(3-5) n1
        by (intro exI[of _ True] exI[of _ st2] exI[of _ w3]) (simp add: reconcile_power_state_def power_pass_def)
    qed
  qed
qed

end

section \<open>One call\<close>

text \<open>
  An instance whose allocation, provisioning and restarts are done: what is left is its power.
\<close>

definition running :: "lib \<Rightarrow> object_key \<Rightarrow> string \<Rightarrow> bmi \<Rightarrow> bool" where
  "running L k h b \<longleftrightarrow> bmi_key b = k \<and> externalHostID (ispec b) = h \<and> hostClass (ispec b) \<noteq> '''' \<and>
     time_IsZero L (deletionTimestamp (imeta b)) \<and> \<not> uses_template b \<and>
     BareMetalInstanceManagementFinalizer \<in> set (finalizers (imeta b)) \<and>
     runStrategy (ispec b) \<noteq> RunStrategyUnspecified \<and> restartTrigger (ispec b) = statusRestartTrigger (istatus b)"

text \<open>
  The object store while nobody else writes the object: a read returns it, a status write stores the
  status. \<open>equality.Semantic.DeepEqual\<close> does not tell a nil slice from an empty one.
\<close>

definition same_status :: "bmi_status \<Rightarrow> bmi_status \<Rightarrow> bool" where
  "same_status s t \<longleftrightarrow> phase s = phase t \<and> entries (conditions s) = entries (conditions t) \<and>
     statusRunStrategy s = statusRunStrategy t \<and> statusRestartTrigger s = statusRestartTrigger t"

definition object_service ::
    "('p, 'w) bmi_reconciler \<Rightarrow> ('w \<Rightarrow> object_key \<Rightarrow> bmi option) \<Rightarrow> ('w \<Rightarrow> 'x) \<Rightarrow> object_key \<Rightarrow> bool" where
  "object_service r objs power_of k \<longleftrightarrow> lib_laws (rLib r) \<and> 0 < ManagementRecheckIntervalDuration r \<and>
     (\<forall>s t. rDeepEqual r s t \<longrightarrow> same_status s t) \<and>
     (\<forall>w b. objs w k = Some b \<longrightarrow> bmi_key b = k \<longrightarrow> rGet r k w = (Inr b, w)) \<and>
     (\<forall>b w b0. bmi_key b = k \<longrightarrow> objs w k = Some b0 \<longrightarrow> bmi_key b0 = k \<longrightarrow>
        (\<exists>b1 w'. rStatusUpdate r b w = (Inr b1, w') \<and> objs w' k = Some b1 \<and> same_object b0 b1 \<and>
           istatus b1 = istatus b \<and> power_of w' = power_of w))"

lemma object_serviceD:
  assumes "object_service r objs power_of k"
  shows "lib_laws (rLib r)" and "0 < ManagementRecheckIntervalDuration r"
    and "rDeepEqual r s t \<Longrightarrow> same_status s t"
    and "objs w k = Some b \<Longrightarrow> bmi_key b = k \<Longrightarrow> rGet r k w = (Inr b, w)"
    and "bmi_key b = k \<Longrightarrow> objs w k = Some b0 \<Longrightarrow> bmi_key b0 = k \<Longrightarrow>
      \<exists>b1 w'. rStatusUpdate r b w = (Inr b1, w') \<and> objs w' k = Some b1 \<and> same_object b0 b1 \<and>
        istatus b1 = istatus b \<and> power_of w' = power_of w"
proof -
  note S = assms[unfolded object_service_def]
  show "lib_laws (rLib r)" "0 < ManagementRecheckIntervalDuration r" using S by simp_all
  show "rDeepEqual r s t \<Longrightarrow> same_status s t" using S by metis
  show "objs w k = Some b \<Longrightarrow> bmi_key b = k \<Longrightarrow> rGet r k w = (Inr b, w)" using S by metis
  show "bmi_key b = k \<Longrightarrow> objs w k = Some b0 \<Longrightarrow> bmi_key b0 = k \<Longrightarrow>
      \<exists>b1 w'. rStatusUpdate r b w = (Inr b1, w') \<and> objs w' k = Some b1 \<and> same_object b0 b1 \<and>
        istatus b1 = istatus b \<and> power_of w' = power_of w" using S by metis
qed

lemma same_status_condition:
  assumes "lib_laws L" and "same_status (istatus b) (istatus b')"
  shows "bmi_GetStatusCondition L t b = bmi_GetStatusCondition L t b'"
  using assms by (auto simp: same_status_def bmi_GetStatusCondition_def split: option.split)

lemma management_of_running:
  assumes "lib_laws (rLib r)" and "running (rLib r) k h b"
  shows "handleUpdate r b p =
    (case reconcile_power_state r (power_synced r b) b (pworld p) of (res, b1, w1) \<Rightarrow> (res, b1, p\<lparr>pworld := w1\<rparr>))"
proof -
  note R = assms(2)[unfolded running_def]
  have add: "AddFinalizer (rLib r) (finalizers (imeta b)) BareMetalInstanceManagementFinalizer = (finalizers (imeta b), False)"
    using lib_AddFinalizer(2,3)[OF assms(1), where fs = "finalizers (imeta b)" and f = BareMetalInstanceManagementFinalizer] R
    by (simp add: prod_eq_iff)
  have same: "set_bmi_finalizers (finalizers (imeta b)) b = b" by (simp add: set_bmi_finalizers_def)
  have "reconcileManagement r b w = reconcile_power_state r (power_synced r b) b w" for w
    using R assms(1)
    by (simp add: reconcileManagement_def reconcile_restart_and_power_def reconcileRestartTrigger_def
        power_synced_def Let_def add same)
  then show ?thesis using R by (simp add: handleUpdate_def)
qed

text \<open>How a call on a running instance ends, given how its pass over the power state ended.\<close>

lemma reconcile_stores:
  assumes S: "object_service r objs power_of k" and "objs (pworld p) k = Some b" and R: "running (rLib r) k h b"
    and run: "reconcile_power_state r (power_synced r b) b (pworld p) = (res, y, w1)"
    and y: "ispec y = ispec b" "imeta y = imeta b" "statusRestartTrigger (istatus y) = statusRestartTrigger (istatus b)"
    and keep: "objs w1 = objs (pworld p)"
  shows "\<exists>p' b'. Reconcile r k p = (res, p') \<and> objs (pworld p') k = Some b' \<and> running (rLib r) k h b' \<and>
    ispec b' = ispec b \<and> same_status (istatus b') (istatus y) \<and> power_of (pworld p') = power_of w1"
proof -
  note D = object_serviceD[OF S]
  have key: "bmi_key b = k" "bmi_key y = k" using R y(2) by (simp_all add: running_def bmi_key_def)
  have get: "rGet r k (pworld p) = (Inr b, pworld p)" by (rule D(4)[OF assms(2) key(1)])
  have upd: "handleUpdate r b p = (res, y, p\<lparr>pworld := w1\<rparr>)" using management_of_running[OF D(1) R] run by simp
  have live: "time_IsZero (rLib r) (deletionTimestamp (imeta b))" using R by (simp add: running_def)
  show ?thesis
  proof (cases "rDeepEqual r (istatus y) (istatus b)")
    case True
    then have "Reconcile r k p = (res, p\<lparr>pworld := w1\<rparr>)" using get upd live by (simp add: Reconcile_def Let_def)
    moreover have "same_status (istatus b) (istatus y)" using D(3)[OF True] by (simp add: same_status_def)
    ultimately show ?thesis using assms(2) keep R by auto
  next
    case False
    obtain b1 w' where st: "rStatusUpdate r y w1 = (Inr b1, w')" "objs w' k = Some b1" "same_object b b1"
      "istatus b1 = istatus y" "power_of w' = power_of w1" using D(5)[OF key(2) _ key(1)] assms(2) keep by metis
    have "Reconcile r k p = (res, p\<lparr>pworld := w'\<rparr>)" using get upd live False st(1) by (simp add: Reconcile_def Let_def)
    moreover have "running (rLib r) k h b1" "ispec b1 = ispec b"
      using st(3,4) R y(3) by (simp_all add: running_def same_object_def bmi_key_def uses_template_def)
    ultimately show ?thesis using st by (auto simp: same_status_def)
  qed
qed

section \<open>The requeue loop\<close>

text \<open>
  The work queue: a call that reports an error or asks for a requeue is followed by another one, and
  any other call ends the work. \<open>None\<close> would be a loop that never ends.
\<close>

definition wants_requeue :: "outcome \<Rightarrow> bool" where
  "wants_requeue x \<longleftrightarrow> snd x \<noteq> None \<or> 0 < requeueAfter (fst x)"

partial_function (option) requeue_loop ::
    "('p, 'w) bmi_reconciler \<Rightarrow> object_key \<Rightarrow> 'w proc \<Rightarrow> (outcome \<times> 'w proc) option" where
  "requeue_loop r k p =
     (if wants_requeue (fst (Reconcile r k p)) then requeue_loop r k (snd (Reconcile r k p))
      else Some (Reconcile r k p))"

text \<open>Ready, and rightly so: the published state is the wanted one.\<close>

definition powered :: "('p, 'w) bmi_reconciler \<Rightarrow> bmi \<Rightarrow> bool" where
  "powered r b \<longleftrightarrow> phase (istatus b) = BareMetalInstancePhaseReady \<and>
     statusRunStrategy (istatus b) = runStrategy (ispec b) \<and>
     status_of r HostConditionPowerSynced b = Some ConditionTrue"

lemma conclude_frame:
  assumes "conclude_power r prev again st b = (res, y)"
  shows "ispec y = ispec b" and "imeta y = imeta b" and "statusRestartTrigger (istatus y) = statusRestartTrigger (istatus b)"
  using conclude_power_cases[OF assms] by (auto simp: Let_def)

context settling_power
begin

abbreviation power_of :: "string \<Rightarrow> 'w \<Rightarrow> bool \<times> bool \<times> nat" where
  "power_of h w \<equiv> (answering h w, wanted h w, lag h w)"

definition calls_left :: "('p, 'w) bmi_reconciler \<Rightarrow> string \<Rightarrow> bmi \<Rightarrow> 'w \<Rightarrow> nat" where
  "calls_left r h b w =
     (if wanted h w = wants_on b then 2 * lag h w + (if power_synced r b then 0 else 1)
      else 2 * lag h w + 2 * bound + 2)"

lemma concluded:
  assumes "lib_laws (rLib r)" and P: "power_pass h (wants_on b) again st w w'"
    and "runStrategy (ispec b) \<noteq> RunStrategyUnspecified"
    and C: "conclude_power r (power_synced r b) again st b = (res, y)"
    and y: "same_status (istatus b') (istatus y)" "ispec b' = ispec b"
  shows "res = ok_done \<and> powered r b' \<and> lag h w' = 0 \<and> wanted h w' = wants_on b \<or>
      res = (requeue_after (ManagementRecheckIntervalDuration r), None) \<and> calls_left r h b' w' < calls_left r h b w"
proof -
  let ?s = "syncBareMetalInstanceStatus r (Some st) None b"
  have y': "y = set_phase BareMetalInstancePhaseReady ?s \<or> y = set_phase BareMetalInstancePhaseProgressing ?s"
    using conclude_power_cases[OF C] by (auto simp: Let_def)
  have "bmi_GetStatusCondition (rLib r) HostConditionPowerSynced b' = bmi_GetStatusCondition (rLib r) HostConditionPowerSynced ?s"
    using same_status_condition[OF assms(1) y(1)] y' by auto
  then have cond: "status_of r HostConditionPowerSynced b' = status_of r HostConditionPowerSynced ?s"
    by (simp add: status_of_def)
  show "res = ok_done \<and> powered r b' \<and> lag h w' = 0 \<and> wanted h w' = wants_on b \<or>
      res = (requeue_after (ManagementRecheckIntervalDuration r), None) \<and> calls_left r h b' w' < calls_left r h b w"
  proof (cases "again")
    case True
    then have "res = (requeue_after (ManagementRecheckIntervalDuration r), None)"
      using conclude_power_cases[OF C] assms(3) by (auto simp: Let_def)
    moreover have "calls_left r h b' w' < calls_left r h b w"
      using P True y(2) unfolding power_pass_def calls_left_def by auto
    ultimately show ?thesis by simp
  next
    case False
    then have st: "st = \<lparr>powerState = (if wants_on b then PowerOn else PowerOff), isTransitioning = False\<rparr>"
      and w: "lag h w = 0" "wanted h w = wants_on b" "lag h w' = 0" "wanted h w' = wants_on b"
      using P by (auto simp: power_pass_def)
    have rs: "statusRunStrategy (istatus ?s) = runStrategy (ispec b)"
      using sync_statusRunStrategy[of r st b] st assms(3) by (cases "runStrategy (ispec b)") auto
    have synced: "status_of r HostConditionPowerSynced b' = Some ConditionTrue"
      unfolding cond sync_power_synced[OF assms(1)] using st assms(3) by (cases "runStrategy (ispec b)") auto
    show ?thesis
    proof (cases "power_synced r b")
      case True
      then have "res = ok_done" "y = set_phase BareMetalInstancePhaseReady ?s"
        using C False st assms(3) by (auto simp: conclude_power_def Let_def split: if_splits)
      then show ?thesis using w synced rs y by (auto simp: powered_def same_status_def)
    next
      case prev: False
      then have "res = (requeue_after (ManagementRecheckIntervalDuration r), None)"
        using C False st assms(3) by (auto simp: conclude_power_def Let_def split: if_splits)
      moreover have "calls_left r h b' w' < calls_left r h b w"
        using w prev y(2) power_synced_status[OF synced] by (simp add: calls_left_def)
      ultimately show ?thesis by simp
    qed
  qed
qed

lemma reconcile_running:
  assumes S: "object_service r objs (power_of h) k"
    and client: "GetPowerState (ManagementClient r) = get" "SetPowerState (ManagementClient r) = set_power"
    and b: "objs (pworld p) k = Some b" and R: "running (rLib r) k h b" and A: "answering h (pworld p)"
  shows "\<exists>x p' b'. Reconcile r k p = (x, p') \<and> objs (pworld p') k = Some b' \<and> running (rLib r) k h b' \<and>
    ispec b' = ispec b \<and> answering h (pworld p') \<and>
    (x = ok_done \<and> powered r b' \<and> lag h (pworld p') = 0 \<and> wanted h (pworld p') = wants_on b \<or>
     x = (requeue_after (ManagementRecheckIntervalDuration r), None) \<and>
       calls_left r h b' (pworld p') < calls_left r h b (pworld p))"
proof -
  note D = object_serviceD[OF S]
  have rs: "externalHostID (ispec b) = h" "runStrategy (ispec b) \<noteq> RunStrategyUnspecified"
    using R by (simp_all add: running_def)
  obtain again st w1 where P: "power_pass h (wants_on b) again st (pworld p) w1"
    and run: "reconcile_power_state r (power_synced r b) b (pworld p) =
      (case conclude_power r (power_synced r b) again st b of (res, b1) \<Rightarrow> (res, b1, w1))"
    using reconcile_power_pass[OF client A rs] by blast
  obtain res y where C: "conclude_power r (power_synced r b) again st b = (res, y)" by fastforce
  have keep: "objs w1 = objs (pworld p)" and A1: "answering h w1" using P by (simp_all add: power_pass_def)
  note fin = concluded[OF D(1) P rs(2) C] and y = conclude_frame[OF C]
  obtain p' b' where r: "Reconcile r k p = (res, p')" "objs (pworld p') k = Some b'" "running (rLib r) k h b'"
    "ispec b' = ispec b" "same_status (istatus b') (istatus y)" "power_of h (pworld p') = power_of h w1"
    using reconcile_stores[OF S b R _ y keep, of res] run C by auto
  have same: "lag h (pworld p') = lag h w1" "wanted h (pworld p') = wanted h w1" "answering h (pworld p')"
    using r(6) A1 by simp_all
  then have "calls_left r h b' (pworld p') = calls_left r h b' w1" by (simp add: calls_left_def)
  then show ?thesis using fin[OF r(5,4)] r(1-4) same
    by (intro exI[of _ res] exI[of _ p'] exI[of _ b']) simp
qed

lemma requeue_loop_ends:
  assumes S: "object_service r objs (power_of h) k"
    and client: "GetPowerState (ManagementClient r) = get" "SetPowerState (ManagementClient r) = set_power"
    and "objs (pworld p) k = Some b" and "running (rLib r) k h b" and "answering h (pworld p)"
  shows "\<exists>p' b'. requeue_loop r k p = Some (ok_done, p') \<and> objs (pworld p') k = Some b' \<and> ispec b' = ispec b \<and>
    powered r b' \<and> lag h (pworld p') = 0 \<and> wanted h (pworld p') = wants_on b \<and> answering h (pworld p')"
  using assms(4-6)
proof (induction "calls_left r h b (pworld p)" arbitrary: p b rule: less_induct)
  case less
  obtain x p' b' where step: "Reconcile r k p = (x, p')" "objs (pworld p') k = Some b'" "running (rLib r) k h b'"
    "ispec b' = ispec b" "answering h (pworld p')"
    and fin: "x = ok_done \<and> powered r b' \<and> lag h (pworld p') = 0 \<and> wanted h (pworld p') = wants_on b \<or>
     x = (requeue_after (ManagementRecheckIntervalDuration r), None) \<and>
       calls_left r h b' (pworld p') < calls_left r h b (pworld p)"
    using reconcile_running[OF S client less.prems] by blast
  from fin show ?case
  proof (elim disjE conjE)
    assume "x = ok_done" "powered r b'" "lag h (pworld p') = 0" "wanted h (pworld p') = wants_on b"
    then show ?thesis using step by (simp add: requeue_loop.simps[of r k p] wants_requeue_def)
  next
    assume x: "x = (requeue_after (ManagementRecheckIntervalDuration r), None)"
      and "calls_left r h b' (pworld p') < calls_left r h b (pworld p)"
    then have "\<exists>p'' b''. requeue_loop r k p' = Some (ok_done, p'') \<and> objs (pworld p'') k = Some b'' \<and>
        ispec b'' = ispec b' \<and> powered r b'' \<and> lag h (pworld p'') = 0 \<and> wanted h (pworld p'') = wants_on b' \<and>
        answering h (pworld p'')"
      using less.hyps step by blast
    moreover have "requeue_loop r k p = requeue_loop r k p'"
      using step(1) x object_serviceD(2)[OF S] by (simp add: requeue_loop.simps[of r k p] wants_requeue_def)
    ultimately show ?thesis using step(4) by auto
  qed
qed

end

section \<open>Metal3 hosts\<close>

text \<open>
  The bare metal operator brings the observed power of a host to the wanted one after at most \<open>lag\<close>
  more reads of it, and after at most \<open>bound\<close> reads once the wanted power is changed; the Kubernetes API
  answers. It is its job, and none of the code's.
\<close>

definition bmo_follows ::
    "'w metal3_management \<Rightarrow> ('w \<Rightarrow> object_key \<Rightarrow> bmi option) \<Rightarrow> 'w bmh_store \<Rightarrow> (object_key \<Rightarrow> 'w \<Rightarrow> nat) \<Rightarrow> nat \<Rightarrow> bool" where
  "bmo_follows m objs store lag bound \<longleftrightarrow>
     (\<forall>w k b. store w k = Some b \<longrightarrow> bmh_key b = k \<and> (lag k w = 0) = (bmhOnline b = bmhPoweredOn b) \<and>
        (\<exists>w' b'. bmh_Get (mmclient m) k w = (Inr b, w') \<and> store w' k = Some b' \<and> bmhOnline b' = bmhOnline b \<and>
           objs w' = objs w \<and> (lag k w' < lag k w \<or> lag k w = 0 \<and> lag k w' = 0))) \<and>
     (\<forall>w b b0 on. store w (bmh_key b) = Some b0 \<longrightarrow>
        (\<exists>b' w'. bmh_Patch (mmclient m) b (PatchOnline on) w = (Inr b', w') \<and>
           patches_store store b (PatchOnline on) w b' w' \<and> objs w' = objs w \<and> lag (bmh_key b) w' \<le> bound))"

lemma bmo_followsD:
  assumes "bmo_follows m objs store lag bound"
  shows "store w k = Some b \<Longrightarrow> bmh_key b = k" and "store w k = Some b \<Longrightarrow> lag k w = 0 \<longleftrightarrow> bmhOnline b = bmhPoweredOn b"
    and "store w k = Some b \<Longrightarrow> \<exists>w' b'. bmh_Get (mmclient m) k w = (Inr b, w') \<and> store w' k = Some b' \<and>
      bmhOnline b' = bmhOnline b \<and> objs w' = objs w \<and> (lag k w' < lag k w \<or> lag k w = 0 \<and> lag k w' = 0)"
    and "store w (bmh_key b) = Some b0 \<Longrightarrow> \<exists>b' w'. bmh_Patch (mmclient m) b (PatchOnline on) w = (Inr b', w') \<and>
      patches_store store b (PatchOnline on) w b' w' \<and> objs w' = objs w \<and> lag (bmh_key b) w' \<le> bound"
proof -
  note F = assms[unfolded bmo_follows_def]
  show "store w k = Some b \<Longrightarrow> bmh_key b = k" using F by metis
  show "store w k = Some b \<Longrightarrow> lag k w = 0 \<longleftrightarrow> bmhOnline b = bmhPoweredOn b" using F by metis
  show "store w k = Some b \<Longrightarrow> \<exists>w' b'. bmh_Get (mmclient m) k w = (Inr b, w') \<and> store w' k = Some b' \<and>
      bmhOnline b' = bmhOnline b \<and> objs w' = objs w \<and> (lag k w' < lag k w \<or> lag k w = 0 \<and> lag k w' = 0)"
    using F by metis
  show "store w (bmh_key b) = Some b0 \<Longrightarrow> \<exists>b' w'. bmh_Patch (mmclient m) b (PatchOnline on) w = (Inr b', w') \<and>
      patches_store store b (PatchOnline on) w b' w' \<and> objs w' = objs w \<and> lag (bmh_key b) w' \<le> bound"
    using F by metis
qed

text \<open>The host behind an ID, and what is wanted of it.\<close>

definition host_of :: "'w bmh_store \<Rightarrow> 'w \<Rightarrow> string \<Rightarrow> bmh option" where
  "host_of store w h = (case ParseHostID h of Inl e \<Rightarrow> None | Inr hk \<Rightarrow> store w hk)"

definition metal3_answering ::
    "'w metal3_management \<Rightarrow> ('w \<Rightarrow> object_key \<Rightarrow> bmi option) \<Rightarrow> 'w bmh_store \<Rightarrow> (object_key \<Rightarrow> 'w \<Rightarrow> nat) \<Rightarrow> nat \<Rightarrow>
     string \<Rightarrow> 'w \<Rightarrow> bool" where
  "metal3_answering m objs store lag bound h w \<longleftrightarrow> bmo_follows m objs store lag bound \<and>
     (\<exists>b. host_of store w h = Some b \<and> ParseHostID h = Inr (mmnamespace m, bmhName b))"

definition metal3_wanted :: "'w bmh_store \<Rightarrow> string \<Rightarrow> 'w \<Rightarrow> bool" where
  "metal3_wanted store h w = (case host_of store w h of None \<Rightarrow> False | Some b \<Rightarrow> bmhOnline b)"

definition metal3_lag :: "(object_key \<Rightarrow> 'w \<Rightarrow> nat) \<Rightarrow> string \<Rightarrow> 'w \<Rightarrow> nat" where
  "metal3_lag lag h w = (case ParseHostID h of Inl e \<Rightarrow> 0 | Inr hk \<Rightarrow> lag hk w)"

lemma metal3_answers:
  assumes "metal3_answering m objs store lag bound h w"
  obtains hk b w' b' where "ParseHostID h = Inr hk" and "store w hk = Some b" and "bmh_key b = hk"
    and "getBMH m h w = (Inr b, w')" and "store w' hk = Some b'" and "bmhOnline b' = bmhOnline b"
    and "objs w' = objs w" and "lag hk w' < lag hk w \<or> lag hk w = 0 \<and> lag hk w' = 0"
    and "lag hk w = 0 \<longleftrightarrow> bmhOnline b = bmhPoweredOn b" and "metal3_answering m objs store lag bound h w'"
proof -
  from assms obtain b where F: "bmo_follows m objs store lag bound" and b: "host_of store w h = Some b"
    and h: "ParseHostID h = Inr (mmnamespace m, bmhName b)" by (auto simp: metal3_answering_def)
  note D = bmo_followsD[OF F]
  have st: "store w (mmnamespace m, bmhName b) = Some b" using b h by (simp add: host_of_def)
  obtain w' b' where g: "bmh_Get (mmclient m) (mmnamespace m, bmhName b) w = (Inr b, w')"
    "store w' (mmnamespace m, bmhName b) = Some b'" "bmhOnline b' = bmhOnline b" "objs w' = objs w"
    "lag (mmnamespace m, bmhName b) w' < lag (mmnamespace m, bmhName b) w \<or>
      lag (mmnamespace m, bmhName b) w = 0 \<and> lag (mmnamespace m, bmhName b) w' = 0"
    using D(3)[OF st] by blast
  have "getBMH m h w = (Inr b, w')" using g(1) h by (simp add: getBMH_def)
  moreover have "bmhName b' = bmhName b" using D(1)[OF g(2)] by (simp add: bmh_key_def)
  then have "metal3_answering m objs store lag bound h w'" using F g(2) h by (simp add: metal3_answering_def host_of_def)
  ultimately show thesis using that[OF h st D(1)[OF st] _ g(2-5) D(2)[OF st]] by blast
qed

lemma metal3_status_read:
  assumes "metal3_answering m objs store lag bound h w"
  shows "\<exists>st w'. metal3_GetPowerState m h w = (Inr (Some st), w') \<and>
    (isTransitioning st \<longleftrightarrow> 0 < metal3_lag lag h w) \<and>
    (metal3_lag lag h w = 0 \<longrightarrow>
       st = \<lparr>powerState = (if metal3_wanted store h w then PowerOn else PowerOff), isTransitioning = False\<rparr>) \<and>
    (metal3_lag lag h w' < metal3_lag lag h w \<or> metal3_lag lag h w = 0 \<and> metal3_lag lag h w' = 0) \<and>
    metal3_wanted store h w' = metal3_wanted store h w \<and> metal3_answering m objs store lag bound h w' \<and> objs w' = objs w"
proof -
  obtain hk b w' b' where h: "ParseHostID h = Inr hk" and st: "store w hk = Some b" "store w' hk = Some b'"
    and get: "getBMH m h w = (Inr b, w')" and w': "bmhOnline b' = bmhOnline b" "objs w' = objs w"
      "lag hk w' < lag hk w \<or> lag hk w = 0 \<and> lag hk w' = 0" "lag hk w = 0 \<longleftrightarrow> bmhOnline b = bmhPoweredOn b"
      "metal3_answering m objs store lag bound h w'"
    by (rule metal3_answers[OF assms])
  let ?st = "\<lparr>powerState = (if bmhPoweredOn b then PowerOn else PowerOff), isTransitioning = (bmhOnline b \<noteq> bmhPoweredOn b)\<rparr>"
  have "metal3_GetPowerState m h w = (Inr (Some ?st), w')" using get by (simp add: metal3_GetPowerState_def Let_def)
  then show ?thesis using h st w'
    by (intro exI[of _ ?st] exI[of _ w']) (auto simp: metal3_wanted_def metal3_lag_def host_of_def)
qed

interpretation metal3_settles: settling_power "metal3_GetPowerState m" "metal3_SetPowerState m" objs
  "metal3_answering m objs store lag bound" "metal3_wanted store" "metal3_lag lag" bound
  for m objs store lag bound
proof unfold_locales
  fix h w
  assume A: "metal3_answering m objs store lag bound h w"
  note R = metal3_status_read[OF A]
  show "\<exists>w'. metal3_GetPowerState m h w =
      (Inr (Some \<lparr>powerState = (if metal3_wanted store h w then PowerOn else PowerOff), isTransitioning = False\<rparr>), w') \<and>
      metal3_answering m objs store lag bound h w' \<and> metal3_lag lag h w' = 0 \<and>
      metal3_wanted store h w' = metal3_wanted store h w \<and> objs w' = objs w" if "metal3_lag lag h w = 0"
    using R that by auto
  show "\<exists>st w'. metal3_GetPowerState m h w = (Inr (Some st), w') \<and> isTransitioning st \<and>
      metal3_answering m objs store lag bound h w' \<and> metal3_lag lag h w' < metal3_lag lag h w \<and>
      metal3_wanted store h w' = metal3_wanted store h w \<and> objs w' = objs w" if "0 < metal3_lag lag h w"
    using R that by auto
next
  fix h w t
  assume A: "metal3_answering m objs store lag bound h w" and z: "metal3_lag lag h w = 0" and t: "known_state t"
  obtain hk b w1 b1 where h: "ParseHostID h = Inr hk" and b: "store w hk = Some b" "bmh_key b = hk"
    and get: "getBMH m h w = (Inr b, w1)" "store w1 hk = Some b1" "bmhOnline b1 = bmhOnline b" "objs w1 = objs w"
    and l: "lag hk w1 < lag hk w \<or> lag hk w = 0 \<and> lag hk w1 = 0" "lag hk w = 0 \<longleftrightarrow> bmhOnline b = bmhPoweredOn b"
    and A1: "metal3_answering m objs store lag bound h w1"
    by (rule metal3_answers[OF A])
  have still: "lag hk w1 = 0" "bmhOnline b = bmhPoweredOn b" using l z h by (simp_all add: metal3_lag_def)
  show "\<exists>w'. metal3_SetPowerState m h t w = (None, w') \<and> metal3_answering m objs store lag bound h w' \<and>
      metal3_lag lag h w' \<le> bound \<and> metal3_wanted store h w' = (t = PowerOn) \<and> objs w' = objs w"
  proof (cases "bmhOnline b = (t = PowerOn)")
    case True
    then have "metal3_SetPowerState m h t w = (None, w1)"
      using get(1) still t by (auto simp: metal3_SetPowerState_def known_state_def)
    then show ?thesis using A1 get(2-4) h True still
      by (intro exI[of _ w1]) (simp add: metal3_wanted_def metal3_lag_def host_of_def)
  next
    case False
    have F: "bmo_follows m objs store lag bound" using A by (simp add: metal3_answering_def)
    obtain b2 w2 where up: "bmh_Patch (mmclient m) b (PatchOnline (t = PowerOn)) w1 = (Inr b2, w2)"
      "patches_store store b (PatchOnline (t = PowerOn)) w1 b2 w2" "objs w2 = objs w1" "lag hk w2 \<le> bound"
      using bmo_followsD(4)[OF F, of w1 b b1 "t = PowerOn"] get(2) b(2) by blast
    have run: "metal3_SetPowerState m h t w = (None, w2)"
      using get(1) still t False up(1) by (auto simp: metal3_SetPowerState_def known_state_def)
    have w2: "store w2 hk = Some b2" "bmhOnline b2 = (t = PowerOn)" using up(2) b(2) by (auto simp: patches_store_def patched_def)
    then have "bmhName b2 = bmhName b" using bmo_followsD(1)[OF F w2(1)] b(2) by (auto simp: bmh_key_def)
    then have "metal3_answering m objs store lag bound h w2"
      using A h b(1) w2(1) by (auto simp: metal3_answering_def host_of_def)
    then show ?thesis using run up(3,4) get(4) w2 h
      by (intro exI[of _ w2]) (simp add: metal3_wanted_def metal3_lag_def host_of_def)
  qed
qed

section \<open>Property\<close>

lemma object_service_coarser:
  assumes "object_service r objs f k" and "\<And>w w'. f w = f w' \<Longrightarrow> g w = g w'"
  shows "object_service r objs g k"
proof -
  note D = object_serviceD[OF assms(1)]
  show ?thesis unfolding object_service_def
  proof (intro conjI allI impI)
    fix b w b0
    assume "bmi_key b = k" "objs w k = Some b0" "bmi_key b0 = k"
    from D(5)[OF this] obtain b1 w' where "rStatusUpdate r b w = (Inr b1, w')" "objs w' k = Some b1" "same_object b0 b1"
      "istatus b1 = istatus b" "f w' = f w" by blast
    then show "\<exists>b1 w'. rStatusUpdate r b w = (Inr b1, w') \<and> objs w' k = Some b1 \<and> same_object b0 b1 \<and>
        istatus b1 = istatus b \<and> g w' = g w" using assms(2) by blast
  qed (use D(1-4) in blast)+
qed

text \<open>C11: The requeue loop of a running Metal3 instance terminates. Called again as long as it asks for it,
  \<open>Reconcile\<close> ends after finitely many calls: it reports no error, the stored instance is Ready with
  \<open>PowerSynced\<close> true and the wanted run strategy published, and the host is wanted on and is on exactly
  if the run strategy is Always. This needs a bare metal operator that brings the observed power of a
  host to the wanted one after finitely many reads, and nobody else writing the instance.\<close>

theorem power_requeue_loop_terminates:
  assumes "bmo_follows m objs store lag bound" and "ManagementClient r = metal3_management_client m"
    and "object_service r objs (\<lambda>w. (store w, \<lambda>hk. lag hk w)) k"
    and "objs (pworld p) k = Some b" and "running (rLib r) k h b"
    and "ParseHostID h = Inr (mmnamespace m, name)" and "store (pworld p) (mmnamespace m, name) = Some x"
  shows "\<exists>p' b' x'. requeue_loop r k p = Some (ok_done, p') \<and> objs (pworld p') k = Some b' \<and> ispec b' = ispec b \<and>
    powered r b' \<and> store (pworld p') (mmnamespace m, name) = Some x' \<and>
    bmhOnline x' = wants_on b \<and> bmhPoweredOn x' = wants_on b"
proof -
  have client: "GetPowerState (ManagementClient r) = metal3_GetPowerState m"
    "SetPowerState (ManagementClient r) = metal3_SetPowerState m"
    using assms(2) by (simp_all add: metal3_management_client_def)
  have "bmhName x = name" using bmo_followsD(1)[OF assms(1,7)] by (simp add: bmh_key_def)
  then have A: "metal3_answering m objs store lag bound h (pworld p)"
    using assms(1,6,7) by (simp add: metal3_answering_def host_of_def)
  have S: "object_service r objs (\<lambda>w. (metal3_answering m objs store lag bound h w, metal3_wanted store h w, metal3_lag lag h w)) k"
    by (rule object_service_coarser[OF assms(3)])
      (simp add: metal3_answering_def metal3_wanted_def metal3_lag_def host_of_def fun_eq_iff split: sum.split)
  obtain p' b' where fin: "requeue_loop r k p = Some (ok_done, p')" "objs (pworld p') k = Some b'" "ispec b' = ispec b"
    "powered r b'" "metal3_lag lag h (pworld p') = 0" "metal3_wanted store h (pworld p') = wants_on b"
    "metal3_answering m objs store lag bound h (pworld p')"
    using metal3_settles.requeue_loop_ends[OF S client assms(4,5) A] by blast
  then obtain x' where x': "store (pworld p') (mmnamespace m, name) = Some x'"
    using assms(6) by (auto simp: metal3_answering_def host_of_def)
  have "bmhOnline x' = wants_on b" using fin(6) x' assms(6) by (simp add: metal3_wanted_def host_of_def)
  moreover have "bmhOnline x' = bmhPoweredOn x'"
    using bmo_followsD(2)[OF assms(1) x'] fin(5) assms(6) by (simp add: metal3_lag_def)
  ultimately show ?thesis using fin x' by auto
qed

text \<open>A bare metal operator that follows after one read.\<close>

definition demo_follow :: "object_key \<Rightarrow> demo_world \<Rightarrow> (go_error + bmh) \<times> demo_world" where
  "demo_follow k w = (case ref_store (dHosts w) k of
     None \<Rightarrow> (Inl (ForeignError ''not found''), w)
   | Some b \<Rightarrow> (Inr b, w\<lparr>dHosts := ref_replace (b\<lparr>bmhPoweredOn := bmhOnline b\<rparr>) (dHosts w)\<rparr>))"

definition demo_bmo :: "demo_world metal3_management" where
  "demo_bmo = \<lparr>mmclient = demo_hosts_api\<lparr>bmh_Get := demo_follow\<rparr>, mmnamespace = ''metal''\<rparr>"

definition demo_lag :: "object_key \<Rightarrow> demo_world \<Rightarrow> nat" where
  "demo_lag k w = (case ref_store (dHosts w) k of
     None \<Rightarrow> 0 | Some b \<Rightarrow> if bmhOnline b = bmhPoweredOn b then 0 else 1)"

lemma demo_bmo_follows: "bmo_follows demo_bmo dObjs demo_hosts_store demo_lag 1"
proof -
  have "bmh_key b = k \<and> (demo_lag k w = 0) = (bmhOnline b = bmhPoweredOn b) \<and>
      (\<exists>w' b'. bmh_Get (mmclient demo_bmo) k w = (Inr b, w') \<and> demo_hosts_store w' k = Some b' \<and> bmhOnline b' = bmhOnline b \<and>
         dObjs w' = dObjs w \<and> (demo_lag k w' < demo_lag k w \<or> demo_lag k w = 0 \<and> demo_lag k w' = 0))"
    if "demo_hosts_store w k = Some b" for w k b
  proof -
    let ?b = "b\<lparr>bmhPoweredOn := bmhOnline b\<rparr>"
    have st: "ref_store (dHosts w) k = Some b" and k: "bmh_key b = k" "bmh_key ?b = k"
      using that ref_store_SomeD by (auto simp: demo_hosts_store_def bmh_key_def)
    have "ref_store (ref_replace ?b (dHosts w)) = (ref_store (dHosts w))(k \<mapsto> ?b)"
      using ref_store_replace[of "dHosts w" ?b b] st k by simp
    then show ?thesis using st k
      by (auto simp: demo_bmo_def demo_follow_def demo_lag_def demo_hosts_store_def)
  qed
  moreover have "\<exists>b' w'. bmh_Patch (mmclient demo_bmo) b (PatchOnline on) w = (Inr b', w') \<and>
      patches_store demo_hosts_store b (PatchOnline on) w b' w' \<and> dObjs w' = dObjs w \<and> demo_lag (bmh_key b) w' \<le> 1"
    if "demo_hosts_store w (bmh_key b) = Some b0" for w b b0 on
  proof -
    let ?b = "ref_patched b (PatchOnline on) b0" let ?w = "w\<lparr>dHosts := ref_replace ?b (dHosts w)\<rparr>"
    have st: "ref_store (dHosts w) (bmh_key b) = Some b0" using that by (simp add: demo_hosts_store_def)
    have "bmh_Patch (mmclient demo_bmo) b (PatchOnline on) w = (Inr ?b, ?w)"
      using st by (simp add: demo_bmo_def demo_hosts_api_def bmh_api_at_def at_part_def ref_bmh_api_def)
    moreover have "patches_store demo_hosts_store b (PatchOnline on) w ?b ?w"
      using ref_patch_laws[OF st, of "PatchOnline on"] by (simp add: patches_store_def demo_hosts_store_def)
    moreover have "demo_lag (bmh_key b) ?w \<le> 1" by (simp add: demo_lag_def split: option.split)
    ultimately show ?thesis by (intro exI[of _ ?b] exI[of _ ?w]) simp
  qed
  ultimately show ?thesis unfolding bmo_follows_def by blast
qed

definition demo_running :: bmi where
  "demo_running = (demo_selected ''metal/b'')\<lparr>
     imeta := (imeta (demo_selected ''metal/b''))\<lparr>finalizers := [BareMetalInstanceInventoryFinalizer, BareMetalInstanceManagementFinalizer]\<rparr>,
     ispec := (ispec (demo_selected ''metal/b''))\<lparr>hostClass := ''metal3'', runStrategy := RunStrategyAlways\<rparr>\<rparr>"

definition demo_powering :: "(unit, demo_world) bmi_reconciler" where
  "demo_powering = demo_operator\<lparr>ManagementClient := metal3_management_client demo_bmo\<rparr>"

lemma demo_object_service:
  "object_service demo_powering dObjs (\<lambda>w. (demo_hosts_store w, \<lambda>hk. demo_lag hk w)) k"
  by (auto simp: object_service_def demo_powering_def demo_operator_def ref_lib_laws same_status_def demo_get_def
      demo_put_status_def same_object_def demo_hosts_store_def demo_lag_def Let_def bmi_key_def)

theorem power_requeue_loop_terminates_witness:
  "\<exists>p' b' x'. requeue_loop demo_powering (''ns'', ''bmi'') \<lparr>plocks = no_locks, pworld = demo_cluster demo_running\<rparr>
       = Some (ok_done, p') \<and> dObjs (pworld p') (''ns'', ''bmi'') = Some b' \<and> powered demo_powering b' \<and>
     demo_hosts_store (pworld p') (''metal'', ''b'') = Some x' \<and> bmhPoweredOn x'"
proof -
  let ?p = "\<lparr>plocks = no_locks, pworld = demo_cluster demo_running\<rparr>"
  have "running (rLib demo_powering) (''ns'', ''bmi'') ''metal/b'' demo_running"
    by (simp add: running_def demo_running_def demo_powering_def demo_selected_def demo_bmi_def bmi_key_def
        uses_template_def ref_lib_def)
  moreover have "demo_hosts_store (pworld ?p) (''metal'', ''b'') = Some (demo_bmh ''b'' None)"
    by (simp add: demo_hosts_store_def demo_store_b)
  moreover have "dObjs (pworld ?p) (''ns'', ''bmi'') = Some demo_running" "wants_on demo_running" by (simp_all add: demo_running_def)
  moreover have "ManagementClient demo_powering = metal3_management_client demo_bmo" by (simp add: demo_powering_def)
  moreover have "ParseHostID ''metal/b'' = Inr (mmnamespace demo_bmo, ''b'')" by (simp add: demo_bmo_def ParseHostID_demo)
  moreover have "mmnamespace demo_bmo = ''metal''" by (simp add: demo_bmo_def)
  ultimately show ?thesis
    using power_requeue_loop_terminates[OF demo_bmo_follows _ demo_object_service, where p = ?p and b = demo_running
        and k = "(''ns'', ''bmi'')" and h = "''metal/b''" and name = "''b''" and x = "demo_bmh ''b'' None"] by auto
qed

end
