(* ===== verification/Profiles.thy ===== *)
theory Profiles
  imports Prelude
begin

text \<open>
  \<open>internal/profile/profile.go\<close>: the registry of profiles that \<open>LoadProfiles\<close> fills at startup and
  \<open>Get\<close> reads, and the check of a pool's template parameters against a profile. The validators of
  label keys and values and the YAML parser are parameters. A profile list decoded from YAML may
  hold a nil pointer, on which \<open>LoadProfiles\<close> panics.
\<close>

section \<open>Profiles and the registry\<close>

record profile =
  prName :: string
  prHostSelector :: "gomap option"
  ExpectedTemplateParameters :: "string list"
  OptionalTemplateParameters :: "string list"
  BareMetalPoolTemplate :: string
  HostTemplate :: string
  prLabels :: "gomap option"
  prPersistentLabels :: "gomap option"

type_synonym registry = "(string \<times> profile) list"

record validators =
  IsQualifiedName :: "string \<Rightarrow> string list"
  IsValidLabelValue :: "string \<Rightarrow> string list"

datatype load_result = Loaded | LoadFailed go_error | LoadPanics

fun strings_Join :: "string list \<Rightarrow> string \<Rightarrow> string" where
  "strings_Join [] sep = ''''"
| "strings_Join [s] sep = s"
| "strings_Join (s # ss) sep = s @ sep @ strings_Join ss sep"

definition go_list :: "string list \<Rightarrow> string" where
  "go_list errs = ''['' @ strings_Join errs '' '' @ '']''"

text \<open>The order of the association list is the order the loop visits the map in.\<close>

fun check_labels :: "validators \<Rightarrow> string \<Rightarrow> string \<Rightarrow> gomap \<Rightarrow> go_error option" where
  "check_labels V kind name [] = None"
| "check_labels V kind name ((key, val) # rest) =
     (if IsQualifiedName V key \<noteq> [] then
        Some (ErrorText (''invalid '' @ kind @ '' key '' @ [CHR 0x27] @ key @ [CHR 0x27] @ '' in profile '' @ [CHR 0x27] @ name
          @ [CHR 0x27] @ '': '' @ go_list (IsQualifiedName V key)))
      else if IsValidLabelValue V val \<noteq> [] then
        Some (ErrorText (''invalid '' @ kind @ '' value '' @ [CHR 0x27] @ val @ [CHR 0x27] @ '' for key '' @ [CHR 0x27] @ key
          @ [CHR 0x27] @ '' in profile '' @ [CHR 0x27] @ name @ [CHR 0x27] @ '': '' @ go_list (IsValidLabelValue V val)))
      else check_labels V kind name rest)"

fun LoadProfiles :: "validators \<Rightarrow> profile option list \<Rightarrow> registry \<Rightarrow> load_result \<times> registry" where
  "LoadProfiles V [] reg = (Loaded, reg)"
| "LoadProfiles V (None # ps) reg = (LoadPanics, reg)"
| "LoadProfiles V (Some p # ps) reg =
     (if prName p = '''' then (LoadFailed (ErrorText ''profile missing required 'name' field''), reg)
      else if map_of reg (prName p) \<noteq> None then
        (LoadFailed (ErrorText (''duplicate profile name: '' @ prName p)), reg)
      else case check_labels V ''label'' (prName p) (entries (prLabels p)) of
        Some err \<Rightarrow> (LoadFailed err, reg)
      | None \<Rightarrow>
          (case check_labels V ''persistent label'' (prName p) (entries (prPersistentLabels p)) of
             Some err \<Rightarrow> (LoadFailed err, reg)
           | None \<Rightarrow> LoadProfiles V ps (AList.update (prName p) p reg)))"

definition Get :: "registry \<Rightarrow> string \<Rightarrow> profile option" where
  "Get reg name = map_of reg name"

section \<open>Template parameters\<close>

fun add_keys :: "(string \<times> unit) list \<Rightarrow> string list \<Rightarrow> (string \<times> unit) list" where
  "add_keys m [] = m"
| "add_keys m (key # keys) = add_keys (AList.update key () m) keys"

definition ValidateParameters ::
    "(string \<Rightarrow> go_error + (string \<times> json) list) \<Rightarrow> profile \<Rightarrow> string \<Rightarrow> bool" where
  "ValidateParameters yaml_Unmarshal p params_text =
     (if params_text = '''' then length (ExpectedTemplateParameters p) = 0
      else case yaml_Unmarshal params_text of
        Inl _ \<Rightarrow> False
      | Inr params \<Rightarrow>
          (let allowedKeys = add_keys (add_keys [] (ExpectedTemplateParameters p)) (OptionalTemplateParameters p)
           in list_all (\<lambda>expectedKey. map_of params expectedKey \<noteq> None) (ExpectedTemplateParameters p) \<and>
              list_all (\<lambda>(key, _). map_of allowedKeys key \<noteq> None) params))"

section \<open>Lemmas\<close>

definition labels_valid :: "validators \<Rightarrow> gomap \<Rightarrow> bool" where
  "labels_valid V m \<longleftrightarrow> (\<forall>(k, v) \<in> set m. IsQualifiedName V k = [] \<and> IsValidLabelValue V v = [])"

definition profile_valid :: "validators \<Rightarrow> profile \<Rightarrow> bool" where
  "profile_valid V p \<longleftrightarrow> prName p \<noteq> '''' \<and> labels_valid V (entries (prLabels p)) \<and>
     labels_valid V (entries (prPersistentLabels p))"

definition registry_valid :: "validators \<Rightarrow> registry \<Rightarrow> bool" where
  "registry_valid V reg \<longleftrightarrow> (\<forall>n p. map_of reg n = Some p \<longrightarrow> n = prName p \<and> profile_valid V p)"

lemma check_labels_None: "check_labels V kind name m = None \<longleftrightarrow> labels_valid V m"
  by (induction V kind name m rule: check_labels.induct) (auto simp: labels_valid_def)

lemma profile_valid_checks:
  "profile_valid V p \<longleftrightarrow> prName p \<noteq> '''' \<and>
     check_labels V ''label'' (prName p) (entries (prLabels p)) = None \<and>
     check_labels V ''persistent label'' (prName p) (entries (prPersistentLabels p)) = None"
  by (simp add: profile_valid_def check_labels_None)

lemma keys_add_keys: "fst ` set (add_keys m ks) = fst ` set m \<union> set ks"
  by (induction m ks rule: add_keys.induct) (auto simp: dom_update)

lemma load_step:
  "profile_valid V p \<Longrightarrow> map_of reg (prName p) = None \<Longrightarrow>
     LoadProfiles V (Some p # ps) reg = LoadProfiles V ps (AList.update (prName p) p reg)"
  by (simp add: profile_valid_checks)

lemma load_stops:
  "\<not> profile_valid V p \<or> map_of reg (prName p) \<noteq> None \<Longrightarrow>
     \<exists>e. LoadProfiles V (Some p # ps) reg = (LoadFailed e, reg)"
  by (auto simp: profile_valid_checks split: option.split)

lemma registry_valid_update:
  "registry_valid V reg \<Longrightarrow> profile_valid V p \<Longrightarrow> registry_valid V (AList.update (prName p) p reg)"
  by (auto simp: registry_valid_def update_conv')

lemma load_keeps_valid: "registry_valid V reg \<Longrightarrow> registry_valid V (snd (LoadProfiles V ps reg))"
proof (induction ps arbitrary: reg)
  case (Cons q ps)
  show ?case
  proof (cases q)
    case (Some p)
    show ?thesis
    proof (cases "profile_valid V p \<and> map_of reg (prName p) = None")
      case True
      then show ?thesis
        using Some Cons.IH[OF registry_valid_update[OF Cons.prems]] load_step[of V p reg ps] by simp
    next
      case False
      then show ?thesis using load_stops[of V p reg ps] Some Cons.prems by auto
    qed
  qed (simp add: Cons.prems)
qed simp

lemma load_keeps_old: "map_of reg n = Some p \<Longrightarrow> map_of (snd (LoadProfiles V ps reg)) n = Some p"
proof (induction ps arbitrary: reg)
  case (Cons q ps)
  show ?case
  proof (cases q)
    case (Some p')
    show ?thesis
    proof (cases "profile_valid V p' \<and> map_of reg (prName p') = None")
      case True
      then have "map_of (AList.update (prName p') p' reg) n = Some p"
        using Cons.prems by (auto simp: update_conv')
      then show ?thesis using Some True Cons.IH load_step[of V p' reg ps] by metis
    next
      case False
      then show ?thesis using load_stops[of V p' reg ps] Some Cons.prems by auto
    qed
  qed (simp add: Cons.prems)
qed simp

lemma load_success:
  "fst (LoadProfiles V ps reg) = Loaded \<longleftrightarrow>
     (\<exists>qs. ps = map Some qs \<and> (\<forall>p \<in> set qs. profile_valid V p \<and> map_of reg (prName p) = None) \<and>
        distinct (map prName qs))"
proof (induction ps arbitrary: reg)
  case (Cons q ps)
  show ?case
  proof (cases q)
    case (Some p)
    show ?thesis
    proof (cases "profile_valid V p \<and> map_of reg (prName p) = None")
      case True
      let ?reg = "AList.update (prName p) p reg"
      have "fst (LoadProfiles V (q # ps) reg) = fst (LoadProfiles V ps ?reg)"
        using True Some load_step[of V p reg ps] by simp
      also have "\<dots> = Loaded \<longleftrightarrow> (\<exists>qs. ps = map Some qs \<and>
          (\<forall>x \<in> set qs. profile_valid V x \<and> map_of ?reg (prName x) = None) \<and> distinct (map prName qs))"
        by (rule Cons.IH)
      also have "\<dots> \<longleftrightarrow> (\<exists>qs. q # ps = map Some qs \<and>
          (\<forall>x \<in> set qs. profile_valid V x \<and> map_of reg (prName x) = None) \<and> distinct (map prName qs))"
      proof -
        have ext: "(\<forall>x \<in> set qs. profile_valid V x \<and> map_of ?reg (prName x) = None) \<and> distinct (map prName qs) \<longleftrightarrow>
            (\<forall>x \<in> set (p # qs). profile_valid V x \<and> map_of reg (prName x) = None) \<and>
            distinct (map prName (p # qs))" for qs
          using True by (auto simp: update_conv' split: if_splits) (metis image_eqI)
        have split: "q # ps = map Some qs \<longleftrightarrow> (\<exists>rs. qs = p # rs \<and> ps = map Some rs)" for qs
          using Some by (auto simp: Cons_eq_map_conv)
        show ?thesis unfolding ext split by blast
      qed
      finally show ?thesis .
    next
      case False
      then have "fst (LoadProfiles V (q # ps) reg) \<noteq> Loaded"
        using load_stops[of V p reg ps] Some by auto
      then show ?thesis using False Some by (auto simp: Cons_eq_map_conv)
    qed
  qed auto
qed simp

section \<open>Properties\<close>

text \<open>C32: Loading profiles keeps the registry sound whatever the outcome, a failure or a panic in the middle
  included: every profile is stored under its own non-empty name with valid labels only, and no
  entry that was there is replaced. It succeeds exactly when the list holds no nil entry, every
  profile is valid and no name occurs twice or was registered before; then every profile of the
  list can be looked up.\<close>

theorem load_profiles_sound:
  assumes "registry_valid V reg" and "LoadProfiles V ps reg = (res, reg')"
  shows "registry_valid V reg' \<and> (\<forall>n p. Get reg n = Some p \<longrightarrow> Get reg' n = Some p) \<and>
    (res = Loaded \<longleftrightarrow> (\<exists>qs. ps = map Some qs \<and>
       (\<forall>p \<in> set qs. profile_valid V p \<and> Get reg (prName p) = None) \<and> distinct (map prName qs))) \<and>
    (res = Loaded \<longrightarrow> (\<forall>p. Some p \<in> set ps \<longrightarrow> Get reg' (prName p) = Some p))"
proof -
  have "map_of (snd (LoadProfiles V ps reg)) (prName p) = Some p"
    if "fst (LoadProfiles V ps reg) = Loaded" "Some p \<in> set ps" for p
    using that
  proof (induction ps arbitrary: reg)
    case (Cons q ps)
    show ?case
    proof (cases q)
      case (Some p')
      have ok: "profile_valid V p' \<and> map_of reg (prName p') = None"
        using Cons.prems(1) load_stops[of V p' reg ps] Some by fastforce
      let ?reg = "AList.update (prName p') p' reg"
      have step: "LoadProfiles V (q # ps) reg = LoadProfiles V ps ?reg"
        using ok Some load_step[of V p' reg ps] by simp
      show ?thesis
      proof (cases "p = p'")
        case True
        have "map_of ?reg (prName p) = Some p" by (simp add: True update_conv')
        then show ?thesis unfolding step by (rule load_keeps_old)
      next
        case False
        then show ?thesis using Cons Some step by auto
      qed
    qed (use Cons.prems in simp)
  qed simp
  moreover have "registry_valid V reg'" using load_keeps_valid[OF assms(1), of ps] assms(2) by simp
  moreover have "Get reg n = Some p \<Longrightarrow> Get reg' n = Some p" for n p
    using load_keeps_old[of reg n p V ps] assms(2) by (simp add: Get_def)
  moreover have "res = Loaded \<longleftrightarrow> (\<exists>qs. ps = map Some qs \<and>
       (\<forall>p \<in> set qs. profile_valid V p \<and> Get reg (prName p) = None) \<and> distinct (map prName qs))"
    using load_success[of V ps reg] assms(2) by (simp add: Get_def)
  ultimately show ?thesis using assms(2) by (simp add: Get_def)
qed

definition demo_validators :: validators where
  "demo_validators = \<lparr>IsQualifiedName = (\<lambda>s. if s = '''' then [''name part must be non-empty''] else []),
     IsValidLabelValue = (\<lambda>s. [])\<rparr>"

definition demo_profile :: "string \<Rightarrow> profile" where
  "demo_profile n = \<lparr>prName = n, prHostSelector = Some [(''gpu'', ''h100'')], ExpectedTemplateParameters = [''image''],
     OptionalTemplateParameters = [''user''], BareMetalPoolTemplate = ''setup'', HostTemplate = ''install'',
     prLabels = Some [(''team'', ''ml'')], prPersistentLabels = None\<rparr>"

theorem load_profiles_sound_witness:
  "\<exists>reg. LoadProfiles demo_validators [Some (demo_profile ''a''), Some (demo_profile ''b'')] [] = (Loaded, reg) \<and>
     Get reg ''b'' = Some (demo_profile ''b'')"
proof -
  obtain res reg where run: "LoadProfiles demo_validators [Some (demo_profile ''a''), Some (demo_profile ''b'')] []
      = (res, reg)" by fastforce
  then have "res = Loaded" by (simp add: demo_validators_def demo_profile_def split: if_splits)
  moreover have "registry_valid demo_validators []" by (simp add: registry_valid_def)
  ultimately have "Get reg (prName (demo_profile ''b'')) = Some (demo_profile ''b'')"
    using load_profiles_sound[OF _ run] by auto
  then show ?thesis using run \<open>res = Loaded\<close> by (simp add: demo_profile_def)
qed

text \<open>C33: Template parameters are accepted exactly when they are empty and the profile expects none, or when
  they parse, every expected parameter is present and every parameter present is expected or
  optional.\<close>

theorem validate_parameters_iff:
  "ValidateParameters parse p t \<longleftrightarrow>
     (t = '''' \<and> set (ExpectedTemplateParameters p) = {}) \<or>
     (t \<noteq> '''' \<and> (\<exists>params. parse t = Inr params \<and>
        set (ExpectedTemplateParameters p) \<subseteq> fst ` set params \<and>
        fst ` set params \<subseteq> set (ExpectedTemplateParameters p) \<union> set (OptionalTemplateParameters p)))"
proof -
  show ?thesis
    by (cases "parse t")
      (auto simp: ValidateParameters_def Let_def list_all_iff keys_add_keys map_of_eq_None_iff simp del: not_None_eq)
qed

end
