(* ===== verification/Pool_Controller.thy ===== *)
theory Pool_Controller
  imports Shared Provisioning Profiles "HOL-Library.List_Lexorder" "HOL-Library.Char_ord"
begin

text \<open>
  The BareMetalPool controller, \<open>internal/controller/baremetalpool_controller.go\<close>, function by function.
  The in-memory pool is passed along and returned updated, and \<open>'w\<close> is the outside world. Replica
  counts are 32-bit words as in the code. The grouped instances are a map from host types to lists
  of pointers; the code appends nil pointers for instances it has just created. The order in which
  a range visits a map, the random name suffix, the Kubernetes client, the profile registry and the
  provisioning library are fields of the reconciler. An index out of range or a nil dereference is
  the result \<open>StepPanics\<close> or \<open>Panics\<close>.
\<close>

section \<open>The reconciler\<close>

record ('p, 'w) pool_reconciler =
  pLib :: lib
  pGet :: "string \<times> string \<Rightarrow> 'w \<Rightarrow> (go_error + pool) \<times> 'w"
  pUpdate :: "pool \<Rightarrow> 'w \<Rightarrow> (go_error + pool) \<times> 'w"
  pStatusUpdate :: "pool \<Rightarrow> 'w \<Rightarrow> (go_error + pool) \<times> 'w"
  pDeepEqual :: "pool_status \<Rightarrow> pool_status \<Rightarrow> bool"
  pList :: "string \<Rightarrow> gomap \<Rightarrow> 'w \<Rightarrow> (go_error + bmi list) \<times> 'w"
  pCreate :: "bmi \<Rightarrow> 'w \<Rightarrow> go_error option \<times> 'w"
  pDelete :: "bmi \<Rightarrow> 'w \<Rightarrow> go_error option \<times> 'w"
  SetControllerReference :: "pool \<Rightarrow> bmi \<Rightarrow> go_error + bmi"
  rand_String :: "nat \<Rightarrow> 'w \<Rightarrow> string \<times> 'w"
  rangeOrder :: "'w \<Rightarrow> (string \<times> int32) list \<Rightarrow> (string \<times> int32) list"
  registeredProfiles :: registry
  yaml_Unmarshal :: "string \<Rightarrow> go_error + (string \<times> json) list"
  provider :: "'p option"
  HostReadyPollIntervalDuration :: duration
  HostDeletionPollIntervalDuration :: duration
  ProvisionJobPollIntervalDuration :: duration
  MaxJobHistory :: int
  pool_ComputeDesiredConfigVersion :: "pool_spec \<Rightarrow> go_error + string"
  pool_RunProvisioningLifecycle ::
    "'p option \<Rightarrow> (pool \<times> 'w) lifecycle_hooks \<Rightarrow> pool \<times> 'w \<Rightarrow> outcome \<times> (pool \<times> 'w)"
  pool_RunDeprovisioningLifecycle ::
    "'p option \<Rightarrow> (pool \<times> 'w) job_hooks \<Rightarrow> pool \<times> 'w
      \<Rightarrow> (ctrl_result \<times> bool \<times> go_error option) \<times> (pool \<times> 'w)"
  pool_CheckAPIServerForNonTerminalProvisionJob :: "string \<times> string \<Rightarrow> 'w \<Rightarrow> bool \<times> 'w"

definition NewBareMetalPoolReconciler ::
    "duration \<Rightarrow> int \<Rightarrow> ('p, 'w) pool_reconciler \<Rightarrow> ('p, 'w) pool_reconciler" where
  "NewBareMetalPoolReconciler defaultStatusPoll defaultMaxJobHistory r = r\<lparr>
     HostReadyPollIntervalDuration :=
       interval_or DefaultHostReadyPollIntervalDuration (HostReadyPollIntervalDuration r),
     HostDeletionPollIntervalDuration :=
       interval_or DefaultHostDeletionPollIntervalDuration (HostDeletionPollIntervalDuration r),
     ProvisionJobPollIntervalDuration := interval_or defaultStatusPoll (ProvisionJobPollIntervalDuration r),
     MaxJobHistory := (if MaxJobHistory r \<le> 0 then defaultMaxJobHistory else MaxJobHistory r)\<rparr>"

datatype step = StepOk | StepFailed go_error | StepPanics

datatype pool_outcome = Returns outcome | Panics

definition step_of :: "go_error option \<Rightarrow> step" where
  "step_of err = (case err of None \<Rightarrow> StepOk | Some e \<Rightarrow> StepFailed e)"

text \<open>The two assignments every failure branch makes.\<close>

definition pool_failed :: "('p, 'w) pool_reconciler \<Rightarrow> string \<Rightarrow> pool \<Rightarrow> pool" where
  "pool_failed r message p =
     set_pool_condition (pLib r) BareMetalPoolConditionTypeReady ConditionFalse message
       BareMetalPoolReasonFailed (set_pool_phase BareMetalPoolPhaseFailed p)"

definition set_pool_finalizers :: "string list \<Rightarrow> pool \<Rightarrow> pool" where
  "set_pool_finalizers fs p = p\<lparr>pmeta := (pmeta p)\<lparr>finalizers := fs\<rparr>\<rparr>"

definition set_poolJobs :: "job_status list option \<Rightarrow> pool \<Rightarrow> pool" where
  "set_poolJobs js p = p\<lparr>pstatus := (pstatus p)\<lparr>poolJobs := js\<rparr>\<rparr>"

definition set_statusHostSets :: "host_set list option \<Rightarrow> pool \<Rightarrow> pool" where
  "set_statusHostSets hs p = p\<lparr>pstatus := (pstatus p)\<lparr>statusHostSets := hs\<rparr>\<rparr>"

definition set_template_annotation :: "string \<Rightarrow> pool \<Rightarrow> pool" where
  "set_template_annotation template p = p\<lparr>pmeta := (pmeta p)\<lparr>objAnnotations :=
     Some (AList.update BareMetalPoolTemplateIDAnnotationKey template (entries (objAnnotations (pmeta p))))\<rparr>\<rparr>"

section \<open>Validation, finalizer, instances\<close>

definition validateProfile :: "('p, 'w) pool_reconciler \<Rightarrow> pool \<Rightarrow> (profile option \<times> bool) \<times> pool" where
  "validateProfile r p =
     (case poolProfile (pspec p) of
        None \<Rightarrow> ((None, True), p)
      | Some ps \<Rightarrow>
          (case Get (registeredProfiles r) (profileName ps) of
             None \<Rightarrow> ((None, False), pool_failed r ''Profile does not exist'' p)
           | Some currentProfile \<Rightarrow>
               if \<not> ValidateParameters (yaml_Unmarshal r) currentProfile (profileTemplateParameters ps)
               then ((None, False),
                 pool_failed r ''TemplateParameters do not match the profile's expected parameters'' p)
               else ((Some currentProfile, True), p)))"

definition ensureFinalizer ::
    "('p, 'w) pool_reconciler \<Rightarrow> pool \<Rightarrow> 'w \<Rightarrow> go_error option \<times> pool \<times> 'w" where
  "ensureFinalizer r p w =
     (let (fs, added) = AddFinalizer (pLib r) (finalizers (pmeta p)) BareMetalPoolFinalizer;
          p = set_pool_finalizers fs p
      in if \<not> added then (None, p, w)
         else (case pUpdate r p w of
                 (Inl err, w1) \<Rightarrow> (Some err, pool_failed r ''Failed to add finalizer'' p, w1)
               | (Inr p', w1) \<Rightarrow> (None, p', w1)))"

type_synonym instances = "(string \<times> bmi option list) list"

definition of_type :: "instances \<Rightarrow> string \<Rightarrow> bmi option list" where
  "of_type m t = (case map_of m t of None \<Rightarrow> [] | Some xs \<Rightarrow> xs)"

definition pool_label :: "pool \<Rightarrow> gomap" where
  "pool_label p = [(BareMetalPoolLabelKey, objUID (pmeta p))]"

fun group_instances :: "lib \<Rightarrow> bmi list \<Rightarrow> instances \<Rightarrow> instances" where
  "group_instances L [] m = m"
| "group_instances L (b # bs) m =
     (if \<not> time_IsZero L (deletionTimestamp (imeta b)) then group_instances L bs m
      else group_instances L bs
        (AList.update (hostType (ispec b)) (of_type m (hostType (ispec b)) @ [Some b]) m))"

definition listAndGroupBareMetalInstances ::
    "('p, 'w) pool_reconciler \<Rightarrow> pool \<Rightarrow> 'w \<Rightarrow> (go_error + instances) \<times> pool \<times> 'w" where
  "listAndGroupBareMetalInstances r p w =
     (case pList r (objNamespace (pmeta p)) (pool_label p) w of
        (Inl err, w1) \<Rightarrow> (Inl err, pool_failed r ''Failed to list BareMetalInstance CRs'' p, w1)
      | (Inr items, w1) \<Rightarrow> (Inr (group_instances (pLib r) items []), p, w1))"

definition updateStatusHostSets :: "pool \<Rightarrow> instances \<Rightarrow> pool" where
  "updateStatusHostSets p m =
     set_statusHostSets (Some (sort_key hsHostType
       (map (\<lambda>(t, xs). \<lparr>hsHostType = t, hsReplicas = of_nat (length xs)\<rparr>)
         (filter (\<lambda>(t, xs). length xs > 0) m)))) p"

section \<open>Creating an instance\<close>

text \<open>The object the code builds, before the owner reference.\<close>

definition new_instance :: "pool \<Rightarrow> string \<Rightarrow> string \<Rightarrow> string \<Rightarrow> gomap option \<Rightarrow> gomap option \<Rightarrow> gomap option \<Rightarrow>
    string \<Rightarrow> bmi" where
  "new_instance p rnd ht tmpl selector labels persistent params = \<lparr>
     imeta = \<lparr>objName = objName (pmeta p) @ ''-host-'' @ rnd, objNamespace = objNamespace (pmeta p),
       objUID = '''', generation = 0,
       objLabels = Some [(BareMetalPoolLabelKey, objUID (pmeta p)), (HostTypeLabelKey, ht)],
       objAnnotations = None, finalizers = [], ownerReferences = [], deletionTimestamp = None, resourceVersion = ''''\<rparr>,
     ispec = \<lparr>hostType = ht, externalHostID = '''', externalHostName = '''', hostClass = '''', networkClass = '''',
       hostSelector = selector, inventoryLabels = labels, inventoryPersistentLabels = persistent,
       templateID = tmpl, templateParameters = params, runStrategy = RunStrategyUnspecified, restartTrigger = 0\<rparr>,
     istatus = \<lparr>phase = BareMetalInstancePhaseUnset, provisioningJobs = None, conditions = None,
       desiredConfigVersion = '''', statusRunStrategy = RunStrategyUnspecified, statusRestartTrigger = 0\<rparr>\<rparr>"

text \<open>Its contents; \<open>None\<close> is the nil dereference of a pool without a profile spec.\<close>

definition build_instance :: "pool \<Rightarrow> string \<Rightarrow> profile option \<Rightarrow> string \<Rightarrow> bmi option" where
  "build_instance p ht currentProfile rnd =
     (case currentProfile of
        None \<Rightarrow> Some (new_instance p rnd ht OsacNoopTemplate
          (Some [(''managedBy'', OsacDefaultManagedByValue), (''provisionState'', OsacDefaultProvisionStateValue)])
          None None '''')
      | Some pr \<Rightarrow>
          (case poolProfile (pspec p) of
             None \<Rightarrow> None
           | Some ps \<Rightarrow> Some (new_instance p rnd ht
               (if HostTemplate pr \<noteq> '''' then HostTemplate pr else OsacNoopTemplate)
               (prHostSelector pr)
               (if length (entries (prLabels pr)) > 0 then prLabels pr else None)
               (if length (entries (prPersistentLabels pr)) > 0 then prPersistentLabels pr else None)
               (profileTemplateParameters ps))))"

definition createBareMetalInstanceCR ::
    "('p, 'w) pool_reconciler \<Rightarrow> pool \<Rightarrow> string \<Rightarrow> profile option \<Rightarrow> 'w \<Rightarrow> step \<times> 'w" where
  "createBareMetalInstanceCR r p ht currentProfile w =
     (let (rnd, w1) = rand_String r 5 w
      in case build_instance p ht currentProfile rnd of
           None \<Rightarrow> (StepPanics, w1)
         | Some cr \<Rightarrow>
             (case SetControllerReference r p cr of
                Inl err \<Rightarrow> (StepFailed err, w1)
              | Inr cr' \<Rightarrow>
                  (case pCreate r cr' w1 of
                     (err, w2) \<Rightarrow>
                       if IgnoreAlreadyExists (pLib r) err \<noteq> None then (step_of err, w2) else (StepOk, w2))))"

section \<open>Replicas\<close>

fun desired_of_spec :: "(string \<times> int32) list \<Rightarrow> host_set list \<Rightarrow> (string \<times> int32) list" where
  "desired_of_spec m [] = m"
| "desired_of_spec m (hs # rest) = desired_of_spec (AList.update (hsHostType hs) (hsReplicas hs) m) rest"

fun add_undesired :: "(string \<times> int32) list \<Rightarrow> string list \<Rightarrow> (string \<times> int32) list" where
  "add_undesired m [] = m"
| "add_undesired m (t # ts) = add_undesired (if map_of m t = None then AList.update t 0 m else m) ts"

definition desiredReplicas :: "pool \<Rightarrow> instances \<Rightarrow> (string \<times> int32) list" where
  "desiredReplicas p m = add_undesired (desired_of_spec [] (hostSets (pspec p))) (map fst m)"

abbreviation int32_len :: "'a list \<Rightarrow> int32" where
  "int32_len xs \<equiv> of_nat (length xs)"

fun scaleUp_loop ::
    "('p, 'w) pool_reconciler \<Rightarrow> string \<Rightarrow> profile option \<Rightarrow> nat \<Rightarrow> pool \<Rightarrow> instances \<Rightarrow> 'w
      \<Rightarrow> step \<times> pool \<times> instances \<times> 'w" where
  "scaleUp_loop r ht currentProfile 0 p m w = (StepOk, p, m, w)"
| "scaleUp_loop r ht currentProfile (Suc n) p m w =
     (case createBareMetalInstanceCR r p ht currentProfile w of
        (StepOk, w1) \<Rightarrow>
          scaleUp_loop r ht currentProfile n p (AList.update ht (of_type m ht @ [None]) m) w1
      | (StepFailed err, w1) \<Rightarrow>
          (StepFailed err, pool_failed r ''Failed to create BareMetalInstance CR'' p, m, w1)
      | (StepPanics, w1) \<Rightarrow> (StepPanics, p, m, w1))"

definition scaleUpBareMetalInstances ::
    "('p, 'w) pool_reconciler \<Rightarrow> pool \<Rightarrow> string \<Rightarrow> int32 \<Rightarrow> instances \<Rightarrow> profile option \<Rightarrow> 'w
      \<Rightarrow> step \<times> pool \<times> instances \<times> 'w" where
  "scaleUpBareMetalInstances r p ht delta m currentProfile w =
     scaleUp_loop r ht currentProfile (nat (sint delta)) p m w"

lemma of_type_update [simp]: "of_type (AList.update t xs m) u = (if u = t then xs else of_type m u)"
  by (simp add: of_type_def update_conv')

lemma of_type_delete [simp]: "of_type (AList.delete t m) u = (if u = t then [] else of_type m u)"
  by (simp add: of_type_def delete_conv')

function scaleDownBareMetalInstances ::
    "('p, 'w) pool_reconciler \<Rightarrow> pool \<Rightarrow> string \<Rightarrow> int32 \<Rightarrow> instances \<Rightarrow> 'w
      \<Rightarrow> step \<times> pool \<times> instances \<times> 'w" where
  "scaleDownBareMetalInstances r p ht replicas m w =
     (if \<not> sint replicas < sint (int32_len (of_type m ht)) then (StepOk, p, m, w)
      else if of_type m ht = [] then (StepPanics, p, m, w)
      else case last (of_type m ht) of
        None \<Rightarrow> (StepPanics, p, m, w)
      | Some bareMetalInstance \<Rightarrow>
          (case pDelete r bareMetalInstance w of
             (err, w1) \<Rightarrow>
               if IgnoreNotFound (pLib r) err \<noteq> None then
                 (step_of err, pool_failed r ''Failed to delete BareMetalInstance CR'' p, m, w1)
               else
                 (let m1 = AList.update ht (butlast (of_type m ht)) m
                  in if length (of_type m1 ht) = 0 then (StepOk, p, AList.delete ht m1, w1)
                     else scaleDownBareMetalInstances r p ht replicas m1 w1)))"
  by pat_completeness auto

termination
  by (relation "measure (\<lambda>(r, p, ht, replicas, m, w). length (of_type m ht))") auto

declare scaleDownBareMetalInstances.simps [simp del]

fun replica_loop ::
    "('p, 'w) pool_reconciler \<Rightarrow> profile option \<Rightarrow> (string \<times> int32) list \<Rightarrow> pool \<Rightarrow> instances \<Rightarrow> 'w
      \<Rightarrow> step \<times> pool \<times> instances \<times> 'w" where
  "replica_loop r currentProfile [] p m w = (StepOk, p, m, w)"
| "replica_loop r currentProfile ((ht, replicas) # rest) p m w =
     (let delta = replicas - int32_len (of_type m ht);
          (st, p1, m1, w1) =
            (if 0 < sint delta then scaleUpBareMetalInstances r p ht delta m currentProfile w
             else if sint delta < 0 then scaleDownBareMetalInstances r p ht replicas m w
             else (StepOk, p, m, w))
      in if st = StepOk then replica_loop r currentProfile rest p1 m1 w1 else (st, p1, m1, w1))"

definition reconcileBareMetalInstances ::
    "('p, 'w) pool_reconciler \<Rightarrow> pool \<Rightarrow> instances \<Rightarrow> profile option \<Rightarrow> 'w \<Rightarrow> step \<times> pool \<times> 'w" where
  "reconcileBareMetalInstances r p m currentProfile w =
     (case replica_loop r currentProfile (rangeOrder r w (desiredReplicas p m)) p m w of
        (st, p1, m1, w1) \<Rightarrow> (st, updateStatusHostSets p1 m1, w1))"

section \<open>Readiness\<close>

fun first_unready :: "lib \<Rightarrow> bmi list \<Rightarrow> bool" where
  "first_unready L [] = False"
| "first_unready L (b # bs) =
     (if \<not> time_IsZero L (deletionTimestamp (imeta b)) then first_unready L bs
      else if phase (istatus b) \<noteq> BareMetalInstancePhaseReady then True
      else first_unready L bs)"

definition checkBareMetalInstancesReady ::
    "('p, 'w) pool_reconciler \<Rightarrow> pool \<Rightarrow> 'w \<Rightarrow> (go_error + bool) \<times> pool \<times> 'w" where
  "checkBareMetalInstancesReady r p w =
     (case pList r (objNamespace (pmeta p)) (pool_label p) w of
        (Inl err, w1) \<Rightarrow> (Inl err, pool_failed r ''Failed to list BareMetalInstance CRs'' p, w1)
      | (Inr items, w1) \<Rightarrow>
          if first_unready (pLib r) items then
            (Inr False,
             set_pool_condition (pLib r) BareMetalPoolConditionTypeReady ConditionFalse
               ''Not all BareMetalInstances have finished their provisioning templates''
               BareMetalPoolReasonProgressing (set_pool_phase BareMetalPoolPhaseProgressing p), w1)
          else (Inr True, p, w1))"

section \<open>Provisioning\<close>

definition pool_key :: "pool \<Rightarrow> string \<times> string" where
  "pool_key p = (objNamespace (pmeta p), objName (pmeta p))"

definition pool_job_hooks :: "('p, 'w) pool_reconciler \<Rightarrow> (pool \<times> 'w) job_hooks" where
  "pool_job_hooks r = \<lparr>
     jobsOf = (\<lambda>(p, w). poolJobs (pstatus p)),
     setJobs = (\<lambda>js (p, w). (set_poolJobs js p, w)),
     hookMaxJobHistory = MaxJobHistory r,
     hookPollInterval = ProvisionJobPollIntervalDuration r\<rparr>"

definition pool_provisioning_hooks ::
    "('p, 'w) pool_reconciler \<Rightarrow> pool \<Rightarrow> (pool \<times> 'w) lifecycle_hooks" where
  "pool_provisioning_hooks r p = \<lparr>
     jobsOf = jobsOf (pool_job_hooks r),
     setJobs = setJobs (pool_job_hooks r),
     hookMaxJobHistory = MaxJobHistory r,
     hookPollInterval = ProvisionJobPollIntervalDuration r,
     hookConfigVersion = poolDesiredConfigVersion (pstatus p),
     OnFailed = (\<lambda>message (p, w). (pool_failed r message p, w)),
     OnSuccess = (\<lambda>s. s),
     checkJobs = (\<lambda>(p, w). case pool_CheckAPIServerForNonTerminalProvisionJob r (pool_key p) w of
       (found, w1) \<Rightarrow> (found, (p, w1))),
     saveStatus = (\<lambda>(p, w). case pStatusUpdate r p w of
       (Inl err, w1) \<Rightarrow> (Some err, (p, w1)) | (Inr p', w1) \<Rightarrow> (None, (p', w1)))\<rparr>"

definition pool_reconcileProvisioning ::
    "('p, 'w) pool_reconciler \<Rightarrow> pool \<Rightarrow> string \<Rightarrow> 'w \<Rightarrow> outcome \<times> pool \<times> 'w" where
  "pool_reconcileProvisioning r p template w =
     (let p = (if poolJobs (pstatus p) = None then set_poolJobs (Some []) p else p);
          p = set_template_annotation template p
      in case pool_RunProvisioningLifecycle r (provider r) (pool_provisioning_hooks r p) (p, w) of
           (res, (p1, w1)) \<Rightarrow> (res, p1, w1))"

definition pool_reconcileDeprovisioning ::
    "('p, 'w) pool_reconciler \<Rightarrow> pool \<Rightarrow> string \<Rightarrow> 'w \<Rightarrow> (ctrl_result \<times> bool \<times> go_error option) \<times> pool \<times> 'w" where
  "pool_reconcileDeprovisioning r p template w =
     (let p = set_template_annotation template p
      in case pool_RunDeprovisioningLifecycle r (provider r) (pool_job_hooks r) (p, w) of
           ((result, finished, err), (p1, w1)) \<Rightarrow>
             (let finished = (if \<not> finished \<and> result_IsZero (pLib r) result \<and> err = None then True else finished)
              in ((result, finished, err), p1, w1)))"

definition runs_pool_template :: "profile option \<Rightarrow> bool" where
  "runs_pool_template currentProfile \<longleftrightarrow>
     (case currentProfile of None \<Rightarrow> False
      | Some pr \<Rightarrow> BareMetalPoolTemplate pr \<noteq> '''' \<and> BareMetalPoolTemplate pr \<noteq> OsacNoopTemplate)"

section \<open>Update\<close>

definition conclude_ready ::
    "('p, 'w) pool_reconciler \<Rightarrow> pool \<Rightarrow> 'w \<Rightarrow> outcome \<times> pool \<times> 'w" where
  "conclude_ready r p w =
     (case checkBareMetalInstancesReady r p w of
        (Inl err, p1, w1) \<Rightarrow> (failed_with err, p1, w1)
      | (Inr ready, p1, w1) \<Rightarrow>
          if \<not> ready then ((requeue_after (HostReadyPollIntervalDuration r), None), p1, w1)
          else (ok_done,
            set_pool_condition (pLib r) BareMetalPoolConditionTypeReady ConditionTrue
              ''Successfully reconciled host leases'' BareMetalPoolReasonReady
              (set_pool_phase BareMetalPoolPhaseReady p1), w1))"

text \<open>From the finalizer on, with a validated profile.\<close>

definition reconcile_pool_hosts ::
    "('p, 'w) pool_reconciler \<Rightarrow> profile option \<Rightarrow> pool \<Rightarrow> 'w \<Rightarrow> pool_outcome \<times> pool \<times> 'w" where
  "reconcile_pool_hosts r currentProfile p w =
     (case ensureFinalizer r p w of
        (Some err, p1, w1) \<Rightarrow> (Returns (failed_with err), p1, w1)
      | (None, p1, w1) \<Rightarrow>
          (let p1 = (if statusHostSets (pstatus p1) = None then set_statusHostSets (Some []) p1 else p1)
           in case listAndGroupBareMetalInstances r p1 w1 of
                (Inl err, p2, w2) \<Rightarrow> (Returns (failed_with err), p2, w2)
              | (Inr m, p2, w2) \<Rightarrow>
                  (case reconcileBareMetalInstances r p2 m currentProfile w2 of
                     (StepPanics, p3, w3) \<Rightarrow> (Panics, p3, w3)
                   | (StepFailed err, p3, w3) \<Rightarrow> (Returns (failed_with err), p3, w3)
                   | (StepOk, p3, w3) \<Rightarrow>
                       if runs_pool_template currentProfile \<and> provider r \<noteq> None then
                         (case pool_reconcileProvisioning r p3 (BareMetalPoolTemplate (the currentProfile)) w3 of
                            ((result, Some err), p4, w4) \<Rightarrow> (Returns (result, Some err), p4, w4)
                          | ((result, None), p4, w4) \<Rightarrow>
                              if \<not> result_IsZero (pLib r) result then (Returns (result, None), p4, w4)
                              else (case conclude_ready r p4 w4 of (res, p5, w5) \<Rightarrow> (Returns res, p5, w5)))
                       else (case conclude_ready r p3 w3 of (res, p5, w5) \<Rightarrow> (Returns res, p5, w5)))))"

definition set_poolConfigVersion :: "string \<Rightarrow> pool \<Rightarrow> pool" where
  "set_poolConfigVersion v p = p\<lparr>pstatus := (pstatus p)\<lparr>poolDesiredConfigVersion := v\<rparr>\<rparr>"

definition pool_handleUpdate ::
    "('p, 'w) pool_reconciler \<Rightarrow> pool \<Rightarrow> 'w \<Rightarrow> pool_outcome \<times> pool \<times> 'w" where
  "pool_handleUpdate r p w =
     (let p = InitializeStatusConditions (pLib r) p;
          p = (if poolPhase (pstatus p) = BareMetalPoolPhaseUnset
               then set_pool_phase BareMetalPoolPhaseProgressing p else p)
      in if poolProfile (pspec p) \<noteq> None \<and> provider r = None then
           (Returns ok_done, pool_failed r ''Provisioning provider not configured'' p, w)
         else case pool_ComputeDesiredConfigVersion r (pspec p) of
           Inl err \<Rightarrow>
             (Returns (failed_with err), pool_failed r ''Failed to compute desired config version'' p, w)
         | Inr desiredVersion \<Rightarrow>
             (case validateProfile r (set_poolConfigVersion desiredVersion p) of
                ((currentProfile, ok), p1) \<Rightarrow>
                  if \<not> ok then (Returns ok_done, p1, w)
                  else reconcile_pool_hosts r currentProfile p1 w))"

section \<open>Deletion\<close>

fun delete_instances :: "('p, 'w) pool_reconciler \<Rightarrow> bmi list \<Rightarrow> 'w \<Rightarrow> go_error option \<times> 'w" where
  "delete_instances r [] w = (None, w)"
| "delete_instances r (b # bs) w =
     (if time_IsZero (pLib r) (deletionTimestamp (imeta b)) then
        (case pDelete r b w of
           (err, w1) \<Rightarrow> if IgnoreNotFound (pLib r) err \<noteq> None then (err, w1) else delete_instances r bs w1)
      else delete_instances r bs w)"

definition drop_pool_finalizer ::
    "('p, 'w) pool_reconciler \<Rightarrow> pool \<Rightarrow> 'w \<Rightarrow> outcome \<times> pool \<times> 'w" where
  "drop_pool_finalizer r p w =
     (let (fs, removed) = RemoveFinalizer (pLib r) (finalizers (pmeta p)) BareMetalPoolFinalizer;
          p = set_pool_finalizers fs p
      in if removed then
           (case pUpdate r p w of
              (Inl err, w1) \<Rightarrow> (failed_with err, p, w1)
            | (Inr p', w1) \<Rightarrow> (ok_done, p', w1))
         else (ok_done, p, w))"

text \<open>Once no instance is left: the teardown workflow of the profile, then the finalizer.\<close>

definition teardown ::
    "('p, 'w) pool_reconciler \<Rightarrow> pool \<Rightarrow> 'w \<Rightarrow> outcome \<times> pool \<times> 'w" where
  "teardown r p w =
     (let currentProfile = (case poolProfile (pspec p) of None \<Rightarrow> None
            | Some ps \<Rightarrow> Get (registeredProfiles r) (profileName ps))
      in if \<not> runs_pool_template currentProfile then drop_pool_finalizer r p w
         else if provider r = None then
           (ok_done, pool_failed r ''Provisioning provider not configured'' p, w)
         else
           (case pool_reconcileDeprovisioning r p (BareMetalPoolTemplate (the currentProfile)) w of
              ((result, finished, err), p1, w1) \<Rightarrow>
                if err \<noteq> None then ((result, err), p1, w1)
                else if \<not> finished then ((result, None), p1, w1)
                else drop_pool_finalizer r p1 w1))"

definition pool_handleDeletion ::
    "('p, 'w) pool_reconciler \<Rightarrow> pool \<Rightarrow> 'w \<Rightarrow> outcome \<times> pool \<times> 'w" where
  "pool_handleDeletion r p w =
     (let p = set_pool_condition (pLib r) BareMetalPoolConditionTypeReady ConditionFalse
                ''BareMetalPool is being torn down'' BareMetalPoolReasonDeleting
                (set_pool_phase BareMetalPoolPhaseDeleting p);
          p = (if poolJobs (pstatus p) = None then set_poolJobs (Some []) p else p)
      in case pList r (objNamespace (pmeta p)) (pool_label p) w of
           (Inl err, w1) \<Rightarrow> (failed_with err, p, w1)
         | (Inr items, w1) \<Rightarrow>
             (case delete_instances r items w1 of
                (Some err, w2) \<Rightarrow> (failed_with err, p, w2)
              | (None, w2) \<Rightarrow>
                  if length items > 0 then ((requeue_after (HostDeletionPollIntervalDuration r), None), p, w2)
                  else teardown r p w2))"

section \<open>Reconcile\<close>

definition pool_Reconcile ::
    "('p, 'w) pool_reconciler \<Rightarrow> string \<times> string \<Rightarrow> 'w \<Rightarrow> pool_outcome \<times> 'w" where
  "pool_Reconcile r key w =
     (case pGet r key w of
        (Inl err, w1) \<Rightarrow> (Returns (no_requeue, IgnoreNotFound (pLib r) (Some err)), w1)
      | (Inr p, w1) \<Rightarrow>
          (let oldstatus = pstatus p;
               (out, p1, w2) =
                 (if \<not> time_IsZero (pLib r) (deletionTimestamp (pmeta p))
                  then (case pool_handleDeletion r p w1 of (res, p1, w2) \<Rightarrow> (Returns res, p1, w2))
                  else pool_handleUpdate r p w1)
           in case out of
                Panics \<Rightarrow> (Panics, w2)
              | Returns res \<Rightarrow>
                  if pDeepEqual r (pstatus p1) oldstatus then (Returns res, w2)
                  else (case pStatusUpdate r p1 w2 of
                          (Inl statusErr, w3) \<Rightarrow>
                            if IgnoreNotFound (pLib r) (Some statusErr) \<noteq> None
                            then (Returns (fst res, Some statusErr), w3)
                            else (Returns res, w3)
                        | (Inr _, w3) \<Rightarrow> (Returns res, w3))))"

section \<open>Events\<close>

text \<open>
  The filter \<open>SetupWithManager\<close> installs for the events of the instances a pool owns. Only deletions
  (and generic events, which the filter does not mention) bring the pool back on their account; a
  pool that waits for its instances relies on its own requeue.
\<close>

datatype instance_event = CreateEvent | UpdateEvent | DeleteEvent | GenericEvent

fun pool_event_filter :: "instance_event \<Rightarrow> bool" where
  "pool_event_filter CreateEvent = False"
| "pool_event_filter UpdateEvent = False"
| "pool_event_filter DeleteEvent = True"
| "pool_event_filter GenericEvent = True"

end
