(* ===== verification/Pool_Properties.thy ===== *)
theory Pool_Properties
  imports Pool_Controller
begin

text \<open>
  Properties of the BareMetalPool controller: replica counts converge, no panic, published host sets,
  readiness, created objects, refused profiles, and the order of deletion.
\<close>

section \<open>Frames and laws\<close>

lemma pool_set_simps [simp]:
  "pmeta (set_pool_finalizers fs p) = (pmeta p)\<lparr>finalizers := fs\<rparr>"
  "pspec (set_pool_finalizers fs p) = pspec p" "pstatus (set_pool_finalizers fs p) = pstatus p"
  "pmeta (set_poolJobs js p) = pmeta p" "pspec (set_poolJobs js p) = pspec p"
  "pstatus (set_poolJobs js p) = (pstatus p)\<lparr>poolJobs := js\<rparr>"
  "pmeta (set_statusHostSets hs p) = pmeta p" "pspec (set_statusHostSets hs p) = pspec p"
  "pstatus (set_statusHostSets hs p) = (pstatus p)\<lparr>statusHostSets := hs\<rparr>"
  "pspec (set_template_annotation tm p) = pspec p" "pstatus (set_template_annotation tm p) = pstatus p"
  "pmeta (set_poolConfigVersion v p) = pmeta p" "pspec (set_poolConfigVersion v p) = pspec p"
  "pstatus (set_poolConfigVersion v p) = (pstatus p)\<lparr>poolDesiredConfigVersion := v\<rparr>"
  "finalizers (pmeta (set_template_annotation tm p)) = finalizers (pmeta p)"
  "objNamespace (pmeta (set_template_annotation tm p)) = objNamespace (pmeta p)"
  "objUID (pmeta (set_template_annotation tm p)) = objUID (pmeta p)"
  by (simp_all add: set_pool_finalizers_def set_poolJobs_def set_statusHostSets_def set_template_annotation_def
      set_poolConfigVersion_def)

lemma pool_failed_simps [simp]:
  "pmeta (pool_failed r msg p) = pmeta p" "pspec (pool_failed r msg p) = pspec p"
  "poolPhase (pstatus (pool_failed r msg p)) = BareMetalPoolPhaseFailed"
  "statusHostSets (pstatus (pool_failed r msg p)) = statusHostSets (pstatus p)"
  by (simp_all add: pool_failed_def)

lemma updateStatusHostSets_simps [simp]:
  "pmeta (updateStatusHostSets p m) = pmeta p" "pspec (updateStatusHostSets p m) = pspec p"
  "poolPhase (pstatus (updateStatusHostSets p m)) = poolPhase (pstatus p)"
  by (simp_all add: updateStatusHostSets_def)

text \<open>What the API keeps of a pool that is written, and what the provisioning library keeps of it.\<close>

definition same_pool :: "pool \<Rightarrow> pool \<Rightarrow> bool" where
  "same_pool p p' \<longleftrightarrow> pspec p' = pspec p \<and> objUID (pmeta p') = objUID (pmeta p) \<and>
     objNamespace (pmeta p') = objNamespace (pmeta p) \<and> finalizers (pmeta p') = finalizers (pmeta p)"

lemma same_pool_refl [simp]: "same_pool p p" by (simp add: same_pool_def)

lemma same_pool_trans: "same_pool p q \<Longrightarrow> same_pool q s \<Longrightarrow> same_pool p s" by (simp add: same_pool_def)

definition pool_api_laws :: "('p, 'w) pool_reconciler \<Rightarrow> bool" where
  "pool_api_laws r \<longleftrightarrow>
     (\<forall>p w p' w'. pUpdate r p w = (Inr p', w') \<longrightarrow> same_pool p p') \<and>
     (\<forall>prov hooks p w out p' w'. pool_RunProvisioningLifecycle r prov hooks (p, w) = (out, (p', w')) \<longrightarrow> same_pool p p') \<and>
     (\<forall>prov hooks p w out p' w'. pool_RunDeprovisioningLifecycle r prov hooks (p, w) = (out, (p', w')) \<longrightarrow> same_pool p p') \<and>
     (\<forall>w xs. mset (rangeOrder r w xs) = mset xs)"

lemma pool_Update_ok: "pool_api_laws r \<Longrightarrow> pUpdate r p w = (Inr p', w') \<Longrightarrow> same_pool p p'"
  unfolding pool_api_laws_def by metis

lemma pool_Run_ok:
  "pool_api_laws r \<Longrightarrow> pool_RunProvisioningLifecycle r prov hooks (p, w) = (out, (p', w')) \<Longrightarrow> same_pool p p'"
  unfolding pool_api_laws_def by metis

lemma pool_RunDe_ok:
  "pool_api_laws r \<Longrightarrow> pool_RunDeprovisioningLifecycle r prov hooks (p, w) = (out, (p', w')) \<Longrightarrow> same_pool p p'"
  unfolding pool_api_laws_def by metis

lemma pool_range_order: "pool_api_laws r \<Longrightarrow> mset (rangeOrder r w xs) = mset xs"
  unfolding pool_api_laws_def by blast

section \<open>Maps of the replica loop\<close>

definition wanted :: "pool \<Rightarrow> string \<Rightarrow> int32" where
  "wanted p t = (case map_of (rev (map (\<lambda>hs. (hsHostType hs, hsReplicas hs)) (hostSets (pspec p)))) t of
     None \<Rightarrow> 0 | Some n \<Rightarrow> n)"

lemma map_of_desired_of_spec:
  "map_of (desired_of_spec m hs) t =
     (case map_of (rev (map (\<lambda>h. (hsHostType h, hsReplicas h)) hs)) t of Some n \<Rightarrow> Some n | None \<Rightarrow> map_of m t)"
  by (induction m hs rule: desired_of_spec.induct)
    (auto simp: map_add_def update_conv' split: option.splits)

lemma wf_desired_of_spec [simp]: "wf_map m \<Longrightarrow> wf_map (desired_of_spec m hs)"
  by (induction m hs rule: desired_of_spec.induct) auto

lemma map_of_add_undesired:
  "map_of (add_undesired m ts) t = (if map_of m t = None \<and> t \<in> set ts then Some 0 else map_of m t)"
  by (induction m ts rule: add_undesired.induct) (auto simp: update_conv')

lemma wf_add_undesired [simp]: "wf_map m \<Longrightarrow> wf_map (add_undesired m ts)"
  by (induction m ts rule: add_undesired.induct) auto

lemma wf_desiredReplicas [simp]: "wf_map (desiredReplicas p m)"
  by (simp add: desiredReplicas_def)

lemma desired_value: "map_of (desiredReplicas p m) t = Some n \<Longrightarrow> wanted p t = n"
  by (auto simp: desiredReplicas_def map_of_add_undesired map_of_desired_of_spec wanted_def
      split: option.splits if_splits)

lemma undesired_value:
  assumes "map_of (desiredReplicas p m) t = None"
  shows "wanted p t = 0 \<and> of_type m t = []"
proof -
  have "map_of (desired_of_spec [] (hostSets (pspec p))) t = None" "t \<notin> fst ` set m"
    using assms by (auto simp: desiredReplicas_def map_of_add_undesired simp del: not_None_eq split: if_splits)
  then have "map_of (rev (map (\<lambda>hs. (hsHostType hs, hsReplicas hs)) (hostSets (pspec p)))) t = None" "map_of m t = None"
    by (auto simp: map_of_desired_of_spec map_of_eq_None_iff[of m] simp del: not_None_eq split: option.splits)
  then show ?thesis by (simp add: wanted_def of_type_def)
qed

lemma wanted_nonneg:
  assumes "\<forall>hs \<in> set (hostSets (pspec p)). 0 \<le> sint (hsReplicas hs)"
  shows "0 \<le> sint (wanted p t)"
proof (cases "map_of (rev (map (\<lambda>hs. (hsHostType hs, hsReplicas hs)) (hostSets (pspec p)))) t")
  case (Some n)
  then have "(t, n) \<in> set (rev (map (\<lambda>hs. (hsHostType hs, hsReplicas hs)) (hostSets (pspec p))))"
    by (rule map_of_SomeD)
  then show ?thesis using assms Some by (auto simp: wanted_def)
qed (simp add: wanted_def)

text \<open>The order of a range: every key of a map exactly once.\<close>

lemma range_order_keys:
  assumes "pool_api_laws r" and "wf_map d"
  shows "distinct (map fst (rangeOrder r w d))" and "set (rangeOrder r w d) = set d"
proof -
  note ms = pool_range_order[OF assms(1), of w d]
  have "mset (map fst (rangeOrder r w d)) = mset (map fst d)" using ms by simp
  then show "distinct (map fst (rangeOrder r w d))" using assms(2) mset_eq_imp_distinct_iff
    unfolding wf_map_def by blast
  show "set (rangeOrder r w d) = set d" using mset_eq_setD[OF ms] .
qed

lemma group_instances_Some:
  "(\<And>t. None \<notin> set (of_type m t)) \<Longrightarrow> None \<notin> set (of_type (group_instances L bs m) t)"
  by (induction L bs m rule: group_instances.induct) auto

lemma wf_group_instances [simp]: "wf_map m \<Longrightarrow> wf_map (group_instances L bs m)"
  by (induction L bs m rule: group_instances.induct) auto

lemma of_type_group:
  "of_type (group_instances L bs m) t = of_type m t @
     map Some (filter (\<lambda>b. time_IsZero L (deletionTimestamp (imeta b)) \<and> hostType (ispec b) = t) bs)"
  by (induction L bs m rule: group_instances.induct) auto

section \<open>Scaling one host type\<close>

lemma scaleDown_unfold:
  "scaleDownBareMetalInstances r p ht replicas m w =
     (if \<not> sint replicas < sint (int32_len (of_type m ht)) then (StepOk, p, m, w)
      else if of_type m ht = [] then (StepPanics, p, m, w)
      else case last (of_type m ht) of
        None \<Rightarrow> (StepPanics, p, m, w)
      | Some bareMetalInstance \<Rightarrow>
          (case pDelete r bareMetalInstance w of
             (err, w1) \<Rightarrow>
               if IgnoreNotFound (pLib r) err \<noteq> None then
                 (step_of err, pool_failed r ''Failed to delete BareMetalInstance CR'' p, m, w1)
               else
                 (let m1 = AList.update ht (butlast (of_type m ht)) m
                  in if length (of_type m1 ht) = 0 then (StepOk, p, AList.delete ht m1, w1)
                     else scaleDownBareMetalInstances r p ht replicas m1 w1)))"
  by (rule scaleDownBareMetalInstances.simps)

lemma scaleUp_keeps:
  "scaleUp_loop r ht prof n p m w = (st, p', m', w') \<Longrightarrow>
     same_pool p p' \<and> (wf_map m \<longrightarrow> wf_map m') \<and> (\<forall>u. u \<noteq> ht \<longrightarrow> of_type m' u = of_type m u)"
  by (induction r ht prof n p m w rule: scaleUp_loop.induct)
    (fastforce simp: same_pool_def split: prod.splits step.splits)+

lemma scaleDown_stop:
  "\<not> sint replicas < sint (int32_len (of_type m ht)) \<Longrightarrow>
     scaleDownBareMetalInstances r p ht replicas m w = (StepOk, p, m, w)"
  by (subst scaleDown_unfold) simp

lemma scaleDown_panic:
  "sint replicas < sint (int32_len (of_type m ht)) \<Longrightarrow> of_type m ht = [] \<or> last (of_type m ht) = None \<Longrightarrow>
     scaleDownBareMetalInstances r p ht replicas m w = (StepPanics, p, m, w)"
  by (subst scaleDown_unfold) auto

lemma scaleDown_failure:
  assumes "sint replicas < sint (int32_len (of_type m ht))" and "of_type m ht \<noteq> []"
    and "last (of_type m ht) = Some b" and "pDelete r b w = (err, w1)" and "IgnoreNotFound (pLib r) err \<noteq> None"
  shows "scaleDownBareMetalInstances r p ht replicas m w =
     (step_of err, pool_failed r ''Failed to delete BareMetalInstance CR'' p, m, w1)"
  by (subst scaleDown_unfold) (use assms in auto)

lemma scaleDown_step:
  assumes "sint replicas < sint (int32_len (of_type m ht))" and "of_type m ht \<noteq> []"
    and "last (of_type m ht) = Some b" and "pDelete r b w = (err, w1)" and "IgnoreNotFound (pLib r) err = None"
  shows "scaleDownBareMetalInstances r p ht replicas m w =
     (let m1 = AList.update ht (butlast (of_type m ht)) m
      in if butlast (of_type m ht) = [] then (StepOk, p, AList.delete ht m1, w1)
         else scaleDownBareMetalInstances r p ht replicas m1 w1)"
  by (subst scaleDown_unfold) (use assms in \<open>simp add: Let_def\<close>)

text \<open>One case split for the loop: it ends at once, or it deletes the last instance of the list.\<close>

lemma scaleDown_cases:
  obtains (stop) "\<not> sint replicas < sint (int32_len (of_type m ht))"
  | (panic) "sint replicas < sint (int32_len (of_type m ht))" "of_type m ht = [] \<or> last (of_type m ht) = None"
  | (failure) b err w1 where "sint replicas < sint (int32_len (of_type m ht))" "of_type m ht \<noteq> []"
      "last (of_type m ht) = Some b" "pDelete r b w = (err, w1)" "IgnoreNotFound (pLib r) err \<noteq> None"
  | (delete) b err w1 where "sint replicas < sint (int32_len (of_type m ht))" "of_type m ht \<noteq> []"
      "last (of_type m ht) = Some b" "pDelete r b w = (err, w1)" "IgnoreNotFound (pLib r) err = None"
  by (cases "last (of_type m ht)"; cases "pDelete r (the (last (of_type m ht))) w") fastforce+

lemma scaleDown_induct [case_names shorter]:
  assumes "\<And>m w. (\<And>m' w'. length (of_type m' ht) < length (of_type m ht) \<Longrightarrow> P m' w') \<Longrightarrow> P m w"
  shows "P m w"
  using assms by (induction "length (of_type m ht)" arbitrary: m w rule: less_induct) blast

lemma scaleDown_keeps:
  "scaleDownBareMetalInstances r p ht replicas m w = (st, p', m', w') \<Longrightarrow>
     same_pool p p' \<and> (wf_map m \<longrightarrow> wf_map m') \<and> (\<forall>u. u \<noteq> ht \<longrightarrow> of_type m' u = of_type m u)"
proof (induction m w rule: scaleDown_induct[where ht = ht])
  case (shorter m w)
  show ?case
  proof (cases rule: scaleDown_cases[where replicas = replicas and m = m and ht = ht and r = r and w = w])
    case stop
    then show ?thesis using shorter.prems by (simp add: scaleDown_stop)
  next
    case panic
    then show ?thesis using shorter.prems by (simp add: scaleDown_panic)
  next
    case failure
    then show ?thesis using shorter.prems by (auto simp: scaleDown_failure same_pool_def)
  next
    case (delete b err w1)
    let ?m = "AList.update ht (butlast (of_type m ht)) m"
    note step = shorter.prems[unfolded scaleDown_step[OF delete] Let_def]
    show ?thesis
    proof (cases "butlast (of_type m ht) = []")
      case True
      then show ?thesis using step by auto
    next
      case False
      have "same_pool p p' \<and> (wf_map ?m \<longrightarrow> wf_map m') \<and> (\<forall>u. u \<noteq> ht \<longrightarrow> of_type m' u = of_type ?m u)"
        by (rule shorter.IH[where m' = ?m]) (use False step delete(2) in auto)
      then show ?thesis by simp
    qed
  qed
qed

section \<open>No panic\<close>

lemma scaleDown_no_panic:
  assumes "0 \<le> sint replicas"
  shows "None \<notin> set (of_type m ht) \<Longrightarrow> fst (scaleDownBareMetalInstances r p ht replicas m w) \<noteq> StepPanics"
proof (induction m w rule: scaleDown_induct[where ht = ht])
  case (shorter m w)
  show ?case
  proof (cases rule: scaleDown_cases[where replicas = replicas and m = m and ht = ht and r = r and w = w])
    case stop
    then show ?thesis by (simp add: scaleDown_stop)
  next
    case panic
    then have "of_type m ht \<noteq> []" using assms by auto
    then have "last (of_type m ht) \<noteq> None" using shorter.prems last_in_set by metis
    then show ?thesis using panic \<open>of_type m ht \<noteq> []\<close> by simp
  next
    case failure
    then show ?thesis by (auto simp: scaleDown_failure step_of_def split: option.split)
  next
    case (delete b err w1)
    let ?m = "AList.update ht (butlast (of_type m ht)) m"
    have "butlast (of_type m ht) \<noteq> [] \<Longrightarrow>
        fst (scaleDownBareMetalInstances r p ht replicas ?m w1) \<noteq> StepPanics"
      by (rule shorter.IH) (use delete(2) shorter.prems in \<open>auto dest: in_set_butlastD\<close>)
    then show ?thesis by (simp add: scaleDown_step[OF delete] Let_def)
  qed
qed

lemma create_no_panic:
  "prof = None \<or> poolProfile (pspec p) \<noteq> None \<Longrightarrow> fst (createBareMetalInstanceCR r p ht prof w) \<noteq> StepPanics"
  by (auto simp: createBareMetalInstanceCR_def build_instance_def Let_def step_of_def
      split: prod.splits option.splits sum.splits)

lemma scaleUp_no_panic:
  "prof = None \<or> poolProfile (pspec p) \<noteq> None \<Longrightarrow> fst (scaleUp_loop r ht prof n p m w) \<noteq> StepPanics"
proof (induction n arbitrary: m w)
  case (Suc n)
  obtain st w1 where c: "createBareMetalInstanceCR r p ht prof w = (st, w1)" by fastforce
  then show ?case using create_no_panic[OF Suc.prems, of r ht w] Suc by (cases st) auto
qed simp

text \<open>The loop over the host types: the types still to come are as they were listed.\<close>

lemma replica_loop_no_panic:
  assumes "prof = None \<or> poolProfile (pspec p) \<noteq> None"
  shows "distinct (map fst ts) \<Longrightarrow> \<forall>(t, n) \<in> set ts. 0 \<le> sint n \<and> None \<notin> set (of_type m t) \<Longrightarrow>
    same_pool p0 p \<Longrightarrow> fst (replica_loop r prof ts p m w) \<noteq> StepPanics"
  using assms
proof (induction ts arbitrary: p m w)
  case (Cons x ts)
  obtain ht n where x: "x = (ht, n)" by fastforce
  let ?d = "n - int32_len (of_type m ht)"
  obtain st p1 m1 w1 where one: "(if 0 < sint ?d then scaleUpBareMetalInstances r p ht ?d m prof w
      else if sint ?d < 0 then scaleDownBareMetalInstances r p ht n m w else (StepOk, p, m, w)) = (st, p1, m1, w1)"
    by (metis prod.exhaust)
  have np: "st \<noteq> StepPanics"
    using one Cons.prems(2,4) x scaleUp_no_panic[of prof p r ht "nat (sint ?d)" m w]
      scaleDown_no_panic[of n m ht r p w]
    by (auto simp: scaleUpBareMetalInstances_def split: if_splits)
  have keep: "same_pool p p1 \<and> (\<forall>u. u \<noteq> ht \<longrightarrow> of_type m1 u = of_type m u)"
    using one scaleUp_keeps[of r ht prof "nat (sint ?d)" p m w st p1 m1 w1]
      scaleDown_keeps[of r p ht n m w st p1 m1 w1]
    by (auto simp: scaleUpBareMetalInstances_def split: if_splits)
  have "fst (replica_loop r prof ts p1 m1 w1) \<noteq> StepPanics"
  proof (rule Cons.IH)
    show "distinct (map fst ts)" using Cons.prems(1) by simp
    show "\<forall>(t, n) \<in> set ts. 0 \<le> sint n \<and> None \<notin> set (of_type m1 t)"
    proof clarify
      fix t n' assume t: "(t, n') \<in> set ts"
      then have "t \<noteq> ht" using Cons.prems(1) x by force
      then show "0 \<le> sint n' \<and> None \<notin> set (of_type m1 t)" using keep t Cons.prems(2) by auto
    qed
    show "same_pool p0 p1" using Cons.prems(3) keep same_pool_trans by blast
    show "prof = None \<or> poolProfile (pspec p1) \<noteq> None" using Cons.prems(4) keep by (simp add: same_pool_def)
  qed
  then show ?case using one np x by (simp add: Let_def)
qed simp

section \<open>The cluster\<close>

text \<open>
  \<open>live w\<close> is the set of the pool's instances in the cluster that are not being deleted. What the
  controller relies on, while it is the only writer of them: a list shows exactly these (and those
  being deleted), a deletion removes one, a creation adds a new one of the requested type. Creating
  under a name that is taken fails, which the controller takes for success; \<open>fresh_names\<close> says that
  it does not happen.
\<close>

definition in_pool :: "pool \<Rightarrow> bmi \<Rightarrow> bool" where
  "in_pool p b \<longleftrightarrow> objNamespace (imeta b) = objNamespace (pmeta p) \<and>
     map_of (entries (objLabels (imeta b))) BareMetalPoolLabelKey = Some (objUID (pmeta p))"

definition cluster_laws :: "('p, 'w) pool_reconciler \<Rightarrow> pool \<Rightarrow> ('w \<Rightarrow> bmi set) \<Rightarrow> bool" where
  "cluster_laws r p live \<longleftrightarrow>
     (\<forall>w. finite (live w)) \<and>
     (\<forall>w items w'. pList r (objNamespace (pmeta p)) (pool_label p) w = (Inr items, w') \<longrightarrow>
        distinct items \<and> live w' = {b \<in> set items. time_IsZero (pLib r) (deletionTimestamp (imeta b))}) \<and>
     (\<forall>b w err w'. pDelete r b w = (err, w') \<and> IgnoreNotFound (pLib r) err = None \<longrightarrow> live w' = live w - {b}) \<and>
     (\<forall>b w w'. in_pool p b \<and> deletionTimestamp (imeta b) = None \<and> pCreate r b w = (None, w') \<longrightarrow>
        (\<exists>b'. b' \<notin> live w \<and> hostType (ispec b') = hostType (ispec b) \<and> live w' = insert b' (live w))) \<and>
     (\<forall>n w s w'. rand_String r n w = (s, w') \<longrightarrow> live w' = live w)"

definition fresh_names :: "('p, 'w) pool_reconciler \<Rightarrow> bool" where
  "fresh_names r \<longleftrightarrow> (\<forall>b w e w'. pCreate r b w = (Some e, w') \<longrightarrow> IgnoreAlreadyExists (pLib r) (Some e) \<noteq> None)"

lemma cluster_finite: "cluster_laws r p live \<Longrightarrow> finite (live w)"
  unfolding cluster_laws_def by blast

lemma cluster_List:
  "cluster_laws r p live \<Longrightarrow> pList r (objNamespace (pmeta p)) (pool_label p) w = (Inr items, w') \<Longrightarrow>
     distinct items \<and> live w' = {b \<in> set items. time_IsZero (pLib r) (deletionTimestamp (imeta b))}"
  unfolding cluster_laws_def by metis

lemma cluster_Delete:
  "cluster_laws r p live \<Longrightarrow> pDelete r b w = (err, w') \<Longrightarrow> IgnoreNotFound (pLib r) err = None \<Longrightarrow>
     live w' = live w - {b}"
  unfolding cluster_laws_def by metis

lemma cluster_Create:
  "cluster_laws r p live \<Longrightarrow> in_pool p b \<Longrightarrow> deletionTimestamp (imeta b) = None \<Longrightarrow> pCreate r b w = (None, w') \<Longrightarrow>
     \<exists>b'. b' \<notin> live w \<and> hostType (ispec b') = hostType (ispec b) \<and> live w' = insert b' (live w)"
  unfolding cluster_laws_def by metis

lemma cluster_rand: "cluster_laws r p live \<Longrightarrow> rand_String r n w = (s, w') \<Longrightarrow> live w' = live w"
  unfolding cluster_laws_def by metis

definition live_of :: "('w \<Rightarrow> bmi set) \<Rightarrow> 'w \<Rightarrow> string \<Rightarrow> bmi set" where
  "live_of live w t = {b \<in> live w. hostType (ispec b) = t}"

text \<open>\<open>controllerutil.SetControllerReference\<close> on a new object.\<close>

definition pool_ref :: "pool \<Rightarrow> owner_reference" where
  "pool_ref p = \<lparr>orAPIVersion = ''osac.openshift.io/v1alpha1'', orKind = ''BareMetalPool'',
     orName = objName (pmeta p), orUID = objUID (pmeta p), orController = Some True\<rparr>"

definition owner_laws :: "('p, 'w) pool_reconciler \<Rightarrow> bool" where
  "owner_laws r \<longleftrightarrow> (\<forall>p b b'. ownerReferences (imeta b) = [] \<and> SetControllerReference r p b = Inr b' \<longrightarrow>
     b' = b\<lparr>imeta := (imeta b)\<lparr>ownerReferences := [pool_ref p]\<rparr>\<rparr>)"

lemma owner_set:
  "owner_laws r \<Longrightarrow> ownerReferences (imeta b) = [] \<Longrightarrow> SetControllerReference r p b = Inr b' \<Longrightarrow>
     b' = b\<lparr>imeta := (imeta b)\<lparr>ownerReferences := [pool_ref p]\<rparr>\<rparr>"
  unfolding owner_laws_def by metis

section \<open>What is created\<close>

definition pool_child :: "pool \<Rightarrow> string \<Rightarrow> bmi \<Rightarrow> bool" where
  "pool_child p ht cr \<longleftrightarrow> in_pool p cr \<and> GetPoolID cr = Some (objUID (pmeta p)) \<and>
     map_of (entries (objLabels (imeta cr))) HostTypeLabelKey = Some ht \<and>
     hostType (ispec cr) = ht \<and> externalHostID (ispec cr) = '''' \<and> hostClass (ispec cr) = '''' \<and>
     templateID (ispec cr) \<noteq> '''' \<and> finalizers (imeta cr) = [] \<and> deletionTimestamp (imeta cr) = None"

lemma build_instance_child:
  assumes "build_instance p ht prof rnd = Some cr"
  shows "ownerReferences (imeta cr) = []"
    and "pool_child p ht (cr\<lparr>imeta := (imeta cr)\<lparr>ownerReferences := [pool_ref p]\<rparr>\<rparr>)"
proof -
  obtain tmpl sel ls ps params where cr: "cr = new_instance p rnd ht tmpl sel ls ps params" and "tmpl \<noteq> ''''"
    using assms by (auto simp: build_instance_def split: option.splits if_splits)
  then show "ownerReferences (imeta cr) = []"
    "pool_child p ht (cr\<lparr>imeta := (imeta cr)\<lparr>ownerReferences := [pool_ref p]\<rparr>\<rparr>)"
    by (simp_all add: pool_child_def in_pool_def new_instance_def GetPoolID_def pool_ref_def)
qed

lemma created_CR:
  assumes L: "lib_laws (pLib r)" and O: "owner_laws r" and "createBareMetalInstanceCR r p ht prof w = (StepOk, w')"
  obtains rnd w1 cr err where "rand_String r 5 w = (rnd, w1)" "pCreate r cr w1 = (err, w')"
    "IgnoreAlreadyExists (pLib r) err = None" "pool_child p ht cr"
proof -
  obtain rnd w1 where rs: "rand_String r 5 w = (rnd, w1)" by fastforce
  have "step_of err = StepOk \<Longrightarrow> IgnoreAlreadyExists (pLib r) err = None" for err
    using L by (cases err) (simp_all add: step_of_def)
  then obtain cr0 cr err where cr: "build_instance p ht prof rnd = Some cr0" "SetControllerReference r p cr0 = Inr cr"
    "pCreate r cr w1 = (err, w')" "IgnoreAlreadyExists (pLib r) err = None"
    using assms(3) rs
    by (auto simp: createBareMetalInstanceCR_def Let_def split: sum.splits prod.splits option.splits if_splits)
  have "pool_child p ht cr"
    using build_instance_child[OF cr(1)] owner_set[OF O _ cr(2)] by simp
  then show ?thesis using that rs cr(3,4) by blast
qed

lemma created_counts:
  assumes "lib_laws (pLib r)" and "owner_laws r" and C: "cluster_laws r p live" and F: "fresh_names r"
    and run: "createBareMetalInstanceCR r p ht prof w = (StepOk, w')"
  shows "card (live_of live w' ht) = Suc (card (live_of live w ht))"
    and "u \<noteq> ht \<Longrightarrow> live_of live w' u = live_of live w u"
proof -
  from created_CR[OF assms(1,2) run] obtain rnd w1 cr err where cr: "rand_String r 5 w = (rnd, w1)"
    "pCreate r cr w1 = (err, w')" "IgnoreAlreadyExists (pLib r) err = None" "pool_child p ht cr" .
  have none: "err = None"
  proof (cases err)
    case (Some e)
    then show ?thesis using F cr(2,3) unfolding fresh_names_def by metis
  qed
  have "in_pool p cr" "deletionTimestamp (imeta cr) = None" "hostType (ispec cr) = ht"
    using cr(4) by (simp_all add: pool_child_def)
  then obtain b' where b': "b' \<notin> live w1" "hostType (ispec b') = ht" "live w' = insert b' (live w1)"
    using cluster_Create[OF C _ _ cr(2)[unfolded none]] by metis
  have "live_of live w' ht = insert b' (live_of live w ht)" "b' \<notin> live_of live w ht"
    using b' cluster_rand[OF C cr(1)] by (auto simp: live_of_def)
  moreover have "finite (live_of live w ht)" using cluster_finite[OF C] by (simp add: live_of_def)
  ultimately show "card (live_of live w' ht) = Suc (card (live_of live w ht))" by simp
  show "u \<noteq> ht \<Longrightarrow> live_of live w' u = live_of live w u"
    using b' cluster_rand[OF C cr(1)] by (auto simp: live_of_def)
qed

lemma scaleUp_counts:
  assumes "lib_laws (pLib r)" and "owner_laws r" and "cluster_laws r p live" and "fresh_names r"
  shows "scaleUp_loop r ht prof n p m w = (StepOk, p', m', w') \<Longrightarrow>
    p' = p \<and> length (of_type m' ht) = length (of_type m ht) + n \<and>
    card (live_of live w' ht) = card (live_of live w ht) + n \<and>
    (\<forall>u. u \<noteq> ht \<longrightarrow> live_of live w' u = live_of live w u)"
proof (induction n arbitrary: m w)
  case (Suc n)
  obtain st w1 where c: "createBareMetalInstanceCR r p ht prof w = (st, w1)" by fastforce
  then have st: "st = StepOk" using Suc.prems by (cases st) auto
  note one = created_counts[OF assms c[unfolded st]]
  from Suc.prems c st
  have "scaleUp_loop r ht prof n p (AList.update ht (of_type m ht @ [None]) m) w1 = (StepOk, p', m', w')" by simp
  from Suc.IH[OF this] one show ?case by simp
qed simp

lemma sint_int32_len: "length xs < 2 ^ 31 \<Longrightarrow> sint (int32_len xs) = int (length xs)"
  by (simp add: signed_of_nat signed_take_bit_int_eq_self)

lemma scaleDown_counts:
  assumes L: "lib_laws (pLib r)" and C: "cluster_laws r p live" and "0 \<le> sint replicas"
  shows "of_type m ht = map Some bs \<Longrightarrow> distinct bs \<Longrightarrow> set bs = live_of live w ht \<Longrightarrow> length bs < 2 ^ 31 \<Longrightarrow>
    scaleDownBareMetalInstances r p ht replicas m w = (StepOk, p', m', w') \<Longrightarrow>
    p' = p \<and> length (of_type m' ht) = min (length bs) (nat (sint replicas)) \<and>
    card (live_of live w' ht) = length (of_type m' ht) \<and> (\<forall>u. u \<noteq> ht \<longrightarrow> live_of live w' u = live_of live w u)"
proof (induction m w arbitrary: bs rule: scaleDown_induct[where ht = ht])
  case (shorter m w)
  note ty = shorter.prems(1) and len = sint_int32_len[of bs, OF shorter.prems(4)]
  have card: "card (live_of live w ht) = length bs" using shorter.prems(2,3) distinct_card by metis
  show ?case
  proof (cases rule: scaleDown_cases[where replicas = replicas and m = m and ht = ht and r = r and w = w])
    case stop
    then show ?thesis using shorter.prems(5) ty len card by (auto simp: scaleDown_stop)
  next
    case panic
    then show ?thesis using shorter.prems(5) by (simp add: scaleDown_panic)
  next
    case (failure b err w1)
    then have "err \<noteq> None" using lib_Ignore_None(1)[OF L] by metis
    then show ?thesis using shorter.prems(5) by (auto simp: scaleDown_failure[OF failure] step_of_def)
  next
    case (delete b err w1)
    let ?m = "AList.update ht (butlast (of_type m ht)) m"
    have bs: "bs \<noteq> []" "last bs = b" using delete(2,3) ty by (auto simp: last_map)
    then obtain cs where cs: "bs = cs @ [b]" by (metis append_butlast_last_id)
    have live: "live w1 = live w - {b}" by (rule cluster_Delete[OF C delete(4,5)])
    have "b \<in> live_of live w ht" using shorter.prems(3) cs by auto
    then have others: "u \<noteq> ht \<Longrightarrow> live_of live w1 u = live_of live w u" for u
      using live by (auto simp: live_of_def)
    have rest: "set cs = live_of live w1 ht" "distinct cs"
      using shorter.prems(2,3) cs live by (auto simp: live_of_def)
    have low: "nat (sint replicas) < length bs" using delete(1) ty len assms(3) by simp
    note step = shorter.prems(5)[unfolded scaleDown_step[OF delete] Let_def]
    show ?thesis
    proof (cases "cs = []")
      case True
      then show ?thesis using step ty cs rest others low by auto
    next
      case False
      have "p' = p \<and> length (of_type m' ht) = min (length cs) (nat (sint replicas)) \<and>
          card (live_of live w' ht) = length (of_type m' ht) \<and>
          (\<forall>u. u \<noteq> ht \<longrightarrow> live_of live w' u = live_of live w1 u)"
        by (rule shorter.IH[where m' = ?m and w' = w1])
          (use ty cs rest shorter.prems(4) False step in \<open>auto simp: butlast_append map_butlast[symmetric]\<close>)
      then show ?thesis using low cs others by auto
    qed
  qed
qed

section \<open>All host types\<close>

text \<open>
  \<open>tracked\<close>: the list kept for a host type names exactly the live instances of that type; this holds
  until the loop reaches the type. \<open>counted\<close> holds throughout: the length is right, although
  instances created meanwhile are nil entries.
\<close>

definition tracked :: "('w \<Rightarrow> bmi set) \<Rightarrow> 'w \<Rightarrow> instances \<Rightarrow> string \<Rightarrow> bool" where
  "tracked live w m t \<longleftrightarrow>
     (\<exists>bs. of_type m t = map Some bs \<and> distinct bs \<and> set bs = live_of live w t \<and> length bs < 2 ^ 31)"

definition counted :: "('w \<Rightarrow> bmi set) \<Rightarrow> 'w \<Rightarrow> instances \<Rightarrow> string \<Rightarrow> bool" where
  "counted live w m t \<longleftrightarrow> card (live_of live w t) = length (of_type m t)"

lemma tracked_counted: "tracked live w m t \<Longrightarrow> counted live w m t"
  unfolding tracked_def counted_def using distinct_card by (metis length_map)

lemma scale_one_type:
  assumes L: "lib_laws (pLib r)" and O: "owner_laws r" and C: "cluster_laws r p live" and F: "fresh_names r"
    and "0 \<le> sint n" and T: "tracked live w m ht"
    and run: "(let delta = n - int32_len (of_type m ht) in
      if 0 < sint delta then scaleUpBareMetalInstances r p ht delta m prof w
      else if sint delta < 0 then scaleDownBareMetalInstances r p ht n m w
      else (StepOk, p, m, w)) = (StepOk, p', m', w')"
  shows "p' = p" and "length (of_type m' ht) = nat (sint n)" and "counted live w' m' ht"
    and "u \<noteq> ht \<Longrightarrow> of_type m' u = of_type m u \<and> live_of live w' u = live_of live w u"
    and "wf_map m \<Longrightarrow> wf_map m'"
proof -
  obtain bs where bs: "of_type m ht = map Some bs" "distinct bs" "set bs = live_of live w ht" "length bs < 2 ^ 31"
    using T unfolding tracked_def by blast
  let ?len = "length bs"
  have card: "card (live_of live w ht) = ?len" using bs(2,3) distinct_card by metis
  have delta: "sint (n - int32_len (of_type m ht)) = sint n - int ?len"
  proof -
    have "sint n < 2 ^ 31" using sint_lt[of n] by simp
    then have "- (2 ^ 31) \<le> sint n - int ?len \<and> sint n - int ?len < 2 ^ 31" using bs(4) assms(5) by simp
    then show ?thesis using sint_int32_len[OF bs(4)] bs(1)
      by (simp add: sint_word_diff signed_take_bit_int_eq_self)
  qed
  have run: "(if 0 < sint n - int ?len then scaleUpBareMetalInstances r p ht (n - int32_len (of_type m ht)) m prof w
      else if sint n - int ?len < 0 then scaleDownBareMetalInstances r p ht n m w
      else (StepOk, p, m, w)) = (StepOk, p', m', w')"
    using run by (simp only: Let_def delta)
  consider (up) "int ?len < sint n" | (down) "sint n < int ?len" | (same) "sint n = int ?len" by linarith
  then have "p' = p \<and> length (of_type m' ht) = nat (sint n) \<and> card (live_of live w' ht) = length (of_type m' ht) \<and>
      (\<forall>u. u \<noteq> ht \<longrightarrow> of_type m' u = of_type m u \<and> live_of live w' u = live_of live w u) \<and> (wf_map m \<longrightarrow> wf_map m')"
  proof cases
    case up
    then have run: "scaleUp_loop r ht prof (nat (sint n - int ?len)) p m w = (StepOk, p', m', w')"
      using run unfolding scaleUpBareMetalInstances_def delta by simp
    show ?thesis using scaleUp_counts[OF L O C F run] scaleUp_keeps[OF run] card bs(1) up by auto
  next
    case down
    then have run: "scaleDownBareMetalInstances r p ht n m w = (StepOk, p', m', w')"
      using run by simp
    show ?thesis using scaleDown_counts[OF L C assms(5) bs run] scaleDown_keeps[OF run] down by auto
  next
    case same
    then show ?thesis using run card bs(1) by auto
  qed
  then show "p' = p" "length (of_type m' ht) = nat (sint n)" "counted live w' m' ht"
    "u \<noteq> ht \<Longrightarrow> of_type m' u = of_type m u \<and> live_of live w' u = live_of live w u" "wf_map m \<Longrightarrow> wf_map m'"
    by (simp_all add: counted_def)
qed

lemma replica_loop_counts:
  assumes "lib_laws (pLib r)" and "owner_laws r" and "cluster_laws r p live" and "fresh_names r"
  shows "distinct (map fst ts) \<Longrightarrow> \<forall>(t, n) \<in> set ts. 0 \<le> sint n \<and> tracked live w m t \<Longrightarrow>
    \<forall>t. counted live w m t \<Longrightarrow> replica_loop r prof ts p m w = (StepOk, p', m', w') \<Longrightarrow>
    p' = p \<and> (\<forall>t. counted live w' m' t) \<and> (wf_map m \<longrightarrow> wf_map m') \<and>
    (\<forall>(t, n) \<in> set ts. length (of_type m' t) = nat (sint n)) \<and>
    (\<forall>t. t \<notin> fst ` set ts \<longrightarrow> of_type m' t = of_type m t)"
proof (induction ts arbitrary: m w)
  case (Cons x ts)
  obtain ht n where x: "x = (ht, n)" by fastforce
  let ?one = "let delta = n - int32_len (of_type m ht) in
      if 0 < sint delta then scaleUpBareMetalInstances r p ht delta m prof w
      else if sint delta < 0 then scaleDownBareMetalInstances r p ht n m w else (StepOk, p, m, w)"
  obtain st p1 m1 w1 where one: "?one = (st, p1, m1, w1)" by (metis prod.exhaust)
  then have st: "st = StepOk" and rest: "replica_loop r prof ts p1 m1 w1 = (StepOk, p', m', w')"
    using Cons.prems(4) x by (auto simp: Let_def split: if_splits)
  have now: "0 \<le> sint n" "tracked live w m ht" using Cons.prems(2) x by auto
  note step = scale_one_type[OF assms now one[unfolded st]]
  have fresh: "t \<noteq> ht" if "(t, k) \<in> set ts" for t k using Cons.prems(1) x that by force
  have tracked: "\<forall>(t, n) \<in> set ts. 0 \<le> sint n \<and> tracked live w1 m1 t"
    using Cons.prems(2) step(4) fresh by (auto simp: tracked_def)
  have counted: "\<forall>t. counted live w1 m1 t"
    using Cons.prems(3) step(3,4) by (metis counted_def)
  have "distinct (map fst ts)" using Cons.prems(1) by simp
  note IH = Cons.IH[OF this tracked counted rest[unfolded step(1)]]
  have "ht \<notin> fst ` set ts" using fresh by force
  then show ?case using IH step x by auto
qed simp

lemma group_tracked:
  assumes L: "lib_laws (pLib r)" and C: "cluster_laws r p live"
    and list: "pList r (objNamespace (pmeta p)) (pool_label p) w = (Inr items, w1)" and "length items < 2 ^ 31"
  shows "tracked live w1 (group_instances (pLib r) items []) t"
proof -
  let ?bs = "filter (\<lambda>b. time_IsZero (pLib r) (deletionTimestamp (imeta b)) \<and> hostType (ispec b) = t) items"
  note seen = cluster_List[OF C list]
  have "of_type (group_instances (pLib r) items []) t = map Some ?bs" by (simp add: of_type_group) (simp add: of_type_def)
  moreover have "set ?bs = live_of live w1 t" using seen by (auto simp: live_of_def)
  moreover have "length ?bs < 2 ^ 31" using assms(4) length_filter_le le_less_trans by blast
  ultimately show ?thesis using seen unfolding tracked_def by (metis distinct_filter)
qed

section \<open>Published host sets\<close>

lemma strings_sorted_strict:
  fixes ks :: "string list"
  shows "sorted ks \<Longrightarrow> distinct ks \<Longrightarrow> sorted_wrt (<) ks"
  by (simp add: strict_sorted_iff)

lemma host_sets_of:
  assumes "wf_map m"
  shows "\<exists>hs. statusHostSets (pstatus (updateStatusHostSets p m)) = Some hs \<and> sorted_wrt (<) (map hsHostType hs) \<and>
    set hs = {\<lparr>hsHostType = t, hsReplicas = of_nat (length (of_type m t))\<rparr> |t. of_type m t \<noteq> []}"
proof -
  let ?xs = "map (\<lambda>(t, xs). \<lparr>hsHostType = t, hsReplicas = of_nat (length xs)\<rparr>) (filter (\<lambda>(t, xs). length xs > 0) m) :: host_set list"
  have keys: "map hsHostType ?xs = map fst (filter (\<lambda>(t, xs). length xs > 0) m)" by auto
  have "distinct (map fst (filter (\<lambda>(t, xs). length xs > 0) m))"
    using assms by (simp add: wf_map_def distinct_map_filter)
  moreover have "mset (map hsHostType (sort_key hsHostType ?xs)) = mset (map hsHostType ?xs)"
    by (simp only: mset_map mset_sort)
  ultimately have "distinct (map hsHostType (sort_key hsHostType ?xs))"
    using keys mset_eq_imp_distinct_iff by metis
  moreover have "sorted (map hsHostType (sort_key hsHostType ?xs))" by (rule sorted_sort_key)
  ultimately have "sorted_wrt (<) (map hsHostType (sort_key hsHostType ?xs))" by (rule strings_sorted_strict[rotated])
  moreover have "set (sort_key hsHostType ?xs)
      = {\<lparr>hsHostType = t, hsReplicas = of_nat (length (of_type m t))\<rparr> |t. of_type m t \<noteq> []}"
  proof -
    have "(t, xs) \<in> set m \<and> xs \<noteq> [] \<longleftrightarrow> xs = of_type m t \<and> of_type m t \<noteq> []" for t xs
    proof (cases "map_of m t")
      case None
      then have "(t, xs) \<notin> set m" by (force simp: map_of_eq_None_iff)
      then show ?thesis using None by (simp add: of_type_def)
    next
      case (Some ys)
      have "(t, xs) \<in> set m \<longleftrightarrow> map_of m t = Some xs" using assms by (simp add: wf_map_def)
      then show ?thesis using Some by (auto simp: of_type_def)
    qed
    then have "{(t, xs). (t, xs) \<in> set m \<and> xs \<noteq> []} = {(t, of_type m t) |t. of_type m t \<noteq> []}" by blast
    moreover have "set (filter (\<lambda>(t, xs). length xs > 0) m) = {(t, xs). (t, xs) \<in> set m \<and> xs \<noteq> []}" by auto
    ultimately show ?thesis by (simp add: image_Collect)
  qed
  ultimately show ?thesis by (simp add: updateStatusHostSets_def)
qed

section \<open>When no call fails\<close>

definition reliable :: "('p, 'w) pool_reconciler \<Rightarrow> bool" where
  "reliable r \<longleftrightarrow> (\<forall>b w. fst (pCreate r b w) = None) \<and> (\<forall>b w. fst (pDelete r b w) = None) \<and>
     (\<forall>p b. \<exists>b'. SetControllerReference r p b = Inr b')"

lemma reliable_calls:
  "reliable r \<Longrightarrow> fst (pCreate r b w) = None" "reliable r \<Longrightarrow> fst (pDelete r b w) = None"
  "reliable r \<Longrightarrow> SetControllerReference r p b \<noteq> Inl e"
  unfolding reliable_def by (blast, blast, metis sum.distinct(1))

lemma create_reliable:
  assumes "lib_laws (pLib r)" and "reliable r"
  shows "fst (createBareMetalInstanceCR r p ht prof w) \<noteq> StepFailed e"
proof
  assume "fst (createBareMetalInstanceCR r p ht prof w) = StepFailed e"
  moreover have "pCreate r cr w1 = (err, w2) \<Longrightarrow> err = None" for cr w1 err w2
    using reliable_calls(1)[OF assms(2), of cr w1] by simp
  ultimately show False
    using assms(1) reliable_calls(3)[OF assms(2)]
    by (fastforce simp: createBareMetalInstanceCR_def Let_def split: prod.splits option.splits sum.splits if_splits)
qed

lemma scaleUp_reliable:
  assumes "lib_laws (pLib r)" and "reliable r"
  shows "fst (scaleUp_loop r ht prof n p m w) \<noteq> StepFailed e"
proof (induction n arbitrary: m w)
  case (Suc n)
  obtain st w1 where "createBareMetalInstanceCR r p ht prof w = (st, w1)" by fastforce
  then show ?case using create_reliable[OF assms, of p ht prof w] Suc by (cases st) auto
qed simp

lemma scaleDown_reliable:
  assumes "lib_laws (pLib r)" and "reliable r"
  shows "fst (scaleDownBareMetalInstances r p ht n m w) \<noteq> StepFailed e"
proof (induction m w rule: scaleDown_induct[where ht = ht])
  case (shorter m w)
  show ?case
  proof (cases rule: scaleDown_cases[where replicas = n and m = m and ht = ht and r = r and w = w])
    case stop
    then show ?thesis by (simp add: scaleDown_stop)
  next
    case panic
    then show ?thesis by (simp add: scaleDown_panic)
  next
    case (failure b err w1)
    then have "err = None" using reliable_calls(2)[OF assms(2), of b w] by simp
    then show ?thesis using failure(5) assms(1) by simp
  next
    case (delete b err w1)
    have "butlast (of_type m ht) \<noteq> [] \<Longrightarrow>
        fst (scaleDownBareMetalInstances r p ht n (AList.update ht (butlast (of_type m ht)) m) w1) \<noteq> StepFailed e"
      by (rule shorter.IH) (use delete(2) in simp)
    then show ?thesis by (simp add: scaleDown_step[OF delete] Let_def)
  qed
qed

lemma replica_loop_reliable:
  assumes "lib_laws (pLib r)" and "reliable r"
  shows "fst (replica_loop r prof ts p m w) \<noteq> StepFailed e"
  using assms scaleUp_reliable[OF assms] scaleDown_reliable[OF assms]
proof (induction ts arbitrary: p m w)
  case (Cons x ts)
  obtain ht n where x: "x = (ht, n)" by fastforce
  let ?d = "n - int32_len (of_type m ht)"
  obtain st p1 m1 w1 where one: "(if 0 < sint ?d then scaleUpBareMetalInstances r p ht ?d m prof w
      else if sint ?d < 0 then scaleDownBareMetalInstances r p ht n m w else (StepOk, p, m, w)) = (st, p1, m1, w1)"
    by (metis prod.exhaust)
  then have "st \<noteq> StepFailed e"
    using Cons.prems(3)[of ht prof "nat (sint ?d)" p m w e] Cons.prems(4)[of p ht n m w e]
    by (auto simp: scaleUpBareMetalInstances_def split: if_splits)
  then show ?case using Cons.IH[OF Cons.prems, of p1 m1 w1] one x by (simp add: Let_def)
qed simp

section \<open>Properties: replicas\<close>

text \<open>C12: Provided the controller is the only writer of the pool's instances, a pass over the replica counts
  that succeeds leaves, for every host type, exactly as many live instances as the last entry of
  the spec for that type asks for, and none of a type the spec does not name; and it publishes
  exactly the non-zero counts, strictly sorted by host type. It does succeed when no request fails.
  The order in which the map of desired counts is visited does not matter.\<close>

theorem replicas_converge:
  assumes "lib_laws (pLib r)" and "pool_api_laws r" and "owner_laws r" and C: "cluster_laws r p live" and "fresh_names r"
    and "\<forall>hs \<in> set (hostSets (pspec p)). 0 \<le> sint (hsReplicas hs)"
    and "prof = None \<or> poolProfile (pspec p) \<noteq> None"
    and list: "pList r (objNamespace (pmeta p)) (pool_label p) w = (Inr items, w1)" and "length items < 2 ^ 31"
    and run: "reconcileBareMetalInstances r p (group_instances (pLib r) items []) prof w1 = (st, p2, w2)"
  shows "(st = StepOk \<longrightarrow>
      (\<forall>t. card (live_of live w2 t) = nat (sint (wanted p t))) \<and>
      (\<exists>hs. statusHostSets (pstatus p2) = Some hs \<and> sorted_wrt (<) (map hsHostType hs) \<and>
         set hs = {\<lparr>hsHostType = t, hsReplicas = wanted p t\<rparr> |t. wanted p t \<noteq> 0})) \<and>
    (reliable r \<longrightarrow> st = StepOk)"
proof -
  let ?m = "group_instances (pLib r) items []" and ?ts = "rangeOrder r w1 (desiredReplicas p (group_instances (pLib r) items []))"
  obtain p1 m1 where loop: "replica_loop r prof ?ts p ?m w1 = (st, p1, m1, w2)" and p2: "p2 = updateStatusHostSets p1 m1"
    using run by (auto simp: reconcileBareMetalInstances_def split: prod.splits)
  have tr: "tracked live w1 ?m t" for t by (rule group_tracked[OF assms(1) C list assms(9)])
  note order = range_order_keys[OF assms(2), of "desiredReplicas p ?m" w1, OF wf_desiredReplicas]
  have look: "(t, n) \<in> set ?ts \<longleftrightarrow> map_of (desiredReplicas p ?m) t = Some n" for t n
    using order(2) wf_desiredReplicas[of p ?m] by (simp add: wf_map_def)
  have val_eq: "n = wanted p t" if "(t, n) \<in> set ?ts" for t n using that look desired_value by metis
  have pre: "\<forall>(t, n) \<in> set ?ts. 0 \<le> sint n \<and> tracked live w1 ?m t"
    using val_eq wanted_nonneg[OF assms(6)] tr by auto
  have ok: "(\<forall>t. card (live_of live w2 t) = nat (sint (wanted p t))) \<and>
      (\<exists>hs. statusHostSets (pstatus p2) = Some hs \<and> sorted_wrt (<) (map hsHostType hs) \<and>
         set hs = {\<lparr>hsHostType = t, hsReplicas = wanted p t\<rparr> |t. wanted p t \<noteq> 0})" if st: "st = StepOk"
  proof -
    have "\<forall>t. counted live w1 ?m t" by (intro allI tracked_counted tr)
    note final = replica_loop_counts[OF assms(1,3) C assms(5) order(1) pre this loop[unfolded st]]
    have len: "length (of_type m1 t) = nat (sint (wanted p t))" for t
    proof (cases "map_of (desiredReplicas p ?m) t")
      case None
      then have "t \<notin> fst ` set ?ts" using look by force
      then have "of_type m1 t = of_type ?m t" using final by blast
      then show ?thesis using undesired_value[OF None] by simp
    next
      case (Some n)
      then show ?thesis using final look val_eq by fastforce
    qed
    have "of_nat (length (of_type m1 t)) = wanted p t" for t
      using wanted_nonneg[OF assms(6), of t] by (simp add: len)
    moreover have "of_type m1 t \<noteq> [] \<longleftrightarrow> wanted p t \<noteq> 0" for t
      using calculation[of t] len[of t] by (auto simp flip: length_0_conv)
    moreover have "wf_map m1" using final by simp
    moreover have "p1 = p" using final by simp
    ultimately show ?thesis using host_sets_of[of m1 p] final len p2 by (auto simp: counted_def)
  qed
  have "fst (replica_loop r prof ?ts p ?m w1) \<noteq> StepPanics"
    by (rule replica_loop_no_panic[OF assms(7) order(1) _ same_pool_refl]) (use pre in \<open>auto simp: tracked_def\<close>)
  then have "st \<noteq> StepPanics" using loop by simp
  then have "st = StepOk" if "reliable r"
    using replica_loop_reliable[OF assms(1) that, of prof ?ts p ?m w1] loop by (cases st) auto
  then show ?thesis using ok by blast
qed

text \<open>A small cluster for the examples: the world is the list of instances; a created object is given a
  new UID.\<close>

definition ref_pool_create :: "bmi \<Rightarrow> bmi list \<Rightarrow> go_error option \<times> bmi list" where
  "ref_pool_create b bs =
     (None, b\<lparr>imeta := (imeta b)\<lparr>objUID := ''u'' @ concat (map (\<lambda>x. objUID (imeta x)) bs)\<rparr>\<rparr> # bs)"

definition demo_pool_reconciler :: "(unit, bmi list) pool_reconciler" where
  "demo_pool_reconciler = \<lparr>pLib = ref_lib, pGet = (\<lambda>k w. (Inl (ForeignError ''not found''), w)),
     pUpdate = (\<lambda>p w. (Inr p, w)), pStatusUpdate = (\<lambda>p w. (Inr p, w)), pDeepEqual = (=),
     pList = (\<lambda>ns l w. (Inr (remdups w), w)), pCreate = ref_pool_create, pDelete = (\<lambda>b w. (None, removeAll b w)),
     SetControllerReference = (\<lambda>p b. Inr (b\<lparr>imeta := (imeta b)\<lparr>ownerReferences := [pool_ref p]\<rparr>\<rparr>)),
     rand_String = (\<lambda>n w. (''x7k2p'', w)), rangeOrder = (\<lambda>w xs. rev xs),
     registeredProfiles = [(''ml'', demo_profile ''ml'')], yaml_Unmarshal = (\<lambda>s. Inr [(''image'', JString s)]),
     provider = Some (), HostReadyPollIntervalDuration = 10, HostDeletionPollIntervalDuration = 5,
     ProvisionJobPollIntervalDuration = 60, MaxJobHistory = 10,
     pool_ComputeDesiredConfigVersion = (\<lambda>sp. Inr ''v1''),
     pool_RunProvisioningLifecycle = (\<lambda>prov hooks s. ((no_requeue, None), s)),
     pool_RunDeprovisioningLifecycle = (\<lambda>prov hooks s. ((no_requeue, True, None), s)),
     pool_CheckAPIServerForNonTerminalProvisionJob = (\<lambda>k w. (False, w))\<rparr>"

definition demo_live :: "bmi list \<Rightarrow> bmi set" where
  "demo_live w = {b \<in> set w. time_IsZero ref_lib (deletionTimestamp (imeta b))}"

definition demo_pool :: pool where
  "demo_pool = \<lparr>pmeta = (imeta demo_bmi)\<lparr>objName := ''pool'', objUID := ''p1'', ownerReferences := [],
       finalizers := [BareMetalPoolFinalizer]\<rparr>,
     pspec = \<lparr>hostSets = [\<lparr>hsHostType = ''gpu'', hsReplicas = 0\<rparr>, \<lparr>hsHostType = ''cpu'', hsReplicas = 3\<rparr>],
       poolProfile = None\<rparr>,
     pstatus = \<lparr>poolPhase = BareMetalPoolPhaseUnset, statusHostSets = None, poolJobs = None,
       poolDesiredConfigVersion = '''', poolConditions = None\<rparr>\<rparr>"

lemma concat_uid_fresh: "b \<in> set bs \<Longrightarrow> length (objUID (imeta b)) \<le> length (concat (map (\<lambda>x. objUID (imeta x)) bs))"
  by (induction bs) auto

lemma ref_pool_create_fresh:
  assumes "ref_pool_create b bs = (err, bs')"
  shows "\<exists>b'. b' \<notin> set bs \<and> hostType (ispec b') = hostType (ispec b) \<and>
    deletionTimestamp (imeta b') = deletionTimestamp (imeta b) \<and> bs' = b' # bs"
proof -
  let ?b = "b\<lparr>imeta := (imeta b)\<lparr>objUID := ''u'' @ concat (map (\<lambda>x. objUID (imeta x)) bs)\<rparr>\<rparr>"
  have "?b \<notin> set bs" using concat_uid_fresh[of ?b bs] by auto
  then show ?thesis using assms by (intro exI[of _ ?b]) (auto simp: ref_pool_create_def)
qed

lemma demo_pool_laws:
  "lib_laws (pLib demo_pool_reconciler)" "pool_api_laws demo_pool_reconciler" "owner_laws demo_pool_reconciler"
  "fresh_names demo_pool_reconciler" "reliable demo_pool_reconciler"
  by (simp_all add: demo_pool_reconciler_def ref_lib_laws pool_api_laws_def owner_laws_def fresh_names_def reliable_def
      ref_pool_create_def)

lemma demo_cluster: "cluster_laws demo_pool_reconciler p demo_live"
proof -
  have [simp]: "pLib demo_pool_reconciler = ref_lib" "pList demo_pool_reconciler ns l w = (Inr (remdups w), w)"
    "pDelete demo_pool_reconciler b w = (None, removeAll b w)" "pCreate demo_pool_reconciler = ref_pool_create"
    "rand_String demo_pool_reconciler n w = (''x7k2p'', w)" for ns l w b n
    by (simp_all add: demo_pool_reconciler_def)
  have "\<exists>b'. b' \<notin> demo_live w \<and> hostType (ispec b') = hostType (ispec b) \<and> demo_live w' = insert b' (demo_live w)"
    if "deletionTimestamp (imeta b) = None" "ref_pool_create b w = (None, w')" for b w w'
  proof -
    from ref_pool_create_fresh[OF that(2)] obtain b' where b': "b' \<notin> set w" "hostType (ispec b') = hostType (ispec b)"
      "deletionTimestamp (imeta b') = deletionTimestamp (imeta b)" "w' = b' # w" by blast
    then have "time_IsZero ref_lib (deletionTimestamp (imeta b'))" using that(1) by (simp add: ref_lib_laws)
    then show ?thesis using b' by (intro exI[of _ b']) (auto simp: demo_live_def)
  qed
  then show ?thesis
    unfolding cluster_laws_def by (auto simp: demo_live_def)
qed

theorem replicas_converge_witness:
  "\<exists>p2 w2. reconcileBareMetalInstances demo_pool_reconciler demo_pool (group_instances ref_lib [demo_bmi] []) None [demo_bmi]
       = (StepOk, p2, w2) \<and>
     card (live_of demo_live w2 ''cpu'') = 3 \<and> card (live_of demo_live w2 ''gpu'') = 0"
proof -
  have lib: "pLib demo_pool_reconciler = ref_lib" by (simp add: demo_pool_reconciler_def)
  obtain st p2 w2 where run: "reconcileBareMetalInstances demo_pool_reconciler demo_pool
      (group_instances (pLib demo_pool_reconciler) [demo_bmi] []) None [demo_bmi] = (st, p2, w2)"
    by (metis prod.exhaust)
  have list: "pList demo_pool_reconciler (objNamespace (pmeta demo_pool)) (pool_label demo_pool) [demo_bmi]
      = (Inr [demo_bmi], [demo_bmi])"
    by (simp add: demo_pool_reconciler_def)
  have nonneg: "\<forall>hs \<in> set (hostSets (pspec demo_pool)). 0 \<le> sint (hsReplicas hs)" by (simp add: demo_pool_def)
  note conv = replicas_converge[OF demo_pool_laws(1-3) demo_cluster demo_pool_laws(4) nonneg _ list _ run]
  have "wanted demo_pool ''cpu'' = 3" "wanted demo_pool ''gpu'' = 0" by (simp_all add: wanted_def demo_pool_def)
  then show ?thesis using conv run lib demo_pool_laws(5) by auto
qed

section \<open>Properties: panics, deletion, readiness\<close>

lemma validateProfile_profile:
  "validateProfile r p = ((prof, ok), p') \<Longrightarrow> pspec p' = pspec p \<and> (prof = None \<or> poolProfile (pspec p) \<noteq> None)"
  by (auto simp: validateProfile_def split: option.splits if_splits)

lemma ensureFinalizer_spec:
  "pool_api_laws r \<Longrightarrow> ensureFinalizer r p w = (e, p', w') \<Longrightarrow>
     pspec p' = pspec p \<and> objUID (pmeta p') = objUID (pmeta p) \<and> objNamespace (pmeta p') = objNamespace (pmeta p)"
  by (auto simp: ensureFinalizer_def same_pool_def Let_def split: prod.splits sum.splits if_splits dest!: pool_Update_ok)

lemma listing_spec:
  "listAndGroupBareMetalInstances r p w = (res, p', w') \<Longrightarrow> same_pool p p' \<and>
     (\<forall>m t. res = Inr m \<longrightarrow> None \<notin> set (of_type m t))"
  by (auto simp: listAndGroupBareMetalInstances_def same_pool_def of_type_group of_type_def[of "[]"]
      split: prod.splits sum.splits)

lemma reconcile_no_panic:
  assumes "pool_api_laws r" and "\<forall>hs \<in> set (hostSets (pspec p)). 0 \<le> sint (hsReplicas hs)"
    and "prof = None \<or> poolProfile (pspec p) \<noteq> None" and "\<And>t. None \<notin> set (of_type m t)"
  shows "fst (reconcileBareMetalInstances r p m prof w) \<noteq> StepPanics"
proof -
  let ?ts = "rangeOrder r w (desiredReplicas p m)"
  note order = range_order_keys[OF assms(1), of "desiredReplicas p m" w, OF wf_desiredReplicas]
  have look: "(t, n) \<in> set ?ts \<Longrightarrow> n = wanted p t" for t n
    using order(2) wf_desiredReplicas[of p m] desired_value[of p m t n] by (simp add: wf_map_def)
  have "fst (replica_loop r prof ?ts p m w) \<noteq> StepPanics"
    by (rule replica_loop_no_panic[OF assms(3) order(1) _ same_pool_refl])
      (use look wanted_nonneg[OF assms(2)] assms(4) in auto)
  then show ?thesis by (auto simp: reconcileBareMetalInstances_def split: prod.splits)
qed

lemma reconcile_pool_hosts_no_panic:
  assumes "pool_api_laws r" and "\<forall>hs \<in> set (hostSets (pspec p)). 0 \<le> sint (hsReplicas hs)"
    and "prof = None \<or> poolProfile (pspec p) \<noteq> None"
  shows "fst (reconcile_pool_hosts r prof p w) \<noteq> Panics"
proof -
  obtain e p1 w1 where fin: "ensureFinalizer r p w = (e, p1, w1)" by (metis prod.exhaust)
  let ?p1 = "if statusHostSets (pstatus p1) = None then set_statusHostSets (Some []) p1 else p1"
  obtain res p2 w2 where list: "listAndGroupBareMetalInstances r ?p1 w1 = (res, p2, w2)" by (metis prod.exhaust)
  have spec: "pspec p2 = pspec p"
    using ensureFinalizer_spec[OF assms(1) fin] listing_spec[OF list] by (auto simp: same_pool_def split: if_splits)
  show ?thesis
  proof (cases "\<exists>m. e = None \<and> res = Inr m")
    case True
    then obtain m where m: "e = None" "res = Inr m" by blast
    have "fst (reconcileBareMetalInstances r p2 m prof w2) \<noteq> StepPanics"
      by (rule reconcile_no_panic[OF assms(1)]) (use assms(2,3) spec listing_spec[OF list] m in auto)
    then obtain st p3 w3 where "reconcileBareMetalInstances r p2 m prof w2 = (st, p3, w3)" "st \<noteq> StepPanics"
      by (metis fst_conv prod.exhaust)
    then show ?thesis using fin list m
      by (cases st) (auto simp: reconcile_pool_hosts_def Let_def split: prod.splits option.splits)
  next
    case False
    then show ?thesis using fin list
      by (cases e; cases res) (auto simp: reconcile_pool_hosts_def Let_def)
  qed
qed

lemma handleUpdate_no_panic:
  assumes "pool_api_laws r" and "\<forall>hs \<in> set (hostSets (pspec p)). 0 \<le> sint (hsReplicas hs)"
  shows "fst (pool_handleUpdate r p w) \<noteq> Panics"
proof -
  have "fst (case validateProfile r q of ((prof, ok), p1) \<Rightarrow>
      if \<not> ok then (Returns ok_done, p1, w) else reconcile_pool_hosts r prof p1 w) \<noteq> Panics"
    if "pspec q = pspec p" for q
  proof -
    obtain prof ok p1 where v: "validateProfile r q = ((prof, ok), p1)" by (metis prod.exhaust)
    then show ?thesis
      using validateProfile_profile[OF v] reconcile_pool_hosts_no_panic[OF assms(1), of p1 prof w] assms(2) that by simp
  qed
  then show ?thesis by (simp add: pool_handleUpdate_def Let_def split: sum.split)
qed

text \<open>C20: A reconcile of a pool whose spec has no negative replica count never panics: no list is indexed
  below zero, no nil pointer is deleted (although nil entries stand for the instances just created)
  and no missing profile is read, whatever the API answers and in whatever order the map of desired
  counts is visited.\<close>

theorem pool_reconcile_never_panics:
  assumes "pool_api_laws r"
    and "\<And>w p w1. pGet r key w = (Inr p, w1) \<Longrightarrow> \<forall>hs \<in> set (hostSets (pspec p)). 0 \<le> sint (hsReplicas hs)"
  shows "fst (pool_Reconcile r key w) \<noteq> Panics"
proof -
  have "fst (pool_handleUpdate r p w1) \<noteq> Panics" if "pGet r key w = (Inr p, w1)" for p w1
    by (rule handleUpdate_no_panic[OF assms(1) assms(2)[OF that]])
  then show ?thesis
    by (fastforce simp: pool_Reconcile_def Let_def split: prod.splits sum.splits pool_outcome.splits if_splits)
qed

theorem pool_reconcile_never_panics_witness:
  "fst (pool_Reconcile (demo_pool_reconciler\<lparr>pGet := \<lambda>k w. (Inr demo_pool, w)\<rparr>) (''ns'', ''pool'') []) \<noteq> Panics"
proof (rule pool_reconcile_never_panics)
  show "pool_api_laws (demo_pool_reconciler\<lparr>pGet := \<lambda>k w. (Inr demo_pool, w)\<rparr>)"
    using demo_pool_laws(2) by (simp add: pool_api_laws_def)
  fix w p w1
  assume "pGet (demo_pool_reconciler\<lparr>pGet := \<lambda>k w. (Inr demo_pool, w)\<rparr>) (''ns'', ''pool'') w = (Inr p, w1)"
  then have "p = demo_pool" by simp
  then show "\<forall>hs \<in> set (hostSets (pspec p)). 0 \<le> sint (hsReplicas hs)" by (simp add: demo_pool_def)
qed

text \<open>The profile a pool names, if it is registered.\<close>

definition profile_of :: "('p, 'w) pool_reconciler \<Rightarrow> pool \<Rightarrow> profile option" where
  "profile_of r p = (case poolProfile (pspec p) of None \<Rightarrow> None | Some ps \<Rightarrow> Get (registeredProfiles r) (profileName ps))"

lemma drop_pool_finalizer_keeps:
  "pool_api_laws r \<Longrightarrow> drop_pool_finalizer r p w = (res, p', w') \<Longrightarrow> pspec p' = pspec p"
  by (auto simp: drop_pool_finalizer_def Let_def same_pool_def split: prod.splits sum.splits if_splits dest!: pool_Update_ok)

lemma pool_failed_finalizers: "finalizers (pmeta (pool_failed r msg p)) = finalizers (pmeta p)" by simp

lemma deprovisioning_result:
  assumes "pool_api_laws r" and "pool_reconcileDeprovisioning r p tmpl w = ((result, fin, err), p', w')"
  shows "finalizers (pmeta p') = finalizers (pmeta p)"
    and "fin \<Longrightarrow> \<exists>q. same_pool p q \<and>
      (\<exists>f. fst (pool_RunDeprovisioningLifecycle r (provider r) (pool_job_hooks r) (q, w)) = (result, f, err) \<and>
         (f \<or> result_IsZero (pLib r) result \<and> err = None))"
proof -
  obtain f q w1 where run: "pool_RunDeprovisioningLifecycle r (provider r) (pool_job_hooks r)
      (set_template_annotation tmpl p, w) = ((result, f, err), (q, w1))"
    and fin: "fin = (if \<not> f \<and> result_IsZero (pLib r) result \<and> err = None then True else f)" and "p' = q"
    using assms(2) by (auto simp: pool_reconcileDeprovisioning_def Let_def split: prod.splits)
  show "finalizers (pmeta p') = finalizers (pmeta p)"
    using pool_RunDe_ok[OF assms(1) run] \<open>p' = q\<close> by (simp add: same_pool_def)
  have "same_pool p (set_template_annotation tmpl p)" by (simp add: same_pool_def)
  then show "fin \<Longrightarrow> \<exists>q. same_pool p q \<and>
      (\<exists>f. fst (pool_RunDeprovisioningLifecycle r (provider r) (pool_job_hooks r) (q, w)) = (result, f, err) \<and>
         (f \<or> result_IsZero (pLib r) result \<and> err = None))"
    using run fin by (intro exI[of _ "set_template_annotation tmpl p"]) (auto split: if_splits)
qed

definition torn_down :: "('p, 'w) pool_reconciler \<Rightarrow> pool \<Rightarrow> 'w \<Rightarrow> bool" where
  "torn_down r p w \<longleftrightarrow> provider r \<noteq> None \<and>
     (\<exists>q result f. same_pool p q \<and>
        fst (pool_RunDeprovisioningLifecycle r (provider r) (pool_job_hooks r) (q, w)) = (result, f, None) \<and>
        (f \<or> result_IsZero (pLib r) result))"

lemma torn_down_same: "same_pool p q \<Longrightarrow> torn_down r q w \<Longrightarrow> torn_down r p w"
  unfolding torn_down_def using same_pool_trans by blast

lemma teardown_finalizer:
  assumes "pool_api_laws r" and "teardown r p w = (res, p', w')"
    and "BareMetalPoolFinalizer \<in> set (finalizers (pmeta p))" and "BareMetalPoolFinalizer \<notin> set (finalizers (pmeta p'))"
    and "runs_pool_template (profile_of r p)"
  shows "torn_down r p w"
proof -
  let ?tmpl = "BareMetalPoolTemplate (the (profile_of r p))"
  have prov: "provider r \<noteq> None"
  proof
    assume "provider r = None"
    then show False using assms(2-5) by (auto simp: teardown_def profile_of_def[symmetric] Let_def)
  qed
  obtain result fin err p1 w1 where dep: "pool_reconcileDeprovisioning r p ?tmpl w = ((result, fin, err), p1, w1)"
    by (metis prod.exhaust)
  note facts = deprovisioning_result[OF assms(1) dep]
  have "err = None \<and> fin"
    using assms(2-5) prov dep facts(1) by (auto simp: teardown_def profile_of_def[symmetric] Let_def split: if_splits)
  then show ?thesis using facts(2) prov unfolding torn_down_def by (metis (full_types))
qed

text \<open>C13: The deletion of a pool drops its finalizer (which lets the object go) only in a call that listed the
  pool's instances and found none left, deleted ones included, and, when the pool's profile runs a
  workflow, only after the deprovisioning lifecycle of a configured provider has reported in that
  same call that it is finished or was skipped. As long as one instance is listed the call ends
  with the configured poll interval or with an error.\<close>

theorem pool_deletion_waits_for_instances:
  assumes "pool_api_laws r" and "pool_handleDeletion r p w = (res, p', w')"
    and "BareMetalPoolFinalizer \<in> set (finalizers (pmeta p))"
  shows "(BareMetalPoolFinalizer \<notin> set (finalizers (pmeta p')) \<longrightarrow>
      (\<exists>w1. pList r (objNamespace (pmeta p)) (pool_label p) w = (Inr [], w1) \<and>
         (runs_pool_template (profile_of r p) \<longrightarrow> torn_down r p w1))) \<and>
    (\<forall>b bs w1. pList r (objNamespace (pmeta p)) (pool_label p) w = (Inr (b # bs), w1) \<longrightarrow>
      res = (requeue_after (HostDeletionPollIntervalDuration r), None) \<or> (\<exists>e. res = failed_with e))"
proof -
  let ?q0 = "set_pool_condition (pLib r) BareMetalPoolConditionTypeReady ConditionFalse
                ''BareMetalPool is being torn down'' BareMetalPoolReasonDeleting
                (set_pool_phase BareMetalPoolPhaseDeleting p)"
  let ?q = "if poolJobs (pstatus ?q0) = None then set_poolJobs (Some []) ?q0 else ?q0"
  have q: "same_pool p ?q" "objNamespace (pmeta ?q) = objNamespace (pmeta p)" "pool_label ?q = pool_label p"
    "profile_of r ?q = profile_of r p" "finalizers (pmeta ?q) = finalizers (pmeta p)"
    by (simp_all add: same_pool_def pool_label_def profile_of_def)
  obtain items w1 where list: "pList r (objNamespace (pmeta p)) (pool_label p) w = (items, w1)" by fastforce
  have run: "pool_handleDeletion r p w =
      (case items of Inl err \<Rightarrow> (failed_with err, ?q, w1)
       | Inr items \<Rightarrow> (case delete_instances r items w1 of
            (Some err, w2) \<Rightarrow> (failed_with err, ?q, w2)
          | (None, w2) \<Rightarrow> if length items > 0
              then ((requeue_after (HostDeletionPollIntervalDuration r), None), ?q, w2) else teardown r ?q w2))"
    using list q(2,3) by (simp add: pool_handleDeletion_def Let_def)
  have "\<exists>w1. pList r (objNamespace (pmeta p)) (pool_label p) w = (Inr [], w1) \<and>
         (runs_pool_template (profile_of r p) \<longrightarrow> torn_down r p w1)"
    if gone: "BareMetalPoolFinalizer \<notin> set (finalizers (pmeta p'))"
  proof -
    have "items = Inr []" and td: "teardown r ?q w1 = (res, p', w')"
      using run assms(2,3) gone q(5) by (auto split: sum.splits prod.splits option.splits if_splits)
    then show ?thesis
      using list teardown_finalizer[OF assms(1) td _ gone] torn_down_same[OF q(1)] assms(3) q(4,5)
      by (intro exI[of _ w1]) auto
  qed
  moreover have "res = (requeue_after (HostDeletionPollIntervalDuration r), None) \<or> (\<exists>e. res = failed_with e)"
    if "items = Inr (b # bs)" for b bs
    using run assms(2) that by (auto split: prod.splits option.splits if_splits)
  ultimately show ?thesis using list by auto
qed

theorem pool_deletion_waits_for_instances_witness:
  "BareMetalPoolFinalizer \<notin> set (finalizers (pmeta (fst (snd (pool_handleDeletion demo_pool_reconciler demo_pool []))))) \<and>
   (let (res, p', w') = pool_handleDeletion demo_pool_reconciler demo_pool [demo_bmi]
    in res = (requeue_after 5, None) \<or> (\<exists>e. res = failed_with e))"
proof -
  obtain res p' w' where run: "pool_handleDeletion demo_pool_reconciler demo_pool [demo_bmi] = (res, p', w')"
    by (metis prod.exhaust)
  have fin: "BareMetalPoolFinalizer \<in> set (finalizers (pmeta demo_pool))" by (simp add: demo_pool_def)
  have "pList demo_pool_reconciler (objNamespace (pmeta demo_pool)) (pool_label demo_pool) [demo_bmi]
      = (Inr [demo_bmi], [demo_bmi])" "HostDeletionPollIntervalDuration demo_pool_reconciler = 5"
    by (simp_all add: demo_pool_reconciler_def)
  then have "res = (requeue_after 5, None) \<or> (\<exists>e. res = failed_with e)"
    using pool_deletion_waits_for_instances[OF demo_pool_laws(2) run fin] by simp
  moreover have "BareMetalPoolFinalizer \<notin> set (finalizers (pmeta (fst (snd (pool_handleDeletion demo_pool_reconciler demo_pool [])))))"
    by (simp add: pool_handleDeletion_def teardown_def runs_pool_template_def drop_pool_finalizer_def demo_pool_reconciler_def
        demo_pool_def ref_lib_def Let_def)
  ultimately show ?thesis using run by simp
qed

definition ready_status :: "('p, 'w) pool_reconciler \<Rightarrow> pool \<Rightarrow> condition_status option" where
  "ready_status r p = map_option cStatus (pool_GetStatusCondition (pLib r) BareMetalPoolConditionTypeReady p)"

lemma ready_status_set [simp]:
  "lib_laws (pLib r) \<Longrightarrow>
     ready_status r (set_pool_condition (pLib r) BareMetalPoolConditionTypeReady s m reason p) = Some s"
  unfolding ready_status_def by (rule pool_conds.status_after_set(1))

lemma ready_status_failed [simp]: "lib_laws (pLib r) \<Longrightarrow> ready_status r (pool_failed r msg p) = Some ConditionFalse"
  by (simp add: pool_failed_def)

lemma ready_status_frame [simp]:
  "ready_status r (set_pool_phase ph p) = ready_status r p"
  "ready_status r (set_pool_finalizers fs p) = ready_status r p"
  "ready_status r (set_poolJobs js p) = ready_status r p"
  "ready_status r (set_statusHostSets hs p) = ready_status r p"
  "ready_status r (set_template_annotation tm p) = ready_status r p"
  "ready_status r (set_poolConfigVersion v p) = ready_status r p"
  "ready_status r (updateStatusHostSets p m) = ready_status r p"
  by (simp_all add: ready_status_def pool_GetStatusCondition_def updateStatusHostSets_def)

lemma ready_status_initialized:
  "ready_status r p \<noteq> None \<Longrightarrow> InitializeStatusConditions (pLib r) p = (if poolConditions (pstatus p) = None
     then p\<lparr>pstatus := (pstatus p)\<lparr>poolConditions := Some []\<rparr>\<rparr> else p)"
  by (auto simp: InitializeStatusConditions_def initializeStatusCondition_def Let_def ready_status_def
      pool_GetStatusCondition_def)

lemma ready_status_conditions:
  "ready_status r (p\<lparr>pstatus := (pstatus p)\<lparr>poolConditions := Some []\<rparr>\<rparr>) = ready_status r p"
  if "poolConditions (pstatus p) = None"
  using that by (simp add: ready_status_def pool_GetStatusCondition_def)

lemma first_unready_iff:
  "first_unready L bs \<longleftrightarrow>
     (\<exists>b \<in> set bs. time_IsZero L (deletionTimestamp (imeta b)) \<and> phase (istatus b) \<noteq> BareMetalInstancePhaseReady)"
  by (induction L bs rule: first_unready.induct) auto

lemma conclude_ready_cases:
  assumes "lib_laws (pLib r)" and "conclude_ready r p w = ((result, None), p', w')"
    and "poolPhase (pstatus p') = BareMetalPoolPhaseReady"
  shows "\<exists>items. pList r (objNamespace (pmeta p)) (pool_label p) w = (Inr items, w') \<and>
    (\<forall>b \<in> set items. time_IsZero (pLib r) (deletionTimestamp (imeta b)) \<longrightarrow>
       phase (istatus b) = BareMetalInstancePhaseReady) \<and> ready_status r p' = Some ConditionTrue"
  using assms
  by (auto simp: conclude_ready_def checkBareMetalInstancesReady_def first_unready_iff
      split: prod.splits sum.splits if_splits)

text \<open>What the steps before the readiness check keep of the pool's identity.\<close>

definition same_identity :: "pool \<Rightarrow> pool \<Rightarrow> bool" where
  "same_identity p p' \<longleftrightarrow> objNamespace (pmeta p') = objNamespace (pmeta p) \<and> pool_label p' = pool_label p"

lemma same_pool_identity: "same_pool p p' \<Longrightarrow> same_identity p p'"
  by (simp add: same_pool_def same_identity_def pool_label_def)

lemma same_identity_trans: "same_identity p q \<Longrightarrow> same_identity q s \<Longrightarrow> same_identity p s"
  by (simp add: same_identity_def)

lemma same_identity_frame [simp]:
  "same_identity p (set_statusHostSets hs q) = same_identity p q"
  "same_identity p (set_template_annotation tm q) = same_identity p q"
  "same_identity p (set_poolJobs js q) = same_identity p q"
  "same_identity p (updateStatusHostSets q m) = same_identity p q"
  "same_identity p (set_poolConfigVersion v q) = same_identity p q"
  "same_identity p (set_pool_phase ph q) = same_identity p q"
  "same_identity p (InitializeStatusConditions L q) = same_identity p q"
  "same_identity p p"
  by (simp_all add: same_identity_def pool_label_def)

lemma replica_loop_identity:
  "replica_loop r prof ts p m w = (st, p', m', w') \<Longrightarrow> same_pool p p'"
proof (induction ts arbitrary: p m w)
  case (Cons x ts)
  obtain ht n where x: "x = (ht, n)" by fastforce
  let ?d = "n - int32_len (of_type m ht)"
  obtain st1 p1 m1 w1 where one: "(if 0 < sint ?d then scaleUpBareMetalInstances r p ht ?d m prof w
      else if sint ?d < 0 then scaleDownBareMetalInstances r p ht n m w else (StepOk, p, m, w)) = (st1, p1, m1, w1)"
    by (metis prod.exhaust)
  have "same_pool p p1"
    using one scaleUp_keeps[of r ht prof "nat (sint ?d)" p m w st1 p1 m1 w1]
      scaleDown_keeps[of r p ht n m w st1 p1 m1 w1]
    by (auto simp: scaleUpBareMetalInstances_def split: if_splits)
  moreover have "same_pool p1 p'"
    using Cons.prems one x Cons.IH[of p1 m1 w1] by (auto simp: Let_def split: if_splits)
  ultimately show ?case by (rule same_pool_trans)
qed simp

text \<open>A step that succeeds leaves the pool object as it is.\<close>

lemma scaleUp_ok_pool: "scaleUp_loop r ht prof n p m w = (StepOk, p', m', w') \<Longrightarrow> p' = p"
  by (induction r ht prof n p m w rule: scaleUp_loop.induct) (auto split: prod.splits step.splits)

lemma scaleDown_ok_pool:
  assumes "lib_laws (pLib r)"
  shows "scaleDownBareMetalInstances r p ht replicas m w = (StepOk, p', m', w') \<Longrightarrow> p' = p"
proof (induction m w rule: scaleDown_induct[where ht = ht])
  case (shorter m w)
  show ?case
  proof (cases rule: scaleDown_cases[where replicas = replicas and m = m and ht = ht and r = r and w = w])
    case stop
    then show ?thesis using shorter.prems by (simp add: scaleDown_stop)
  next
    case panic
    then show ?thesis using shorter.prems by (simp add: scaleDown_panic)
  next
    case (failure b err w1)
    then have "err \<noteq> None" using lib_Ignore_None(1)[OF assms] by metis
    then show ?thesis using shorter.prems by (auto simp: scaleDown_failure[OF failure] step_of_def)
  next
    case (delete b err w1)
    then show ?thesis
      using shorter.prems shorter.IH[where m' = "AList.update ht (butlast (of_type m ht)) m" and w' = w1]
      by (auto simp: scaleDown_step[OF delete] Let_def split: if_splits)
  qed
qed

lemma replica_loop_ok_pool:
  assumes "lib_laws (pLib r)"
  shows "replica_loop r prof ts p m w = (StepOk, p', m', w') \<Longrightarrow> p' = p"
proof (induction ts arbitrary: p m w)
  case (Cons x ts)
  obtain ht n where x: "x = (ht, n)" by fastforce
  let ?d = "n - int32_len (of_type m ht)"
  obtain st p1 m1 w1 where one: "(if 0 < sint ?d then scaleUpBareMetalInstances r p ht ?d m prof w
      else if sint ?d < 0 then scaleDownBareMetalInstances r p ht n m w else (StepOk, p, m, w)) = (st, p1, m1, w1)"
    by (metis prod.exhaust)
  then have st: "st = StepOk" and rest: "replica_loop r prof ts p1 m1 w1 = (StepOk, p', m', w')"
    using Cons.prems x by (auto simp: Let_def split: if_splits)
  have "p1 = p" using one st scaleDown_ok_pool[OF assms]
    by (auto simp: scaleUpBareMetalInstances_def split: if_splits dest: scaleUp_ok_pool)
  then show ?case using Cons.IH[OF rest] by simp
qed simp

lemma reconcile_instances_identity:
  "reconcileBareMetalInstances r p m prof w = (st, p', w') \<Longrightarrow> same_identity p p'"
proof -
  assume run: "reconcileBareMetalInstances r p m prof w = (st, p', w')"
  obtain st1 p1 m1 w1 where loop: "replica_loop r prof (rangeOrder r w (desiredReplicas p m)) p m w = (st1, p1, m1, w1)"
    by (metis prod.exhaust)
  then have "p' = updateStatusHostSets p1 m1" using run by (simp add: reconcileBareMetalInstances_def)
  then show ?thesis using same_pool_identity[OF replica_loop_identity[OF loop]] by simp
qed

lemma pool_provisioning_identity:
  assumes "pool_api_laws r" and "pool_reconcileProvisioning r p tmpl w = (res, p', w')"
  shows "same_identity p p'"
proof -
  let ?p = "set_template_annotation tmpl (if poolJobs (pstatus p) = None then set_poolJobs (Some []) p else p)"
  have "same_pool ?p p'"
    using assms(2) by (auto simp: pool_reconcileProvisioning_def Let_def split: prod.splits dest!: pool_Run_ok[OF assms(1)])
  then have "same_identity ?p p'" by (rule same_pool_identity)
  moreover have "same_identity p ?p" by simp
  ultimately show ?thesis using same_identity_trans by blast
qed

lemma ensure_identity: "pool_api_laws r \<Longrightarrow> ensureFinalizer r p w = (e, p', w') \<Longrightarrow> same_identity p p'"
  using ensureFinalizer_spec[of r p w e p' w'] by (simp add: same_identity_def pool_label_def)

lemma listing_identity: "listAndGroupBareMetalInstances r p w = (res, p', w') \<Longrightarrow> same_identity p p'"
  using listing_spec[of r p w res p' w'] same_pool_identity by blast

lemma listing_phase:
  "listAndGroupBareMetalInstances r p w = (Inr m, p', w') \<Longrightarrow> p' = p"
  by (auto simp: listAndGroupBareMetalInstances_def split: prod.splits sum.splits)

text \<open>The last leg of a reconcile that ends without an error and without asking to be called again.\<close>

lemma reconcile_pool_hosts_ready:
  assumes "lib_laws (pLib r)" and A: "pool_api_laws r"
    and run: "reconcile_pool_hosts r prof p w = (Returns (no_requeue, None), p', w')"
  obtains q v where "same_identity p q" "conclude_ready r q v = ((no_requeue, None), p', w')"
proof -
  obtain e p1 w1 where fin: "ensureFinalizer r p w = (e, p1, w1)" by (metis prod.exhaust)
  let ?p1 = "if statusHostSets (pstatus p1) = None then set_statusHostSets (Some []) p1 else p1"
  obtain res p2 w2 where list: "listAndGroupBareMetalInstances r ?p1 w1 = (res, p2, w2)" by (metis prod.exhaust)
  obtain m where m: "e = None" "res = Inr m"
    using run fin list by (cases e; cases res) (auto simp: reconcile_pool_hosts_def Let_def)
  obtain st p3 w3 where scale: "reconcileBareMetalInstances r p2 m prof w2 = (st, p3, w3)" by (metis prod.exhaust)
  have st: "st = StepOk"
    using run fin list m scale by (cases st) (auto simp: reconcile_pool_hosts_def Let_def)
  have "same_identity p ?p1" using ensure_identity[OF A fin] by simp
  then have id3: "same_identity p p3"
    using listing_identity[OF list] reconcile_instances_identity[OF scale] same_identity_trans by blast
  show ?thesis
  proof (cases "runs_pool_template prof \<and> provider r \<noteq> None")
    case True
    obtain res4 p4 w4 where prov: "pool_reconcileProvisioning r p3 (BareMetalPoolTemplate (the prof)) w3 = (res4, p4, w4)"
      by (metis prod.exhaust)
    have "conclude_ready r p4 w4 = ((no_requeue, None), p', w')"
      using run fin list m scale st True prov assms(1)
      by (auto simp: reconcile_pool_hosts_def Let_def split: prod.splits option.splits if_splits)
    then show ?thesis using that pool_provisioning_identity[OF A prov] id3 same_identity_trans by blast
  next
    case False
    have "conclude_ready r p3 w3 = ((no_requeue, None), p', w')"
      using run fin list m scale st False by (auto simp: reconcile_pool_hosts_def Let_def split: prod.splits)
    then show ?thesis using that id3 by blast
  qed
qed

text \<open>C15: A reconcile of a pool that ends without an error, asks for no further call and leaves the phase
  Ready has, as its last request, listed the pool's instances, and every one of them that is not
  being deleted was in phase Ready itself; the Ready condition is true.\<close>

theorem pool_ready_is_earned:
  assumes "lib_laws (pLib r)" and "pool_api_laws r"
    and "pool_handleUpdate r p w = (Returns (no_requeue, None), p', w')"
    and "poolPhase (pstatus p') = BareMetalPoolPhaseReady"
  shows "(\<exists>v items. pList r (objNamespace (pmeta p)) (pool_label p) v = (Inr items, w') \<and>
      (\<forall>b \<in> set items. time_IsZero (pLib r) (deletionTimestamp (imeta b)) \<longrightarrow>
         phase (istatus b) = BareMetalInstancePhaseReady)) \<and> ready_status r p' = Some ConditionTrue"
proof -
  let ?p0 = "InitializeStatusConditions (pLib r) p"
  let ?p = "if poolPhase (pstatus ?p0) = BareMetalPoolPhaseUnset then set_pool_phase BareMetalPoolPhaseProgressing ?p0 else ?p0"
  obtain ver where ver: "pool_ComputeDesiredConfigVersion r (pspec ?p) = Inr ver"
    using assms(3,4) by (cases "pool_ComputeDesiredConfigVersion r (pspec ?p)")
      (auto simp: pool_handleUpdate_def Let_def split: if_splits)
  obtain prof ok p1 where v: "validateProfile r (set_poolConfigVersion ver ?p) = ((prof, ok), p1)" by (metis prod.exhaust)
  have step: "pool_handleUpdate r p w =
      (if poolProfile (pspec ?p) \<noteq> None \<and> provider r = None
       then (Returns ok_done, pool_failed r ''Provisioning provider not configured'' ?p, w)
       else if \<not> ok then (Returns ok_done, p1, w) else reconcile_pool_hosts r prof p1 w)"
    using ver v by (simp add: pool_handleUpdate_def Let_def)
  have "\<not> ok \<Longrightarrow> poolPhase (pstatus p1) = BareMetalPoolPhaseFailed" and "ok \<Longrightarrow> p1 = set_poolConfigVersion ver ?p"
    using v by (auto simp: validateProfile_def split: option.splits if_splits)
  then have run: "reconcile_pool_hosts r prof p1 w = (Returns (no_requeue, None), p', w')"
    and p1: "p1 = set_poolConfigVersion ver ?p"
    using step assms(3,4) by (auto split: if_splits)
  have id: "same_identity p p1" by (simp add: p1)
  from reconcile_pool_hosts_ready[OF assms(1,2) run] obtain q u where q: "same_identity p1 q"
    "conclude_ready r q u = ((no_requeue, None), p', w')" .
  then show ?thesis
    using conclude_ready_cases[OF assms(1) q(2) assms(4)] id by (auto simp: same_identity_def)
qed

theorem pool_ready_is_earned_witness:
  "let (out, p', w') = pool_handleUpdate demo_pool_reconciler
         (demo_pool\<lparr>pspec := (pspec demo_pool)\<lparr>hostSets := []\<rparr>\<rparr>) []
   in out = Returns (no_requeue, None) \<and> poolPhase (pstatus p') = BareMetalPoolPhaseReady \<and>
     ready_status demo_pool_reconciler p' = Some ConditionTrue"
proof -
  let ?p = "demo_pool\<lparr>pspec := (pspec demo_pool)\<lparr>hostSets := []\<rparr>\<rparr>"
  obtain out p' w' where run: "pool_handleUpdate demo_pool_reconciler ?p [] = (out, p', w')" by (metis prod.exhaust)
  have spec: "pspec (InitializeStatusConditions L ?p) = pspec ?p" for L by simp
  have "out = Returns (no_requeue, None) \<and> poolPhase (pstatus p') = BareMetalPoolPhaseReady"
    using run
    by (auto simp: pool_handleUpdate_def Let_def validateProfile_def reconcile_pool_hosts_def ensureFinalizer_def
        listAndGroupBareMetalInstances_def reconcileBareMetalInstances_def desiredReplicas_def runs_pool_template_def
        conclude_ready_def checkBareMetalInstancesReady_def demo_pool_reconciler_def demo_pool_def ref_lib_def
        split: if_splits)
  then show ?thesis using pool_ready_is_earned[OF demo_pool_laws(1,2), of ?p "[]" p' w'] run by simp
qed

section \<open>Properties: creation, refusal, publication\<close>

text \<open>C21: Every instance object that the controller creates carries the pool's namespace, its UID in the label
  by which the pool lists its instances, and the host type as a label; it is controlled by the pool
  in the sense the instance controller reads (\<open>GetPoolID\<close>), has no host and no finalizer yet and
  names a template. An instance that cannot be built or created is reported as an error, except
  that an answer that the name is taken counts as a creation.\<close>

theorem created_instances_belong_to_pool:
  assumes "lib_laws (pLib r)" and "owner_laws r" and "prof = None \<or> poolProfile (pspec p) \<noteq> None"
    and "createBareMetalInstanceCR r p ht prof w = (st, w')"
  shows "(st = StepOk \<and> (\<exists>rnd w1 cr err. rand_String r 5 w = (rnd, w1) \<and> pCreate r cr w1 = (err, w') \<and>
      IgnoreAlreadyExists (pLib r) err = None \<and> pool_child p ht cr)) \<or> (\<exists>e. st = StepFailed e)"
proof (cases st)
  case StepOk
  show ?thesis using created_CR[OF assms(1,2) assms(4)[unfolded StepOk]] StepOk by metis
next
  case StepPanics
  then show ?thesis using create_no_panic[OF assms(3), of r ht w] assms(4) by simp
qed simp

theorem created_instances_belong_to_pool_witness:
  "\<exists>w'. createBareMetalInstanceCR demo_pool_reconciler demo_pool ''gpu'' None [] = (StepOk, w') \<and>
     (\<exists>rnd w1 cr err. pCreate demo_pool_reconciler cr w1 = (err, w') \<and> pool_child demo_pool ''gpu'' cr)"
proof -
  obtain st w' where run: "createBareMetalInstanceCR demo_pool_reconciler demo_pool ''gpu'' None [] = (st, w')" by fastforce
  have "st \<noteq> StepFailed e" for e
    using create_reliable[OF demo_pool_laws(1,5), of demo_pool "''gpu''" None "[]" e] run by simp
  then show ?thesis using created_instances_belong_to_pool[OF demo_pool_laws(1,3) _ run] run by fastforce
qed

text \<open>C37: A pool whose profile cannot be used (no provider is configured, the profile is not registered, or
  its template parameters do not match) is marked Failed with a false Ready condition and left
  alone: no request is made, no finalizer is added, and the call is not repeated.\<close>

theorem unusable_profile_touches_nothing:
  assumes "lib_laws (pLib r)" and "poolProfile (pspec p) = Some ps"
    and "provider r = None \<or> (\<exists>ver. pool_ComputeDesiredConfigVersion r (pspec p) = Inr ver) \<and>
      (case Get (registeredProfiles r) (profileName ps) of None \<Rightarrow> True
       | Some pr \<Rightarrow> \<not> ValidateParameters (yaml_Unmarshal r) pr (profileTemplateParameters ps))"
  shows "\<exists>p'. pool_handleUpdate r p w = (Returns (no_requeue, None), p', w) \<and>
    poolPhase (pstatus p') = BareMetalPoolPhaseFailed \<and> ready_status r p' = Some ConditionFalse \<and>
    pmeta p' = pmeta p \<and> pspec p' = pspec p"
  using assms
  by (auto simp: pool_handleUpdate_def validateProfile_def Let_def split: option.splits)

theorem unusable_profile_touches_nothing_witness:
  "\<exists>p'. pool_handleUpdate demo_pool_reconciler (demo_pool\<lparr>pspec := (pspec demo_pool)\<lparr>poolProfile :=
       Some \<lparr>profileName = ''none'', profileTemplateParameters = ''''\<rparr>\<rparr>\<rparr>) [] = (Returns (no_requeue, None), p', []) \<and>
     poolPhase (pstatus p') = BareMetalPoolPhaseFailed"
proof -
  let ?p = "demo_pool\<lparr>pspec := (pspec demo_pool)\<lparr>poolProfile :=
       Some \<lparr>profileName = ''none'', profileTemplateParameters = ''''\<rparr>\<rparr>\<rparr>"
  have "poolProfile (pspec ?p) = Some \<lparr>profileName = ''none'', profileTemplateParameters = ''''\<rparr>" by simp
  from unusable_profile_touches_nothing[OF demo_pool_laws(1) this, where w = "[]"] show ?thesis
    by (simp add: demo_pool_reconciler_def Get_def) blast
qed

text \<open>C38: While the pool's own workflow is in flight, a reconcile publishes the phase and the Ready condition
  it found, although it has just created or deleted instances: a pool that was Ready and is scaled
  up is still Ready, with all of its instances new.\<close>

theorem pool_stays_ready_while_provisioning:
  assumes "lib_laws (pLib r)" and "BareMetalPoolFinalizer \<in> set (finalizers (pmeta p))"
    and "\<And>hooks s. pool_RunProvisioningLifecycle r (provider r) hooks s = ((result, None), s)" and "result \<noteq> no_requeue"
    and "poolPhase (pstatus p) = BareMetalPoolPhaseReady" and "ready_status r p = Some ConditionTrue"
    and "runs_pool_template (profile_of r p)" and "pool_handleUpdate r p w = (Returns (res, None), p', w')"
    and "poolPhase (pstatus p') \<noteq> BareMetalPoolPhaseFailed"
  shows "res = result \<and> poolPhase (pstatus p') = BareMetalPoolPhaseReady \<and> ready_status r p' = Some ConditionTrue"
proof -
  let ?p = "InitializeStatusConditions (pLib r) p"
  have p: "?p = (if poolConditions (pstatus p) = None then p\<lparr>pstatus := (pstatus p)\<lparr>poolConditions := Some []\<rparr>\<rparr> else p)"
    by (rule ready_status_initialized) (simp add: assms(6))
  have ready: "poolPhase (pstatus ?p) = BareMetalPoolPhaseReady" "ready_status r ?p = Some ConditionTrue"
    using p assms(5,6) ready_status_conditions[of p r] by (auto split: if_splits)
  obtain ps pr where prof: "poolProfile (pspec p) = Some ps" "Get (registeredProfiles r) (profileName ps) = Some pr"
    using assms(7) by (auto simp: runs_pool_template_def profile_of_def split: option.splits)
  then have tmpl: "runs_pool_template (Some pr)" using assms(7) by (simp add: profile_of_def)
  have prov: "provider r \<noteq> None"
  proof
    assume "provider r = None"
    then show False using assms(8,9) prof ready(1) by (auto simp: pool_handleUpdate_def Let_def)
  qed
  obtain ver where ver: "pool_ComputeDesiredConfigVersion r (pspec p) = Inr ver"
    using assms(8) prov ready(1) by (cases "pool_ComputeDesiredConfigVersion r (pspec p)")
      (auto simp: pool_handleUpdate_def Let_def)
  let ?q = "set_poolConfigVersion ver ?p"
  have run: "reconcile_pool_hosts r (Some pr) ?q w = (Returns (res, None), p', w')"
    using assms(8,9) prov ver prof ready(1)
    by (auto simp: pool_handleUpdate_def Let_def validateProfile_def split: if_splits)
  have "AddFinalizer (pLib r) (finalizers (pmeta p)) BareMetalPoolFinalizer = (finalizers (pmeta p), False)"
    using lib_AddFinalizer[OF assms(1)] assms(2) by (intro prod_eqI) auto
  then have "ensureFinalizer r ?q w = (None, set_pool_finalizers (finalizers (pmeta p)) ?q, w)"
    by (simp add: ensureFinalizer_def Let_def)
  then obtain p1 where fin: "ensureFinalizer r ?q w = (None, p1, w)"
    and p1: "poolPhase (pstatus p1) = BareMetalPoolPhaseReady" "ready_status r p1 = Some ConditionTrue"
    using ready by simp
  let ?p1 = "if statusHostSets (pstatus p1) = None then set_statusHostSets (Some []) p1 else p1"
  obtain ls p2 w2 where list: "listAndGroupBareMetalInstances r ?p1 w = (ls, p2, w2)" by (metis prod.exhaust)
  obtain m where m: "ls = Inr m" using run fin list by (cases ls) (auto simp: reconcile_pool_hosts_def Let_def)
  obtain st p3 w3 where scale: "reconcileBareMetalInstances r p2 m (Some pr) w2 = (st, p3, w3)" by (metis prod.exhaust)
  have st: "st = StepOk"
    using run fin list m scale by (cases st) (auto simp: reconcile_pool_hosts_def Let_def)
  have p3: "poolPhase (pstatus p3) = BareMetalPoolPhaseReady \<and> ready_status r p3 = Some ConditionTrue"
  proof -
    obtain p4 m4 where loop: "replica_loop r (Some pr) (rangeOrder r w2 (desiredReplicas p2 m)) p2 m w2 = (StepOk, p4, m4, w3)"
      and "p3 = updateStatusHostSets p4 m4"
      using scale st by (auto simp: reconcileBareMetalInstances_def split: prod.splits)
    then show ?thesis using replica_loop_ok_pool[OF assms(1) loop] listing_phase[OF list[unfolded m]] p1 by simp
  qed
  show ?thesis
    using run fin list m scale st tmpl prov assms(1,3,4) p3
    by (auto simp: reconcile_pool_hosts_def pool_reconcileProvisioning_def Let_def split: if_splits)
qed

text \<open>A Ready pool scaled up from zero to one.\<close>

definition demo_ready_pool :: pool where
  "demo_ready_pool = demo_pool\<lparr>
     pspec := \<lparr>hostSets = [\<lparr>hsHostType = ''cpu'', hsReplicas = 1\<rparr>],
       poolProfile = Some \<lparr>profileName = ''ml'', profileTemplateParameters = ''centos''\<rparr>\<rparr>,
     pstatus := (pstatus demo_pool)\<lparr>poolPhase := BareMetalPoolPhaseReady, statusHostSets := Some [],
       poolConditions := Some [\<lparr>cType = BareMetalPoolConditionTypeReady, cStatus = ConditionTrue, observedGeneration = 1,
         cReason = BareMetalPoolReasonReady, cMessage = '''', lastTransitionTime = 1\<rparr>]\<rparr>\<rparr>"

definition demo_provisioning_pools :: "(unit, bmi list) pool_reconciler" where
  "demo_provisioning_pools = demo_pool_reconciler\<lparr>
     pool_RunProvisioningLifecycle := \<lambda>prov hooks s. ((requeue_after 60, None), s)\<rparr>"

theorem pool_stays_ready_while_provisioning_witness:
  "let (out, p', w') = pool_handleUpdate demo_provisioning_pools demo_ready_pool []
   in out = Returns (requeue_after 60, None) \<and> poolPhase (pstatus p') = BareMetalPoolPhaseReady \<and>
     ready_status demo_provisioning_pools p' = Some ConditionTrue \<and>
     (\<exists>b. w' = [b] \<and> phase (istatus b) = BareMetalInstancePhaseUnset)"
proof -
  obtain out p' w' where run: "pool_handleUpdate demo_provisioning_pools demo_ready_pool [] = (out, p', w')"
    by (metis prod.exhaust)
  have lib: "pLib demo_provisioning_pools = ref_lib"
    by (simp add: demo_provisioning_pools_def demo_pool_reconciler_def)
  have eval: "(\<exists>res. out = Returns (res, None)) \<and> poolPhase (pstatus p') \<noteq> BareMetalPoolPhaseFailed \<and>
      (\<exists>b. w' = [b] \<and> phase (istatus b) = BareMetalInstancePhaseUnset)"
    using run
    by (auto simp: pool_handleUpdate_def Let_def validateProfile_def ValidateParameters_def Get_def demo_profile_def
        reconcile_pool_hosts_def ensureFinalizer_def listAndGroupBareMetalInstances_def reconcileBareMetalInstances_def
        desiredReplicas_def runs_pool_template_def pool_reconcileProvisioning_def of_type_def
        scaleUpBareMetalInstances_def createBareMetalInstanceCR_def build_instance_def new_instance_def ref_pool_create_def
        demo_provisioning_pools_def demo_pool_reconciler_def demo_ready_pool_def demo_pool_def ref_lib_def
        InitializeStatusConditions_def initializeStatusCondition_def split: if_splits)
  have "runs_pool_template (profile_of demo_provisioning_pools demo_ready_pool)"
    by (simp add: runs_pool_template_def profile_of_def Get_def demo_provisioning_pools_def demo_pool_reconciler_def
        demo_ready_pool_def demo_profile_def)
  moreover have "ready_status demo_provisioning_pools demo_ready_pool = Some ConditionTrue"
    "poolPhase (pstatus demo_ready_pool) = BareMetalPoolPhaseReady"
    "BareMetalPoolFinalizer \<in> set (finalizers (pmeta demo_ready_pool))"
    by (simp_all add: ready_status_def pool_GetStatusCondition_def lib)
      (simp_all add: demo_ready_pool_def demo_pool_def ref_lib_def)
  moreover have "lib_laws (pLib demo_provisioning_pools)" by (simp add: lib ref_lib_laws)
  moreover have "pool_RunProvisioningLifecycle demo_provisioning_pools (provider demo_provisioning_pools) hooks s
      = ((requeue_after 60, None), s)" for hooks s
    by (simp add: demo_provisioning_pools_def)
  moreover obtain res where "out = Returns (res, None)" using eval by blast
  ultimately show ?thesis
    using pool_stays_ready_while_provisioning[of demo_provisioning_pools demo_ready_pool "requeue_after 60" "[]" res p' w']
      run eval by simp
qed

end
