(* ===== verification/Deletion_Progress.thy ===== *)
theory Deletion_Progress
  imports Allocation_Progress Pool_Properties
begin

text \<open>
  Progress of a deletion, across the two controllers: a pool under deletion asks for the deletion of its
  instances, the instance controller takes each of them down and releases its host, and the next
  call of the pool controller lets the pool go. All three requests work on one cluster, of which
  \<open>objs\<close>, \<open>pools\<close> and \<open>store\<close> are the instances, the pools and the hosts.
\<close>

section \<open>Services that answer\<close>

text \<open>
  The API server on the instances: a read shows the stored object, an update on the current version
  is stored, and an object under deletion goes with its last finalizer. What \<open>rest\<close> shows of the
  cluster is not touched.
\<close>

definition missing :: "lib \<Rightarrow> go_error + 'a \<Rightarrow> bool" where
  "missing L x \<longleftrightarrow> (case x of Inl e \<Rightarrow> IgnoreNotFound L (Some e) = None | Inr _ \<Rightarrow> False)"

lemma missingE:
  assumes "missing L x"
  obtains e where "x = Inl e" and "IgnoreNotFound L (Some e) = None"
  using assms by (auto simp: missing_def split: sum.splits)

abbreviation dying :: "lib \<Rightarrow> object_meta \<Rightarrow> bool" where
  "dying L m \<equiv> \<not> time_IsZero L (deletionTimestamp m)"

definition instance_service ::
    "('p, 'w) bmi_reconciler \<Rightarrow> ('w \<Rightarrow> object_key \<Rightarrow> bmi option) \<Rightarrow> ('w \<Rightarrow> 'o) \<Rightarrow> bool" where
  "instance_service r objs rest \<longleftrightarrow>
     (\<forall>w k. case objs w k of
        None \<Rightarrow> \<exists>x. rGet r k w = (x, w) \<and> missing (rLib r) x
      | Some b \<Rightarrow> bmi_key b = k \<and> rGet r k w = (Inr b, w)) \<and>
     (\<forall>w b b0. objs w (bmi_key b) = Some b0 \<longrightarrow> resourceVersion (imeta b) = resourceVersion (imeta b0) \<longrightarrow>
        (\<exists>b' w'. rUpdate r b w = (Inr b', w') \<and> same_object b b' \<and> rest w' = rest w \<and>
           objs w' = (objs w)(bmi_key b := if finalizers (imeta b) = [] \<and> dying (rLib r) (imeta b0) then None else Some b'))) \<and>
     (\<forall>w b. objs w (bmi_key b) = None \<longrightarrow> (\<exists>x. rStatusUpdate r b w = (x, w) \<and> missing (rLib r) x))"

lemma instance_calls:
  assumes "instance_service r objs rest"
  shows "objs w k = Some b \<Longrightarrow> bmi_key b = k" and "objs w k = Some b \<Longrightarrow> rGet r k w = (Inr b, w)"
    and "objs w k = None \<Longrightarrow> \<exists>x. rGet r k w = (x, w) \<and> missing (rLib r) x"
    and "objs w k = Some b0 \<Longrightarrow> bmi_key b = k \<Longrightarrow> resourceVersion (imeta b) = resourceVersion (imeta b0) \<Longrightarrow>
      \<exists>b' w'. rUpdate r b w = (Inr b', w') \<and> same_object b b' \<and> rest w' = rest w \<and>
        objs w' = (objs w)(k := if finalizers (imeta b) = [] \<and> dying (rLib r) (imeta b0) then None else Some b')"
    and "objs w k = None \<Longrightarrow> bmi_key b = k \<Longrightarrow> \<exists>x. rStatusUpdate r b w = (x, w) \<and> missing (rLib r) x"
proof -
  note S = assms[unfolded instance_service_def]
  have get: "case objs w k of None \<Rightarrow> \<exists>x. rGet r k w = (x, w) \<and> missing (rLib r) x
      | Some b \<Rightarrow> bmi_key b = k \<and> rGet r k w = (Inr b, w)"
    by (rule spec[OF spec[OF conjunct1[OF S], of w], of k])
  show "objs w k = Some b \<Longrightarrow> bmi_key b = k" "objs w k = Some b \<Longrightarrow> rGet r k w = (Inr b, w)"
    "objs w k = None \<Longrightarrow> \<exists>x. rGet r k w = (x, w) \<and> missing (rLib r) x" using get by simp_all
  show "objs w k = Some b0 \<Longrightarrow> bmi_key b = k \<Longrightarrow> resourceVersion (imeta b) = resourceVersion (imeta b0) \<Longrightarrow>
      \<exists>b' w'. rUpdate r b w = (Inr b', w') \<and> same_object b b' \<and> rest w' = rest w \<and>
        objs w' = (objs w)(k := if finalizers (imeta b) = [] \<and> dying (rLib r) (imeta b0) then None else Some b')"
    using spec[OF spec[OF spec[OF conjunct1[OF conjunct2[OF S]], of w], of b], of b0] by simp
  show "objs w k = None \<Longrightarrow> bmi_key b = k \<Longrightarrow> \<exists>x. rStatusUpdate r b w = (x, w) \<and> missing (rLib r) x"
    using spec[OF spec[OF conjunct2[OF conjunct2[OF S]], of w], of b] by simp
qed

text \<open>The API server on the hosts.\<close>

definition host_service ::
    "'w metal3_inventory \<Rightarrow> 'w bmh_store \<Rightarrow> ('w \<Rightarrow> 'o) \<Rightarrow> bool" where
  "host_service m store rest \<longleftrightarrow> bmh_laws (m3client m) store (=) \<and>
     (\<forall>hk w h. store w hk = Some h \<longrightarrow> bmh_Get (m3client m) hk w = (Inr h, w)) \<and>
     (\<forall>h w h0. store w (bmh_key h) = Some h0 \<longrightarrow> bmhResourceVersion h0 = bmhResourceVersion h \<longrightarrow>
        (\<exists>h' w'. bmh_Update (m3client m) h w = (Inr h', w') \<and> rest w' = rest w))"

text \<open>
  Hosts that were freed: they are still there, without a mark, and no other host was touched.
\<close>

definition hosts_freed ::
    "(string \<times> string) set \<Rightarrow> (string \<times> string \<Rightarrow> bmh option) \<Rightarrow> (string \<times> string \<Rightarrow> bmh option) \<Rightarrow> bool" where
  "hosts_freed H s s' \<longleftrightarrow> (\<forall>hk. hk \<notin> H \<longrightarrow> s' hk = s hk) \<and> (\<forall>hk \<in> H. \<exists>x. s' hk = Some x \<and> bmhConsumerRef x = None)"

lemma hosts_freed_none [simp]: "hosts_freed {} s s' \<longleftrightarrow> s' = s"
  by (auto simp: hosts_freed_def)

lemma hosts_freed_trans: "hosts_freed A s s1 \<Longrightarrow> hosts_freed B s1 s2 \<Longrightarrow> hosts_freed (A \<union> B) s s2"
  unfolding hosts_freed_def by (metis Un_iff)

lemma hosts_freed_stored: "hosts_freed A s s' \<Longrightarrow> s hk \<noteq> None \<Longrightarrow> s' hk \<noteq> None"
  unfolding hosts_freed_def by (metis option.distinct(1))

lemma unassign_reliable:
  assumes S: "host_service m store rest" and "ParseHostID h = Inr hk" and "store w hk = Some x"
  shows "\<exists>w'. metal3_UnassignHost m h ks w = (None, w') \<and> rest w' = rest w \<and> hosts_freed {hk} (store w) (store w')"
proof -
  note S' = S[unfolded host_service_def]
  have get: "bmh_Get (m3client m) hk w = (Inr x, w)" using S' assms(3) by blast
  have key: "bmh_key x = hk" using S' bmh_Get_ok(2)[OF _ get] by blast
  obtain y w' where up: "bmh_Update (m3client m) (unassigned_bmh ks x) w = (Inr y, w')" "rest w' = rest w"
    using S' assms(3) key by (metis unassigned_bmh_simps(1,2))
  have run: "metal3_UnassignHost m h ks w = (None, w')"
    using metal3_UnassignHost_unfold[OF assms(2) get, of ks] up(1) by simp
  have "updates_store store (unassigned_bmh ks x) w y w'" using S' bmh_Update_ok[OF _ up(1)] by blast
  then have "store w' = (store w)(hk \<mapsto> y)" "bmhConsumerRef y = None"
    using key by (simp_all add: updates_store_def written_def)
  then show ?thesis using run up(2) by (simp add: hosts_freed_def)
qed

section \<open>One instance\<close>

text \<open>
  An instance that nothing but the two controllers holds back: it runs no workflow, has no finalizer of
  anybody else, and its host is in the inventory. \<open>holds\<close> names the host its deletion has to release.
\<close>

definition releasable :: "'w bmh_store \<Rightarrow> 'w \<Rightarrow> bmi \<Rightarrow> bool" where
  "releasable store w b \<longleftrightarrow> \<not> uses_template b \<and>
     set (finalizers (imeta b)) \<subseteq> {BareMetalInstanceInventoryFinalizer, BareMetalInstanceManagementFinalizer} \<and>
     (externalHostID (ispec b) = '''' \<or>
      (\<exists>hk. ParseHostID (externalHostID (ispec b)) = Inr hk \<and> store w hk \<noteq> None))"

definition holds :: "bmi \<Rightarrow> (string \<times> string) set" where
  "holds b = (if BareMetalInstanceInventoryFinalizer \<in> set (finalizers (imeta b)) \<and> externalHostID (ispec b) \<noteq> ''''
     then (case ParseHostID (externalHostID (ispec b)) of Inl _ \<Rightarrow> {} | Inr hk \<Rightarrow> {hk}) else {})"

definition hosts_held :: "(object_key \<Rightarrow> bmi option) \<Rightarrow> object_key set \<Rightarrow> (string \<times> string) set" where
  "hosts_held os K = (\<Union>k \<in> K. case os k of None \<Rightarrow> {} | Some b \<Rightarrow> holds b)"

lemma in_hosts_held: "hk \<in> hosts_held os K \<longleftrightarrow> (\<exists>k \<in> K. \<exists>b. os k = Some b \<and> hk \<in> holds b)"
  by (auto simp: hosts_held_def split: option.splits)

lemma hosts_held_insert: "hosts_held os (insert k K) = hosts_held os {k} \<union> hosts_held (os(k := None)) K"
  by (rule set_eqI) (simp add: in_hosts_held, metis option.distinct(1))

lemma hosts_held_one [simp]: "os k = None \<Longrightarrow> hosts_held os {k} = {}" "os k = Some b \<Longrightarrow> hosts_held os {k} = holds b"
  by (simp_all add: hosts_held_def)

lemma holds_same:
  "externalHostID (ispec b') = externalHostID (ispec b) \<Longrightarrow>
   (BareMetalInstanceInventoryFinalizer \<in> set (finalizers (imeta b')) \<longleftrightarrow>
     BareMetalInstanceInventoryFinalizer \<in> set (finalizers (imeta b))) \<Longrightarrow> holds b' = holds b"
  by (simp add: holds_def)

lemma releasable_later: "releasable store w b \<Longrightarrow> hosts_freed H (store w) (store w') \<Longrightarrow> releasable store w' b"
  unfolding releasable_def using hosts_freed_stored by metis

lemma management_goes:
  assumes S: "instance_service r objs rest" and L: "lib_laws (rLib r)" and "objs w k = Some b"
    and "dying (rLib r) (imeta b)" and "\<not> uses_template b" and "finalizers (imeta b) \<noteq> []"
    and "set (finalizers (imeta b)) \<subseteq> {BareMetalInstanceInventoryFinalizer, BareMetalInstanceManagementFinalizer}"
  shows "\<exists>b1 w1. management_cleanup r b w = (None, b1, w1) \<and> ispec b1 = ispec b \<and> bmi_key b1 = k \<and>
    deletionTimestamp (imeta b1) = deletionTimestamp (imeta b) \<and> rest w1 = rest w \<and>
    set (finalizers (imeta b1)) = set (finalizers (imeta b)) - {BareMetalInstanceManagementFinalizer} \<and>
    objs w1 = (objs w)(k := if BareMetalInstanceInventoryFinalizer \<in> set (finalizers (imeta b)) then Some b1 else None)"
proof (cases "BareMetalInstanceManagementFinalizer \<in> set (finalizers (imeta b))")
  case True
  let ?fs = "fst (RemoveFinalizer (rLib r) (finalizers (imeta b)) BareMetalInstanceManagementFinalizer)"
  let ?x = "set_bmi_finalizers ?fs (set_phase BareMetalInstancePhaseDeleting b)"
  have key: "bmi_key ?x = k" using instance_calls(1)[OF S assms(3)] by simp
  have fs: "set ?fs = set (finalizers (imeta b)) - {BareMetalInstanceManagementFinalizer}" using L by simp
  obtain b' w' where up: "rUpdate r ?x w = (Inr b', w')" "same_object ?x b'" "rest w' = rest w"
    "objs w' = (objs w)(k := if ?fs = [] \<and> dying (rLib r) (imeta b) then None else Some b')"
    using instance_calls(4)[OF S assms(3) key] by auto
  have "?fs = [] \<longleftrightarrow> BareMetalInstanceInventoryFinalizer \<notin> set (finalizers (imeta b))"
    using fs assms(7) by (auto simp flip: set_empty)
  moreover have "management_cleanup r b w = (None, b', w')"
    using up(1) True L assms(5) by (simp add: management_cleanup_def uses_template_def Let_def)
  ultimately show ?thesis using up(3,4) same_object_spec[OF up(2)] key fs assms(4)
    by (intro exI[of _ b'] exI[of _ w']) auto
next
  case False
  then have "BareMetalInstanceInventoryFinalizer \<in> set (finalizers (imeta b))"
    using assms(6,7) by (cases "finalizers (imeta b)") auto
  then show ?thesis using False L assms(3) instance_calls(1)[OF S assms(3)]
    by (intro exI[of _ b] exI[of _ w]) (auto simp: management_cleanup_def)
qed

text \<open>The two services of the instance controller, on one cluster.\<close>

definition instance_operator ::
    "('p, 'w) bmi_reconciler \<Rightarrow> 'w metal3_inventory \<Rightarrow> ('w \<Rightarrow> object_key \<Rightarrow> bmi option) \<Rightarrow>
     ('w \<Rightarrow> object_key \<Rightarrow> pool option) \<Rightarrow> 'w bmh_store \<Rightarrow> bool" where
  "instance_operator r m objs pools store \<longleftrightarrow>
     lib_laws (rLib r) \<and> InventoryClient r = metal3_inventory_client m \<and>
     instance_service r objs (\<lambda>w. (store w, pools w)) \<and> host_service m store (\<lambda>w. (objs w, pools w))"

lemma drop_removes:
  assumes S: "instance_service r objs rest" and L: "lib_laws (rLib r)" and "objs w k = Some b"
    and "dying (rLib r) (imeta b)" and "set (finalizers (imeta b)) = {BareMetalInstanceInventoryFinalizer}"
  shows "\<exists>b' w'. drop_inventory_finalizer r b w = (ok_done, b', w') \<and> bmi_key b' = k \<and> rest w' = rest w \<and>
    objs w' = (objs w)(k := None)"
proof -
  obtain fs where rem: "RemoveFinalizer (rLib r) (finalizers (imeta b)) BareMetalInstanceInventoryFinalizer = (fs, True)"
    and fs: "fs = []"
    using lib_RemoveFinalizer(1,2)[OF L, where fs = "finalizers (imeta b)" and f = BareMetalInstanceInventoryFinalizer] assms(5)
    by (cases "RemoveFinalizer (rLib r) (finalizers (imeta b)) BareMetalInstanceInventoryFinalizer") auto
  let ?x = "set_bmi_finalizers [] b"
  have key: "bmi_key ?x = k" using instance_calls(1)[OF S assms(3)] by simp
  obtain b' w' where up: "rUpdate r ?x w = (Inr b', w')" "same_object ?x b'" "rest w' = rest w" "objs w' = (objs w)(k := None)"
    using instance_calls(4)[OF S assms(3) key] assms(4) by auto
  then show ?thesis using rem fs same_object_spec[OF up(2)] key
    by (simp add: drop_inventory_finalizer_def)
qed

lemma inventory_goes:
  assumes O: "instance_operator r m objs pools store" and "objs (pworld p) k = Some b" and "dying (rLib r) (imeta b)"
    and "set (finalizers (imeta b)) = {BareMetalInstanceInventoryFinalizer}" and "releasable store (pworld p) b"
    and "externalHostID (ispec b) \<notin> held (plocks p)"
  shows "\<exists>b' p'. inventory_cleanup r b p = (ok_done, b', p') \<and> bmi_key b' = k \<and> pools (pworld p') = pools (pworld p) \<and>
    objs (pworld p') = (objs (pworld p))(k := None) \<and> hosts_freed (holds b) (store (pworld p)) (store (pworld p'))"
proof -
  note O' = O[unfolded instance_operator_def]
  have L: "lib_laws (rLib r)" and S: "instance_service r objs (\<lambda>w. (store w, pools w))"
    and H: "host_service m store (\<lambda>w. (objs w, pools w))" and client: "InventoryClient r = metal3_inventory_client m"
    using O' by blast+
  note drop = drop_removes[OF S L _ assms(3,4)]
  show ?thesis
  proof (cases "externalHostID (ispec b) = ''''")
    case True
    obtain b' w' where d: "drop_inventory_finalizer r b (pworld p) = (ok_done, b', w')" "bmi_key b' = k"
      "(store w', pools w') = (store (pworld p), pools (pworld p))" "objs w' = (objs (pworld p))(k := None)"
      using drop[OF assms(2)] by blast
    then show ?thesis using True L assms(4)
      by (intro exI[of _ b'] exI[of _ "p\<lparr>pworld := w'\<rparr>"]) (simp add: inventory_cleanup_def holds_def)
  next
    case False
    then obtain hk x where hk: "ParseHostID (externalHostID (ispec b)) = Inr hk" "store (pworld p) hk = Some x"
      using assms(5) by (auto simp: releasable_def)
    obtain w1 where un: "metal3_UnassignHost m (externalHostID (ispec b)) (labels_to_remove b) (pworld p) = (None, w1)"
      "objs w1 = objs (pworld p)" "pools w1 = pools (pworld p)" "hosts_freed {hk} (store (pworld p)) (store w1)"
      using unassign_reliable[OF H hk] by blast
    obtain b' w' where d: "drop_inventory_finalizer r b w1 = (ok_done, b', w')" "bmi_key b' = k"
      "(store w', pools w') = (store w1, pools w1)" "objs w' = (objs w1)(k := None)"
      using drop[of w1 k] assms(2) un(2) by (metis (no_types, lifting))
    obtain l where l: "TryLock (externalHostID (ispec b)) (plocks p) = (True, l)"
      using TryLock_result[of "externalHostID (ispec b)" "plocks p"] assms(6) by (metis prod.collapse)
    have "release_host r b (pworld p) = (ok_done, b', w')"
      using un(1) d(1) client by (simp add: release_host_def metal3_inventory_client_def)
    then have "inventory_cleanup r b p = (ok_done, b', \<lparr>plocks = Unlock (externalHostID (ispec b)) l, pworld = w'\<rparr>)"
      using False l L assms(4) by (simp add: inventory_cleanup_def Let_def)
    moreover have "holds b = {hk}" using False hk(1) assms(4) by (simp add: holds_def)
    ultimately show ?thesis using d un by simp
  qed
qed

text \<open>One call of \<open>Reconcile\<close> takes a releasable instance under deletion out of the cluster.\<close>

lemma deletion_call:
  assumes O: "instance_operator r m objs pools store" and b: "objs (pworld p) k = Some b" "dying (rLib r) (imeta b)"
    "finalizers (imeta b) \<noteq> []" "releasable store (pworld p) b" and lock: "externalHostID (ispec b) \<notin> held (plocks p)"
  shows "\<exists>p'. Reconcile r k p = (ok_done, p') \<and> objs (pworld p') = (objs (pworld p))(k := None) \<and>
    pools (pworld p') = pools (pworld p) \<and> hosts_freed (holds b) (store (pworld p)) (store (pworld p'))"
proof -
  note O' = O[unfolded instance_operator_def]
  have L: "lib_laws (rLib r)" and S: "instance_service r objs (\<lambda>w. (store w, pools w))" using O' by blast+
  have "\<not> uses_template b" "set (finalizers (imeta b)) \<subseteq> {BareMetalInstanceInventoryFinalizer, BareMetalInstanceManagementFinalizer}"
    using b(4) by (simp_all add: releasable_def)
  then obtain b1 w1 where mc: "management_cleanup r b (pworld p) = (None, b1, w1)"
    and b1: "ispec b1 = ispec b" "bmi_key b1 = k" "deletionTimestamp (imeta b1) = deletionTimestamp (imeta b)"
      "set (finalizers (imeta b1)) = set (finalizers (imeta b)) - {BareMetalInstanceManagementFinalizer}"
    and w1: "store w1 = store (pworld p)" "pools w1 = pools (pworld p)"
      "objs w1 = (objs (pworld p))(k := if BareMetalInstanceInventoryFinalizer \<in> set (finalizers (imeta b)) then Some b1 else None)"
    using management_goes[OF S L b(1,2) _ b(3)] by blast
  have "\<exists>b' p'. inventory_cleanup r b1 (p\<lparr>pworld := w1\<rparr>) = (ok_done, b', p') \<and> bmi_key b' = k \<and>
      pools (pworld p') = pools (pworld p) \<and> objs (pworld p') = (objs (pworld p))(k := None) \<and>
      hosts_freed (holds b) (store (pworld p)) (store (pworld p'))"
  proof (cases "BareMetalInstanceInventoryFinalizer \<in> set (finalizers (imeta b))")
    case True
    have "set (finalizers (imeta b1)) = {BareMetalInstanceInventoryFinalizer}"
      using True b1(4) b(4) by (auto simp: releasable_def)
    moreover have "releasable store w1 b1" using b(4) b1(1,4) w1(1) by (auto simp: releasable_def uses_template_def)
    moreover have "holds b1 = holds b" using True b1(1,4) by (intro holds_same) auto
    ultimately show ?thesis
      using inventory_goes[OF O, of "p\<lparr>pworld := w1\<rparr>" k b1] True w1 b1(1,3) b(2) lock by auto
  next
    case False
    then show ?thesis using L b1(2,4) w1
      by (intro exI[of _ b1] exI[of _ "p\<lparr>pworld := w1\<rparr>"]) (simp add: inventory_cleanup_def holds_def)
  qed
  then obtain b' p' where ic: "inventory_cleanup r b1 (p\<lparr>pworld := w1\<rparr>) = (ok_done, b', p')" "bmi_key b' = k"
    and p': "pools (pworld p') = pools (pworld p)" "objs (pworld p') = (objs (pworld p))(k := None)"
      "hosts_freed (holds b) (store (pworld p)) (store (pworld p'))" by blast
  have del: "handleDeletion r b p = (ok_done, b', p')" using mc ic(1) by (simp add: handleDeletion_def)
  obtain x where "rStatusUpdate r b' (pworld p') = (x, pworld p')" "missing (rLib r) x"
    using instance_calls(5)[OF S, where w = "pworld p'" and k = k and b = b'] p'(2) ic(2) by auto
  then have "Reconcile r k p = (ok_done, p')"
    using del b(2) instance_calls(2)[OF S b(1)]
    by (cases "rDeepEqual r (istatus b') (istatus b)") (auto simp: Reconcile_def Let_def elim: missingE)
  then show ?thesis using p' by blast
qed

text \<open>The work queue of the instance controller, without errors left over.\<close>

definition reconcile_all :: "('p, 'w) bmi_reconciler \<Rightarrow> object_key list \<Rightarrow> 'w proc \<Rightarrow> 'w proc" where
  "reconcile_all r ks p = fold (\<lambda>k p. snd (Reconcile r k p)) ks p"

lemma reconcile_gone:
  "instance_operator r m objs pools store \<Longrightarrow> objs (pworld p) k = None \<Longrightarrow> snd (Reconcile r k p) = p"
  using instance_calls(3)[of r objs "\<lambda>w. (store w, pools w)" "pworld p" k]
  by (auto simp: instance_operator_def Reconcile_def elim!: missingE)

lemma all_go:
  assumes O: "instance_operator r m objs pools store" and "held (plocks p) = {}"
    and "\<And>k b. k \<in> set ks \<Longrightarrow> objs (pworld p) k = Some b \<Longrightarrow>
      dying (rLib r) (imeta b) \<and> finalizers (imeta b) \<noteq> [] \<and> releasable store (pworld p) b"
  shows "objs (pworld (reconcile_all r ks p)) = objs (pworld p) |` (- set ks) \<and>
    pools (pworld (reconcile_all r ks p)) = pools (pworld p) \<and>
    hosts_freed (hosts_held (objs (pworld p)) (set ks)) (store (pworld p)) (store (pworld (reconcile_all r ks p)))"
  using assms(2,3)
proof (induction ks arbitrary: p)
  case Nil
  then show ?case by (simp add: reconcile_all_def hosts_held_def)
next
  case (Cons k ks)
  let ?p1 = "snd (Reconcile r k p)" and ?H = "hosts_held (objs (pworld p)) {k}"
  have step: "objs (pworld ?p1) = (objs (pworld p))(k := None) \<and> pools (pworld ?p1) = pools (pworld p) \<and>
      hosts_freed ?H (store (pworld p)) (store (pworld ?p1))"
  proof (cases "objs (pworld p) k")
    case None
    then show ?thesis by (simp add: reconcile_gone[OF O] fun_upd_idem)
  next
    case (Some b)
    note b = Cons.prems(2)[OF list.set_intros(1) Some]
    then obtain p' where "Reconcile r k p = (ok_done, p')" "objs (pworld p') = (objs (pworld p))(k := None)"
      "pools (pworld p') = pools (pworld p)" "hosts_freed (holds b) (store (pworld p)) (store (pworld p'))"
      using deletion_call[OF O Some] Cons.prems(1) by blast
    then show ?thesis using Some by simp
  qed
  have locks: "held (plocks ?p1) = {}" using Reconcile_locks[of p r k] Cons.prems(1) by (simp add: same_locks_def)
  have rest: "dying (rLib r) (imeta b) \<and> finalizers (imeta b) \<noteq> [] \<and> releasable store (pworld ?p1) b"
    if "k' \<in> set ks" "objs (pworld ?p1) k' = Some b" for k' b
  proof -
    have b: "objs (pworld p) k' = Some b" using that(2) step by (auto split: if_splits)
    show ?thesis
      using Cons.prems(2)[OF _ b] that(1) step releasable_later[of store "pworld p" b ?H "pworld ?p1"] by simp
  qed
  let ?p2 = "reconcile_all r ks ?p1"
  have IH: "objs (pworld ?p2) = objs (pworld ?p1) |` (- set ks) \<and> pools (pworld ?p2) = pools (pworld ?p1) \<and>
      hosts_freed (hosts_held (objs (pworld ?p1)) (set ks)) (store (pworld ?p1)) (store (pworld ?p2))"
    by (rule Cons.IH[OF locks]) (rule rest)
  have "hosts_held (objs (pworld p)) (set (k # ks)) = ?H \<union> hosts_held (objs (pworld ?p1)) (set ks)"
    using step hosts_held_insert[of "objs (pworld p)" k "set ks"] by simp
  then have "hosts_freed (hosts_held (objs (pworld p)) (set (k # ks))) (store (pworld p)) (store (pworld ?p2))"
    using hosts_freed_trans[OF conjunct2[OF conjunct2[OF step]] conjunct2[OF conjunct2[OF IH]]] by simp
  moreover have "objs (pworld ?p1) |` (- set ks) = objs (pworld p) |` (- set (k # ks))"
    using step by (auto simp: restrict_map_def fun_eq_iff)
  moreover have "reconcile_all r (k # ks) p = ?p2" by (simp add: reconcile_all_def)
  ultimately show ?case using IH step by simp
qed

section \<open>The pool\<close>

text \<open>
  What a deletion request leaves of an instance that has finalizers, and what a write of its status
  leaves of a pool.
\<close>

definition doomed :: "lib \<Rightarrow> bmi \<Rightarrow> bmi \<Rightarrow> bool" where
  "doomed L b b' \<longleftrightarrow> ispec b' = ispec b \<and> finalizers (imeta b') = finalizers (imeta b) \<and> dying L (imeta b')"

definition same_pool_object :: "pool \<Rightarrow> pool \<Rightarrow> bool" where
  "same_pool_object q q' \<longleftrightarrow> same_pool q q' \<and> pool_key q' = pool_key q \<and>
     deletionTimestamp (pmeta q') = deletionTimestamp (pmeta q)"

text \<open>
  The API server on the pools and, for the pool controller, on the instances: a list shows the members
  of the pool, and a deletion removes an object that has no finalizers and marks any other one.
\<close>

definition pool_service ::
    "('p, 'w) pool_reconciler \<Rightarrow> ('w \<Rightarrow> object_key \<Rightarrow> bmi option) \<Rightarrow> ('w \<Rightarrow> object_key \<Rightarrow> pool option) \<Rightarrow>
     ('w \<Rightarrow> 'o) \<Rightarrow> bool" where
  "pool_service r objs pools rest \<longleftrightarrow>
     (\<forall>w k. case pools w k of
        None \<Rightarrow> \<exists>x. pGet r k w = (x, w) \<and> missing (pLib r) x
      | Some q \<Rightarrow> pool_key q = k \<and> pGet r k w = (Inr q, w)) \<and>
     (\<forall>w q. \<exists>items. pList r (objNamespace (pmeta q)) (pool_label q) w = (Inr items, w) \<and> distinct items \<and>
        set items = {b. in_pool q b \<and> objs w (bmi_key b) = Some b}) \<and>
     (\<forall>w b b0. objs w (bmi_key b) = Some b0 \<longrightarrow> time_IsZero (pLib r) (deletionTimestamp (imeta b0)) \<longrightarrow>
        (\<exists>b' w'. pDelete r b w = (None, w') \<and> doomed (pLib r) b0 b' \<and> pools w' = pools w \<and> rest w' = rest w \<and>
           objs w' = (objs w)(bmi_key b := if finalizers (imeta b0) = [] then None else Some b'))) \<and>
     (\<forall>w q q0. pools w (pool_key q) = Some q0 \<longrightarrow> resourceVersion (pmeta q) = resourceVersion (pmeta q0) \<longrightarrow>
        finalizers (pmeta q) = [] \<longrightarrow> dying (pLib r) (pmeta q0) \<longrightarrow>
        (\<exists>q' w'. pUpdate r q w = (Inr q', w') \<and> pool_key q' = pool_key q \<and>
           pools w' = (pools w)(pool_key q := None) \<and> objs w' = objs w \<and> rest w' = rest w)) \<and>
     (\<forall>w q. case pools w (pool_key q) of
        None \<Rightarrow> \<exists>x. pStatusUpdate r q w = (x, w) \<and> missing (pLib r) x
      | Some q0 \<Rightarrow> \<exists>x q1 w'. pStatusUpdate r q w = (x, w') \<and> same_pool_object q0 q1 \<and>
          pools w' = (pools w)(pool_key q \<mapsto> q1) \<and> objs w' = objs w \<and> rest w' = rest w)"

lemma pool_calls:
  assumes "pool_service r objs pools rest"
  shows "pools w k = Some q \<Longrightarrow> pool_key q = k" and "pools w k = Some q \<Longrightarrow> pGet r k w = (Inr q, w)"
    and "pools w k = None \<Longrightarrow> \<exists>x. pGet r k w = (x, w) \<and> missing (pLib r) x"
    and "\<exists>items. pList r (objNamespace (pmeta q)) (pool_label q) w = (Inr items, w) \<and> distinct items \<and>
        set items = {b. in_pool q b \<and> objs w (bmi_key b) = Some b}"
    and "objs w (bmi_key b) = Some b0 \<Longrightarrow> time_IsZero (pLib r) (deletionTimestamp (imeta b0)) \<Longrightarrow>
      \<exists>b' w'. pDelete r b w = (None, w') \<and> doomed (pLib r) b0 b' \<and> pools w' = pools w \<and> rest w' = rest w \<and>
        objs w' = (objs w)(bmi_key b := if finalizers (imeta b0) = [] then None else Some b')"
    and "pools w (pool_key q) = Some q0 \<Longrightarrow> resourceVersion (pmeta q) = resourceVersion (pmeta q0) \<Longrightarrow>
      finalizers (pmeta q) = [] \<Longrightarrow> dying (pLib r) (pmeta q0) \<Longrightarrow>
      \<exists>q' w'. pUpdate r q w = (Inr q', w') \<and> pool_key q' = pool_key q \<and>
        pools w' = (pools w)(pool_key q := None) \<and> objs w' = objs w \<and> rest w' = rest w"
    and "pools w (pool_key q) = None \<Longrightarrow> \<exists>x. pStatusUpdate r q w = (x, w) \<and> missing (pLib r) x"
    and "pools w (pool_key q) = Some q0 \<Longrightarrow> \<exists>x q1 w'. pStatusUpdate r q w = (x, w') \<and> same_pool_object q0 q1 \<and>
        pools w' = (pools w)(pool_key q \<mapsto> q1) \<and> objs w' = objs w \<and> rest w' = rest w"
proof -
  note S = assms[unfolded pool_service_def]
  note S2 = conjunct2[OF S] note S3 = conjunct2[OF S2] note S4 = conjunct2[OF S3] note S5 = conjunct2[OF S4]
  note get = spec[OF spec[OF conjunct1[OF S], of w], of k]
  show "pools w k = Some q \<Longrightarrow> pool_key q = k" "pools w k = Some q \<Longrightarrow> pGet r k w = (Inr q, w)"
    "pools w k = None \<Longrightarrow> \<exists>x. pGet r k w = (x, w) \<and> missing (pLib r) x" using get by simp_all
  show "\<exists>items. pList r (objNamespace (pmeta q)) (pool_label q) w = (Inr items, w) \<and> distinct items \<and>
        set items = {b. in_pool q b \<and> objs w (bmi_key b) = Some b}"
    by (rule spec[OF spec[OF conjunct1[OF S2], of w], of q])
  show "objs w (bmi_key b) = Some b0 \<Longrightarrow> time_IsZero (pLib r) (deletionTimestamp (imeta b0)) \<Longrightarrow>
      \<exists>b' w'. pDelete r b w = (None, w') \<and> doomed (pLib r) b0 b' \<and> pools w' = pools w \<and> rest w' = rest w \<and>
        objs w' = (objs w)(bmi_key b := if finalizers (imeta b0) = [] then None else Some b')"
    using spec[OF spec[OF spec[OF conjunct1[OF S3], of w], of b], of b0] by blast
  show "pools w (pool_key q) = Some q0 \<Longrightarrow> resourceVersion (pmeta q) = resourceVersion (pmeta q0) \<Longrightarrow>
      finalizers (pmeta q) = [] \<Longrightarrow> dying (pLib r) (pmeta q0) \<Longrightarrow>
      \<exists>q' w'. pUpdate r q w = (Inr q', w') \<and> pool_key q' = pool_key q \<and>
        pools w' = (pools w)(pool_key q := None) \<and> objs w' = objs w \<and> rest w' = rest w"
    using spec[OF spec[OF spec[OF conjunct1[OF S4], of w], of q], of q0] by blast
  show "pools w (pool_key q) = None \<Longrightarrow> \<exists>x. pStatusUpdate r q w = (x, w) \<and> missing (pLib r) x"
    "pools w (pool_key q) = Some q0 \<Longrightarrow> \<exists>x q1 w'. pStatusUpdate r q w = (x, w') \<and> same_pool_object q0 q1 \<and>
        pools w' = (pools w)(pool_key q \<mapsto> q1) \<and> objs w' = objs w \<and> rest w' = rest w"
    using spec[OF spec[OF S5, of w], of q] by simp_all
qed

lemma delete_pass:
  assumes S: "pool_service r objs pools rest" and L: "lib_laws (pLib r)" and "distinct bs"
    and "\<forall>b \<in> set bs. objs w (bmi_key b) = Some b \<and> (dying (pLib r) (imeta b) \<longrightarrow> finalizers (imeta b) \<noteq> [])"
  shows "\<exists>w'. delete_instances r bs w = (None, w') \<and> pools w' = pools w \<and> rest w' = rest w \<and>
    (\<forall>k. k \<notin> bmi_key ` set bs \<longrightarrow> objs w' k = objs w k) \<and>
    (\<forall>b \<in> set bs. finalizers (imeta b) = [] \<and> objs w' (bmi_key b) = None \<or>
       finalizers (imeta b) \<noteq> [] \<and> (\<exists>b'. objs w' (bmi_key b) = Some b' \<and> doomed (pLib r) b b'))"
  using assms(3,4)
proof (induction bs arbitrary: w)
  case Nil
  then show ?case by simp
next
  case (Cons b bs)
  have b: "objs w (bmi_key b) = Some b" "dying (pLib r) (imeta b) \<Longrightarrow> finalizers (imeta b) \<noteq> []" using Cons.prems(2) by simp_all
  have other: "bmi_key c \<noteq> bmi_key b" if "c \<in> set bs" for c
    using that Cons.prems b(1) by (metis distinct.simps(2) list.set_intros(2) option.inject)
  have "\<exists>w1. delete_instances r (b # bs) w = delete_instances r bs w1 \<and> pools w1 = pools w \<and> rest w1 = rest w \<and>
      (\<forall>k. k \<noteq> bmi_key b \<longrightarrow> objs w1 k = objs w k) \<and>
      (finalizers (imeta b) = [] \<and> objs w1 (bmi_key b) = None \<or>
       finalizers (imeta b) \<noteq> [] \<and> (\<exists>b'. objs w1 (bmi_key b) = Some b' \<and> doomed (pLib r) b b'))"
  proof (cases "dying (pLib r) (imeta b)")
    case True
    then show ?thesis using b by (intro exI[of _ w]) (simp add: doomed_def)
  next
    case False
    then obtain b' w1 where "pDelete r b w = (None, w1)" "doomed (pLib r) b b'" "pools w1 = pools w" "rest w1 = rest w"
      "objs w1 = (objs w)(bmi_key b := if finalizers (imeta b) = [] then None else Some b')"
      using pool_calls(5)[OF S b(1)] by blast
    then show ?thesis using False L by (intro exI[of _ w1]) simp
  qed
  then obtain w1 where w1: "delete_instances r (b # bs) w = delete_instances r bs w1" "pools w1 = pools w" "rest w1 = rest w"
    "\<forall>k. k \<noteq> bmi_key b \<longrightarrow> objs w1 k = objs w k"
    "finalizers (imeta b) = [] \<and> objs w1 (bmi_key b) = None \<or>
       finalizers (imeta b) \<noteq> [] \<and> (\<exists>b'. objs w1 (bmi_key b) = Some b' \<and> doomed (pLib r) b b')" by blast
  have "\<forall>c \<in> set bs. objs w1 (bmi_key c) = Some c \<and> (dying (pLib r) (imeta c) \<longrightarrow> finalizers (imeta c) \<noteq> [])"
  proof
    fix c assume c: "c \<in> set bs"
    show "objs w1 (bmi_key c) = Some c \<and> (dying (pLib r) (imeta c) \<longrightarrow> finalizers (imeta c) \<noteq> [])"
      using w1(4)[rule_format, OF other[OF c]] Cons.prems(2) c by simp
  qed
  then obtain w' where w': "delete_instances r bs w1 = (None, w')" "pools w' = pools w1" "rest w' = rest w1"
    "\<forall>k. k \<notin> bmi_key ` set bs \<longrightarrow> objs w' k = objs w1 k"
    "\<forall>c \<in> set bs. finalizers (imeta c) = [] \<and> objs w' (bmi_key c) = None \<or>
       finalizers (imeta c) \<noteq> [] \<and> (\<exists>b'. objs w' (bmi_key c) = Some b' \<and> doomed (pLib r) c b')"
    using Cons.IH[of w1] Cons.prems(1) by auto
  have "objs w' (bmi_key b) = objs w1 (bmi_key b)" using w'(4) other by (metis imageE)
  then show ?case using w1 w' by (intro exI[of _ w']) simp
qed

text \<open>The pool as its deletion works on it, and the call in terms of it.\<close>

definition tearing_down :: "('p, 'w) pool_reconciler \<Rightarrow> pool \<Rightarrow> pool" where
  "tearing_down r q =
     (let q = set_pool_condition (pLib r) BareMetalPoolConditionTypeReady ConditionFalse
                ''BareMetalPool is being torn down'' BareMetalPoolReasonDeleting
                (set_pool_phase BareMetalPoolPhaseDeleting q)
      in if poolJobs (pstatus q) = None then set_poolJobs (Some []) q else q)"

lemma tearing_down_simps [simp]:
  "pmeta (tearing_down r q) = pmeta q" "pspec (tearing_down r q) = pspec q"
  by (simp_all add: tearing_down_def Let_def)

lemma pool_deletion_call:
  assumes "pList r (objNamespace (pmeta q)) (pool_label q) w = (Inr items, w)"
    and "delete_instances r items w = (None, w1)"
  shows "pool_handleDeletion r q w =
    (if items = [] then teardown r (tearing_down r q) w1
     else ((requeue_after (HostDeletionPollIntervalDuration r), None), tearing_down r q, w1))"
proof -
  have "pool_label (tearing_down r q) = pool_label q" by (simp add: pool_label_def)
  moreover have "items = [] \<Longrightarrow> w1 = w" using assms(2) by simp
  ultimately show ?thesis using assms
    by (cases items) (simp_all add: pool_handleDeletion_def tearing_down_def Let_def pool_label_def)
qed

text \<open>The status the call ends with is written, whatever comes of it.\<close>

lemma pool_call_deleting:
  assumes S: "pool_service r objs pools rest" and "pools w k = Some q" and "dying (pLib r) (pmeta q)"
    and "pool_handleDeletion r q w = (res, q1, w1)" and "pool_key q1 = k"
  shows "pools w1 k = None \<Longrightarrow> pool_Reconcile r k w = (Returns res, w1)"
    and "pools w1 k = Some q0 \<Longrightarrow> \<exists>out w' q2. pool_Reconcile r k w = (out, w') \<and> same_pool_object q0 q2 \<and>
      pools w' = (pools w1)(k \<mapsto> q2) \<and> objs w' = objs w1 \<and> rest w' = rest w1"
proof -
  have run: "pool_Reconcile r k w =
      (if pDeepEqual r (pstatus q1) (pstatus q) then (Returns res, w1)
       else case pStatusUpdate r q1 w1 of
          (Inl e, w3) \<Rightarrow> if IgnoreNotFound (pLib r) (Some e) \<noteq> None then (Returns (fst res, Some e), w3) else (Returns res, w3)
        | (Inr _, w3) \<Rightarrow> (Returns res, w3))"
    using pool_calls(2)[OF S assms(2)] assms(3,4) by (simp add: pool_Reconcile_def Let_def)
  show "pool_Reconcile r k w = (Returns res, w1)" if none: "pools w1 k = None"
  proof -
    have "pools w1 (pool_key q1) = None" using none assms(5) by simp
    then obtain x where "pStatusUpdate r q1 w1 = (x, w1)" "missing (pLib r) x" using pool_calls(7)[OF S] by blast
    then show ?thesis unfolding run by (auto elim: missingE)
  qed
  show "\<exists>out w' q2. pool_Reconcile r k w = (out, w') \<and> same_pool_object q0 q2 \<and>
      pools w' = (pools w1)(k \<mapsto> q2) \<and> objs w' = objs w1 \<and> rest w' = rest w1" if some: "pools w1 k = Some q0"
  proof (cases "pDeepEqual r (pstatus q1) (pstatus q)")
    case True
    have "same_pool_object q0 q0" by (simp add: same_pool_object_def)
    then show ?thesis using True some run by (intro exI[of _ "Returns res"] exI[of _ w1] exI[of _ q0]) (simp add: fun_upd_idem)
  next
    case False
    have "pools w1 (pool_key q1) = Some q0" using some assms(5) by simp
    then obtain x q2 w' where st: "pStatusUpdate r q1 w1 = (x, w')" "same_pool_object q0 q2"
      "pools w' = (pools w1)(k \<mapsto> q2)" "objs w' = objs w1" "rest w' = rest w1"
      using pool_calls(8)[OF S] assms(5) by metis
    then have "snd (pool_Reconcile r k w) = w'" using False run by (simp split: sum.split)
    then show ?thesis using st by (metis prod.collapse)
  qed
qed

text \<open>
  Deletion was asked of the instances \<open>K\<close>: those without finalizers are gone, the others marked, and no
  other instance has changed.
\<close>

definition requested :: "lib \<Rightarrow> object_key set \<Rightarrow> (object_key \<Rightarrow> bmi option) \<Rightarrow> (object_key \<Rightarrow> bmi option) \<Rightarrow> bool" where
  "requested L K os os' \<longleftrightarrow> (\<forall>k. k \<notin> K \<longrightarrow> os' k = os k) \<and>
     (\<forall>k \<in> K. \<exists>b. os k = Some b \<and>
        (finalizers (imeta b) = [] \<and> os' k = None \<or>
         finalizers (imeta b) \<noteq> [] \<and> (\<exists>b'. os' k = Some b' \<and> doomed L b b')))"

lemma requested_left:
  assumes "requested L K os os'" and "k \<in> K" and "os' k = Some b'"
  shows "\<exists>b. os k = Some b \<and> finalizers (imeta b) \<noteq> [] \<and> doomed L b b'"
proof -
  obtain b where "os k = Some b" "finalizers (imeta b) = [] \<and> os' k = None \<or>
      finalizers (imeta b) \<noteq> [] \<and> (\<exists>b'. os' k = Some b' \<and> doomed L b b')"
    using assms(1,2) unfolding requested_def by blast
  then show ?thesis using assms(3) by auto
qed

lemma doomed_holds: "doomed L b b' \<Longrightarrow> holds b' = holds b"
  by (simp add: doomed_def holds_def)

lemma requested_hosts:
  assumes "requested L K os os'"
  shows "hosts_held os' K = hosts_held os K"
proof (rule set_eqI, unfold in_hosts_held, rule iffI)
  fix hk assume "\<exists>k \<in> K. \<exists>b. os' k = Some b \<and> hk \<in> holds b"
  then show "\<exists>k \<in> K. \<exists>b. os k = Some b \<and> hk \<in> holds b"
    using requested_left[OF assms] doomed_holds by metis
next
  fix hk assume "\<exists>k \<in> K. \<exists>b. os k = Some b \<and> hk \<in> holds b"
  then obtain k b where b: "k \<in> K" "os k = Some b" "hk \<in> holds b" by blast
  have "finalizers (imeta b) \<noteq> []" using b(3) by (auto simp: holds_def)
  moreover have "finalizers (imeta b) = [] \<and> os' k = None \<or>
      finalizers (imeta b) \<noteq> [] \<and> (\<exists>b'. os' k = Some b' \<and> doomed L b b')"
    using assms b(1,2) unfolding requested_def by fastforce
  ultimately obtain b' where "os' k = Some b'" "doomed L b b'" by blast
  then show "\<exists>k \<in> K. \<exists>b. os' k = Some b \<and> hk \<in> holds b" using b doomed_holds by blast
qed

text \<open>A call that finds members asks for their deletion and waits.\<close>

lemma pool_pass_waits:
  assumes S: "pool_service r objs pools rest" and L: "lib_laws (pLib r)" and q: "pools w k = Some q" "dying (pLib r) (pmeta q)"
    and K: "K = {bk. \<exists>b. objs w bk = Some b \<and> in_pool q b}" and "K \<noteq> {}"
    and keyed: "\<And>bk b. objs w bk = Some b \<Longrightarrow> bmi_key b = bk"
    and ok: "\<And>bk b. bk \<in> K \<Longrightarrow> objs w bk = Some b \<Longrightarrow> dying (pLib r) (imeta b) \<Longrightarrow> finalizers (imeta b) \<noteq> []"
  shows "\<exists>out w' q'. pool_Reconcile r k w = (out, w') \<and> same_pool_object q q' \<and> pools w' = (pools w)(k \<mapsto> q') \<and>
    rest w' = rest w \<and> requested (pLib r) K (objs w) (objs w')"
proof -
  obtain items where items: "pList r (objNamespace (pmeta q)) (pool_label q) w = (Inr items, w)" "distinct items"
    "set items = {b. in_pool q b \<and> objs w (bmi_key b) = Some b}" using pool_calls(4)[OF S] by blast
  have keys: "bmi_key ` set items = K" using items(3) keyed unfolding K by force
  then have "items \<noteq> []" using assms(6) by auto
  have "\<forall>b \<in> set items. objs w (bmi_key b) = Some b \<and> (dying (pLib r) (imeta b) \<longrightarrow> finalizers (imeta b) \<noteq> [])"
    using items(3) ok keys by blast
  from delete_pass[OF S L items(2) this] obtain w1 where w1: "delete_instances r items w = (None, w1)"
    "pools w1 = pools w" "rest w1 = rest w" "\<forall>bk. bk \<notin> K \<longrightarrow> objs w1 bk = objs w bk"
    "\<forall>b \<in> set items. finalizers (imeta b) = [] \<and> objs w1 (bmi_key b) = None \<or>
       finalizers (imeta b) \<noteq> [] \<and> (\<exists>b'. objs w1 (bmi_key b) = Some b' \<and> doomed (pLib r) b b')"
    unfolding keys by blast
  have "pool_key (tearing_down r q) = k" using pool_calls(1)[OF S q(1)] by (simp add: pool_key_def)
  then obtain out w' q' where call: "pool_Reconcile r k w = (out, w')" "same_pool_object q q'"
    "pools w' = (pools w1)(k \<mapsto> q')" "objs w' = objs w1" "rest w' = rest w1"
    using pool_call_deleting(2)[OF S q pool_deletion_call[OF items(1) w1(1), unfolded if_not_P[OF \<open>items \<noteq> []\<close>]]] w1(2) q(1)
    by metis
  have "\<exists>b. objs w bk = Some b \<and> (finalizers (imeta b) = [] \<and> objs w1 bk = None \<or>
       finalizers (imeta b) \<noteq> [] \<and> (\<exists>b'. objs w1 bk = Some b' \<and> doomed (pLib r) b b'))" if "bk \<in> K" for bk
  proof -
    obtain b where b: "b \<in> set items" "bmi_key b = bk" using keys \<open>bk \<in> K\<close> by blast
    then have "objs w bk = Some b" using items(3) by blast
    then show ?thesis using bspec[OF w1(5) b(1)] unfolding b(2) by blast
  qed
  then have "requested (pLib r) K (objs w) (objs w1)" using w1(4) by (simp add: requested_def)
  then show ?thesis using call w1(2,3) by (intro exI[of _ out] exI[of _ w'] exI[of _ q']) simp
qed

text \<open>A call that finds none lets the pool go.\<close>

lemma pool_pass_goes:
  assumes S: "pool_service r objs pools rest" and L: "lib_laws (pLib r)" and q: "pools w k = Some q" "dying (pLib r) (pmeta q)"
    and "\<And>b. \<not> (in_pool q b \<and> objs w (bmi_key b) = Some b)"
    and "set (finalizers (pmeta q)) = {BareMetalPoolFinalizer}" and "\<not> runs_pool_template (profile_of r q)"
  shows "\<exists>w'. pool_Reconcile r k w = (Returns ok_done, w') \<and> pools w' = (pools w)(k := None) \<and> objs w' = objs w \<and> rest w' = rest w"
proof -
  have "{b. in_pool q b \<and> objs w (bmi_key b) = Some b} = {}" using assms(5) by simp
  then have list: "pList r (objNamespace (pmeta q)) (pool_label q) w = (Inr [], w)"
    using pool_calls(4)[OF S, of q w] by (simp del: Collect_empty_eq)
  let ?q = "set_pool_finalizers [] (tearing_down r q)"
  have key: "pool_key ?q = k" using pool_calls(1)[OF S q(1)] by (simp add: pool_key_def)
  obtain q' w' where up: "pUpdate r ?q w = (Inr q', w')" "pool_key q' = k" "pools w' = (pools w)(k := None)"
    "objs w' = objs w" "rest w' = rest w" using pool_calls(6)[OF S, of w ?q q] q key by auto
  obtain fs where "RemoveFinalizer (pLib r) (finalizers (pmeta q)) BareMetalPoolFinalizer = (fs, True)" "fs = []"
    using lib_RemoveFinalizer(1,2)[OF L, where fs = "finalizers (pmeta q)" and f = BareMetalPoolFinalizer] assms(6)
    by (cases "RemoveFinalizer (pLib r) (finalizers (pmeta q)) BareMetalPoolFinalizer") auto
  then have "teardown r (tearing_down r q) w = (ok_done, q', w')"
    using up(1) assms(7) by (simp add: teardown_def drop_pool_finalizer_def profile_of_def)
  then have "pool_handleDeletion r q w = (ok_done, q', w')" using pool_deletion_call[OF list, of w] by simp
  then have "pool_Reconcile r k w = (Returns ok_done, w')" using pool_call_deleting(1)[OF S q _ up(2)] up(3) by simp
  then show ?thesis using up by blast
qed

lemma pool_pass_gone:
  "pool_service r objs pools rest \<Longrightarrow> pools w k = None \<Longrightarrow> pool_Reconcile r k w = (Returns ok_done, w)"
  using pool_calls(3)[of r objs pools rest w k] by (auto simp: pool_Reconcile_def elim!: missingE)

section \<open>Both controllers\<close>

text \<open>
  The pool controller is called, then the instance controller for each key of \<open>ks\<close>, then the pool
  controller again.
\<close>

definition take_down ::
    "('q, 'w) pool_reconciler \<Rightarrow> ('p, 'w) bmi_reconciler \<Rightarrow> object_key \<Rightarrow> object_key list \<Rightarrow> 'w proc \<Rightarrow>
     pool_outcome \<times> 'w proc" where
  "take_down pr r k ks p =
     (let p1 = reconcile_all r ks (p\<lparr>pworld := snd (pool_Reconcile pr k (pworld p))\<rparr>);
          (out, w) = pool_Reconcile pr k (pworld p1)
      in (out, p1\<lparr>pworld := w\<rparr>))"

lemma in_pool_same: "same_pool_object q q' \<Longrightarrow> in_pool q' b = in_pool q b"
  by (simp add: same_pool_object_def same_pool_def in_pool_def)

lemma no_member_left:
  assumes "K = {bk. \<exists>b. os bk = Some b \<and> in_pool q b}" and "same_pool_object q q'" and "os' = os |` (- K)"
  shows "\<not> (in_pool q' b \<and> os' (bmi_key b) = Some b)"
  using assms in_pool_same[OF assms(2)] by (auto simp: restrict_map_def split: if_splits)

lemma doomed_releasable: "doomed L b b' \<Longrightarrow> store w' = store w \<Longrightarrow> releasable store w b \<Longrightarrow> releasable store w' b'"
  by (simp add: doomed_def releasable_def uses_template_def)

lemma requested_go:
  assumes O: "instance_operator r m objs pools store" and R: "requested (rLib r) (set ks) (objs (pworld p)) (objs w1)"
    and "store w1 = store (pworld p)" and ok: "\<And>bk b. bk \<in> set ks \<Longrightarrow> objs (pworld p) bk = Some b \<Longrightarrow> releasable store (pworld p) b"
    and "held (plocks p) = {}"
  shows "objs (pworld (reconcile_all r ks (p\<lparr>pworld := w1\<rparr>))) = objs (pworld p) |` (- set ks)"
    and "pools (pworld (reconcile_all r ks (p\<lparr>pworld := w1\<rparr>))) = pools w1"
    and "hosts_freed (hosts_held (objs (pworld p)) (set ks)) (store (pworld p))
      (store (pworld (reconcile_all r ks (p\<lparr>pworld := w1\<rparr>))))"
proof -
  let ?p1 = "p\<lparr>pworld := w1\<rparr>" let ?p2 = "reconcile_all r ks ?p1"
  have go: "dying (rLib r) (imeta b') \<and> finalizers (imeta b') \<noteq> [] \<and> releasable store (pworld ?p1) b'"
    if k: "bk \<in> set ks" and "objs (pworld ?p1) bk = Some b'" for bk b'
  proof -
    have "objs w1 bk = Some b'" using that(2) by simp
    from requested_left[OF R k this] obtain b where
      b: "objs (pworld p) bk = Some b" "finalizers (imeta b) \<noteq> []" "doomed (rLib r) b b'" by blast
    show ?thesis using b(2,3) doomed_releasable[OF b(3) assms(3) ok[OF k b(1)]] by (simp add: doomed_def)
  qed
  have p2: "objs (pworld ?p2) = objs w1 |` (- set ks) \<and> pools (pworld ?p2) = pools w1 \<and>
      hosts_freed (hosts_held (objs w1) (set ks)) (store w1) (store (pworld ?p2))"
    using all_go[OF O, of ?p1 ks] go assms(5) by simp
  show "objs (pworld ?p2) = objs (pworld p) |` (- set ks)"
    using p2 R by (auto simp: restrict_map_def fun_eq_iff requested_def)
  show "pools (pworld ?p2) = pools w1" using p2 by blast
  show "hosts_freed (hosts_held (objs (pworld p)) (set ks)) (store (pworld p)) (store (pworld ?p2))"
    using p2 requested_hosts[OF R] assms(3) by simp
qed

text \<open>C14: The deletion of a pool runs to its end across both controllers. A pool under deletion without a workflow
  is reconciled, then each of its instances is, then the pool again: after that the pool is gone,
  exactly its instances are gone, every host one of them had in the inventory is there without a
  mark, and nothing else in the cluster has changed; the last call reports success. It needs an API
  server that answers, no foreign finalizer on the pool or its instances, and no other host lock held.\<close>

theorem pool_deletion_completes:
  assumes O: "instance_operator r m objs pools store" and S: "pool_service pr objs pools store" and "pLib pr = rLib r"
    and q: "pools (pworld p) k = Some q" "dying (pLib pr) (pmeta q)" "set (finalizers (pmeta q)) = {BareMetalPoolFinalizer}"
    and "\<not> runs_pool_template (profile_of pr q)"
    and members: "set ks = {bk. \<exists>b. objs (pworld p) bk = Some b \<and> in_pool q b}"
    and ok: "\<And>bk b. bk \<in> set ks \<Longrightarrow> objs (pworld p) bk = Some b \<Longrightarrow>
      releasable store (pworld p) b \<and> (dying (rLib r) (imeta b) \<longrightarrow> finalizers (imeta b) \<noteq> [])"
    and "held (plocks p) = {}"
  shows "\<exists>p'. take_down pr r k ks p = (Returns ok_done, p') \<and>
    pools (pworld p') = (pools (pworld p))(k := None) \<and> objs (pworld p') = objs (pworld p) |` (- set ks) \<and>
    hosts_freed (hosts_held (objs (pworld p)) (set ks)) (store (pworld p)) (store (pworld p'))"
proof -
  note O' = O[unfolded instance_operator_def]
  have L: "lib_laws (pLib pr)" using O' assms(3) by simp
  have keyed: "bmi_key b = bk" if "objs w bk = Some b" for w bk b
    by (rule instance_calls(1)[OF conjunct1[OF conjunct2[OF conjunct2[OF O']]] that])
  show ?thesis
  proof (cases "ks = []")
    case True
    have all: "objs (pworld p) |` (- set ks) = objs (pworld p)" using True by (simp add: restrict_map_def)
    note none = no_member_left[OF members _ all[symmetric], of q]
    obtain w' where "pool_Reconcile pr k (pworld p) = (Returns ok_done, w')" "pools w' = (pools (pworld p))(k := None)"
      "objs w' = objs (pworld p)" "store w' = store (pworld p)"
      using pool_pass_goes[OF S L q(1,2) none q(3) assms(7)] by (auto simp: same_pool_object_def)
    then show ?thesis using True all pool_pass_gone[OF S, of w' k]
      by (simp add: take_down_def reconcile_all_def hosts_held_def)
  next
    case False
    have "\<exists>out w' q'. pool_Reconcile pr k (pworld p) = (out, w') \<and> same_pool_object q q' \<and>
        pools w' = (pools (pworld p))(k \<mapsto> q') \<and> store w' = store (pworld p) \<and>
        requested (pLib pr) (set ks) (objs (pworld p)) (objs w')"
      using False keyed ok assms(3) by (intro pool_pass_waits[OF S L q(1,2) members]) auto
    then obtain out w1 q1 where w1: "pool_Reconcile pr k (pworld p) = (out, w1)" "same_pool_object q q1"
      "pools w1 = (pools (pworld p))(k \<mapsto> q1)" "store w1 = store (pworld p)"
      "requested (rLib r) (set ks) (objs (pworld p)) (objs w1)" using assms(3) by auto
    let ?p2 = "reconcile_all r ks (p\<lparr>pworld := w1\<rparr>)"
    have p2: "objs (pworld ?p2) = objs (pworld p) |` (- set ks)" "pools (pworld ?p2) = pools w1"
      "hosts_freed (hosts_held (objs (pworld p)) (set ks)) (store (pworld p)) (store (pworld ?p2))"
      using requested_go[OF O w1(5,4) _ assms(10)] ok by blast+
    note none = no_member_left[OF members w1(2) p2(1)]
    have q1: "pools (pworld ?p2) k = Some q1" "dying (pLib pr) (pmeta q1)" "set (finalizers (pmeta q1)) = {BareMetalPoolFinalizer}"
      "\<not> runs_pool_template (profile_of pr q1)"
      using p2 w1(2,3) q assms(7) by (simp_all add: same_pool_object_def same_pool_def profile_of_def)
    obtain w' where "pool_Reconcile pr k (pworld ?p2) = (Returns ok_done, w')" "pools w' = (pools (pworld ?p2))(k := None)"
      "objs w' = objs (pworld ?p2)" "store w' = store (pworld ?p2)"
      using pool_pass_goes[OF S L q1(1,2) none q1(3,4)] by blast
    then show ?thesis using w1(1,3) p2 by (simp add: take_down_def)
  qed
qed

section \<open>An example cluster\<close>

text \<open>Objects in lists, found by their keys.\<close>

definition lookup_by :: "('a \<Rightarrow> 'k) \<Rightarrow> 'a list \<Rightarrow> 'k \<Rightarrow> 'a option" where
  "lookup_by key xs k = find (\<lambda>x. key x = k) xs"

definition store_by :: "('a \<Rightarrow> 'k) \<Rightarrow> 'a \<Rightarrow> 'a list \<Rightarrow> 'a list" where
  "store_by key x xs = map (\<lambda>y. if key y = key x then x else y) xs"

definition remove_by :: "('a \<Rightarrow> 'k) \<Rightarrow> 'k \<Rightarrow> 'a list \<Rightarrow> 'a list" where
  "remove_by key k xs = filter (\<lambda>y. key y \<noteq> k) xs"

lemma lookup_by_key: "lookup_by key xs k = Some x \<Longrightarrow> key x = k \<and> x \<in> set xs"
  by (auto simp: lookup_by_def find_Some_iff)

lemma lookup_store_by: "lookup_by key xs (key x) \<noteq> None \<Longrightarrow> lookup_by key (store_by key x xs) = (lookup_by key xs)(key x \<mapsto> x)"
proof (rule ext)
  assume "lookup_by key xs (key x) \<noteq> None"
  then have same: "lookup_by key (store_by key x xs) (key x) = Some x"
    by (induction xs) (auto simp: lookup_by_def store_by_def split: if_splits)
  have other: "k \<noteq> key x \<Longrightarrow> lookup_by key (store_by key x xs) k = lookup_by key xs k" for k
    by (induction xs) (auto simp: lookup_by_def store_by_def)
  show "lookup_by key (store_by key x xs) k = ((lookup_by key xs)(key x \<mapsto> x)) k" for k
    using same other by simp
qed

lemma lookup_remove_by: "lookup_by key (remove_by key k xs) = (lookup_by key xs)(k := None)"
  by (induction xs) (auto simp: lookup_by_def remove_by_def fun_eq_iff)

record site =
  siteObjs :: "bmi list"
  sitePools :: "pool list"
  siteHosts :: ref_world

abbreviation site_obj :: "site \<Rightarrow> object_key \<Rightarrow> bmi option" where
  "site_obj w \<equiv> lookup_by bmi_key (siteObjs w)"

abbreviation site_pool :: "site \<Rightarrow> object_key \<Rightarrow> pool option" where
  "site_pool w \<equiv> lookup_by pool_key (sitePools w)"

abbreviation site_store :: "site bmh_store" where
  "site_store \<equiv> \<lambda>w. ref_store (siteHosts w)"

definition found :: "'a option \<Rightarrow> go_error + 'a" where
  "found x = (case x of None \<Rightarrow> Inl (ForeignError ''not found'') | Some y \<Rightarrow> Inr y)"

definition site_put :: "bmi \<Rightarrow> site \<Rightarrow> (go_error + bmi) \<times> site" where
  "site_put b w = (case site_obj w (bmi_key b) of
     None \<Rightarrow> (found None, w)
   | Some b0 \<Rightarrow>
       if resourceVersion (imeta b) \<noteq> resourceVersion (imeta b0) then (Inl (ForeignError ''conflict''), w)
       else if finalizers (imeta b) = [] \<and> dying ref_lib (imeta b0)
         then (Inr b, w\<lparr>siteObjs := remove_by bmi_key (bmi_key b) (siteObjs w)\<rparr>)
       else (Inr b, w\<lparr>siteObjs := store_by bmi_key b (siteObjs w)\<rparr>))"

definition site_put_status :: "bmi \<Rightarrow> site \<Rightarrow> (go_error + bmi) \<times> site" where
  "site_put_status b w = (case site_obj w (bmi_key b) of
     None \<Rightarrow> (found None, w)
   | Some b0 \<Rightarrow> (Inr (b0\<lparr>istatus := istatus b\<rparr>), w\<lparr>siteObjs := store_by bmi_key (b0\<lparr>istatus := istatus b\<rparr>) (siteObjs w)\<rparr>))"

definition site_delete :: "bmi \<Rightarrow> site \<Rightarrow> go_error option \<times> site" where
  "site_delete b w = (case site_obj w (bmi_key b) of
     None \<Rightarrow> (Some (ForeignError ''not found''), w)
   | Some b0 \<Rightarrow> (None, w\<lparr>siteObjs :=
       if finalizers (imeta b0) = [] then remove_by bmi_key (bmi_key b) (siteObjs w)
       else store_by bmi_key (b0\<lparr>imeta := (imeta b0)\<lparr>deletionTimestamp := Some 7\<rparr>\<rparr>) (siteObjs w)\<rparr>))"

definition site_list :: "string \<Rightarrow> gomap \<Rightarrow> site \<Rightarrow> (go_error + bmi list) \<times> site" where
  "site_list ns ls w = (Inr (filter (\<lambda>b. site_obj w (bmi_key b) = Some b \<and> objNamespace (imeta b) = ns \<and>
     list_all (\<lambda>(l, v). map_of (entries (objLabels (imeta b))) l = Some v) ls) (remdups (siteObjs w))), w)"

definition site_put_pool :: "pool \<Rightarrow> site \<Rightarrow> (go_error + pool) \<times> site" where
  "site_put_pool q w = (case site_pool w (pool_key q) of
     None \<Rightarrow> (found None, w)
   | Some q0 \<Rightarrow> (Inr q, w\<lparr>sitePools := if finalizers (pmeta q) = [] \<and> dying ref_lib (pmeta q0)
       then remove_by pool_key (pool_key q) (sitePools w) else store_by pool_key q (sitePools w)\<rparr>))"

definition site_put_pool_status :: "pool \<Rightarrow> site \<Rightarrow> (go_error + pool) \<times> site" where
  "site_put_pool_status q w = (case site_pool w (pool_key q) of
     None \<Rightarrow> (found None, w)
   | Some q0 \<Rightarrow> (Inr (q0\<lparr>pstatus := pstatus q\<rparr>), w\<lparr>sitePools := store_by pool_key (q0\<lparr>pstatus := pstatus q\<rparr>) (sitePools w)\<rparr>))"

definition site_metal3 :: "site metal3_inventory" where
  "site_metal3 = \<lparr>m3client = bmh_api_at siteHosts (\<lambda>v w. w\<lparr>siteHosts := v\<rparr>) ref_bmh_api, m3namespace = ''metal'',
     m3hostClass = ''metal3'', m3networkClass = ''net'', m3draws = (\<lambda>_ _. 0)\<rparr>"

definition site_instances :: "(unit, site) bmi_reconciler" where
  "site_instances = \<lparr>rLib = ref_lib, rGet = (\<lambda>k w. (found (site_obj w k), w)), rUpdate = site_put,
     rStatusUpdate = site_put_status, rDeepEqual = (=), InventoryClient = metal3_inventory_client site_metal3,
     ManagementClient = \<lparr>GetPowerState = (\<lambda>h w. (Inr (Some \<lparr>powerState = PowerOff, isTransitioning = False\<rparr>), w)),
       SetPowerState = (\<lambda>h t w. (None, w)), TriggerRestart = (\<lambda>h w. (None, w)), IsRestartComplete = (\<lambda>h w. (Inr True, w))\<rparr>,
     ProvisioningProvider = None, NoFreeHostsPollIntervalDuration = 30, TryLockFailPollIntervalDuration = 1,
     ManagementRecheckIntervalDuration = 10, ProvisionPollIntervalDuration = 60, provisioning_DefaultMaxJobHistory = 10,
     ComputeDesiredConfigVersion = (\<lambda>c. Inr ''v1''), RunProvisioningLifecycle = (\<lambda>p hooks s. ((no_requeue, None), s)),
     RunDeprovisioningLifecycle = (\<lambda>p hooks s. ((no_requeue, True, None), s)),
     CheckAPIServerForNonTerminalProvisionJob = (\<lambda>k w. (False, w))\<rparr>"

definition site_pools :: "(unit, site) pool_reconciler" where
  "site_pools = \<lparr>pLib = ref_lib, pGet = (\<lambda>k w. (found (site_pool w k), w)), pUpdate = site_put_pool,
     pStatusUpdate = site_put_pool_status, pDeepEqual = (=), pList = site_list, pCreate = (\<lambda>b w. (None, w)),
     pDelete = site_delete, SetControllerReference = (\<lambda>p b. Inr b), rand_String = (\<lambda>n w. (''x7k2p'', w)),
     rangeOrder = (\<lambda>w xs. xs), registeredProfiles = [], yaml_Unmarshal = (\<lambda>s. Inr []), provider = None,
     HostReadyPollIntervalDuration = 10, HostDeletionPollIntervalDuration = 5, ProvisionJobPollIntervalDuration = 60,
     MaxJobHistory = 10, pool_ComputeDesiredConfigVersion = (\<lambda>sp. Inr ''v1''),
     pool_RunProvisioningLifecycle = (\<lambda>prov hooks s. ((no_requeue, None), s)),
     pool_RunDeprovisioningLifecycle = (\<lambda>prov hooks s. ((no_requeue, True, None), s)),
     pool_CheckAPIServerForNonTerminalProvisionJob = (\<lambda>k w. (False, w))\<rparr>"

lemma missing_found: "missing ref_lib (found None)"
  by (simp add: missing_def found_def ref_lib_def)

lemma site_instances_ops:
  "rLib site_instances = ref_lib" "rGet site_instances = (\<lambda>k w. (found (site_obj w k), w))"
  "rUpdate site_instances = site_put" "rStatusUpdate site_instances = site_put_status"
  "InventoryClient site_instances = metal3_inventory_client site_metal3"
  by (simp_all add: site_instances_def)

lemma site_pools_ops:
  "pLib site_pools = ref_lib" "pGet site_pools = (\<lambda>k w. (found (site_pool w k), w))"
  "pUpdate site_pools = site_put_pool" "pStatusUpdate site_pools = site_put_pool_status"
  "pList site_pools = site_list" "pDelete site_pools = site_delete"
  by (simp_all add: site_pools_def)

lemma site_instance_service: "instance_service site_instances site_obj (\<lambda>w. (site_store w, site_pool w))"
proof -
  have put: "\<exists>b' w'. site_put b w = (Inr b', w') \<and> same_object b b' \<and>
      (site_store w', site_pool w') = (site_store w, site_pool w) \<and> site_obj w' = (site_obj w)(bmi_key b := if finalizers (imeta b) = [] \<and> dying ref_lib (imeta b0) then None else Some b')"
    if "site_obj w (bmi_key b) = Some b0" "resourceVersion (imeta b) = resourceVersion (imeta b0)" for w b b0
    using that by (auto simp: site_put_def same_object_def lookup_store_by lookup_remove_by)
  have st: "\<exists>x. site_put_status b w = (x, w) \<and> missing ref_lib x" if "site_obj w (bmi_key b) = None" for w b
    using that by (simp add: site_put_status_def missing_found)
  have get: "case site_obj w k of None \<Rightarrow> \<exists>x. (found (site_obj w k), w) = (x, w) \<and> missing ref_lib x
      | Some b \<Rightarrow> bmi_key b = k \<and> (found (site_obj w k), w) = (Inr b, w)" for w k
    by (auto simp: missing_found found_def[of "Some _"] split: option.split dest: lookup_by_key)
  show ?thesis
    unfolding instance_service_def site_instances_ops using get put st by blast
qed

lemma site_host_service: "host_service site_metal3 site_store (\<lambda>w. (site_obj w, site_pool w))"
proof -
  have api: "m3client site_metal3 = bmh_api_at siteHosts (\<lambda>v w. w\<lparr>siteHosts := v\<rparr>) ref_bmh_api" by (simp add: site_metal3_def)
  have laws: "bmh_laws (m3client site_metal3) site_store (=)"
    unfolding api by (rule bmh_laws_at[OF ref_bmh_laws]) simp_all
  have get: "site_store w hk = Some h \<Longrightarrow> bmh_Get (m3client site_metal3) hk w = (Inr h, w)" for w hk h
    by (simp add: api bmh_api_at_def at_part_def ref_bmh_api_def)
  have upd: "\<exists>h' w'. bmh_Update (m3client site_metal3) h w = (Inr h', w') \<and>
      (site_obj w', site_pool w') = (site_obj w, site_pool w)"
    if "site_store w (bmh_key h) = Some h0" "bmhResourceVersion h0 = bmhResourceVersion h" for w h h0
    using that by (simp add: api bmh_api_at_def at_part_def ref_bmh_api_def ref_update_def Let_def)
  show ?thesis unfolding host_service_def using laws get upd by blast
qed

lemma site_instance_operator: "instance_operator site_instances site_metal3 site_obj site_pool site_store"
  unfolding instance_operator_def site_instances_ops
  using ref_lib_laws site_instance_service site_host_service by blast

lemma site_pool_service: "pool_service site_pools site_obj site_pool site_store"
proof -
  have get: "case site_pool w k of None \<Rightarrow> \<exists>x. (found (site_pool w k), w) = (x, w) \<and> missing ref_lib x
      | Some q \<Rightarrow> pool_key q = k \<and> (found (site_pool w k), w) = (Inr q, w)" for w k
    by (auto simp: missing_found found_def[of "Some _"] split: option.split dest: lookup_by_key)
  have lst: "\<exists>items. site_list (objNamespace (pmeta q)) (pool_label q) w = (Inr items, w) \<and> distinct items \<and>
      set items = {b. in_pool q b \<and> site_obj w (bmi_key b) = Some b}" for w q
    by (auto simp: site_list_def in_pool_def pool_label_def dest: lookup_by_key)
  have del: "\<exists>b' w'. site_delete b w = (None, w') \<and> doomed ref_lib b0 b' \<and> site_pool w' = site_pool w \<and>
      site_store w' = site_store w \<and>
      site_obj w' = (site_obj w)(bmi_key b := if finalizers (imeta b0) = [] then None else Some b')"
    if b: "site_obj w (bmi_key b) = Some b0" for w b b0
  proof -
    let ?b = "b0\<lparr>imeta := (imeta b0)\<lparr>deletionTimestamp := Some 7\<rparr>\<rparr>"
    have "bmi_key ?b = bmi_key b" using lookup_by_key[OF b] by (simp add: bmi_key_def)
    then have "lookup_by bmi_key (store_by bmi_key ?b (siteObjs w)) = (site_obj w)(bmi_key b \<mapsto> ?b)"
      using lookup_store_by[of bmi_key "siteObjs w" ?b] b by simp
    then show ?thesis using b
      by (intro exI[of _ ?b]) (simp add: site_delete_def doomed_def ref_lib_def lookup_remove_by)
  qed
  have upd: "\<exists>q' w'. site_put_pool q w = (Inr q', w') \<and> pool_key q' = pool_key q \<and>
      site_pool w' = (site_pool w)(pool_key q := None) \<and> site_obj w' = site_obj w \<and> site_store w' = site_store w"
    if "site_pool w (pool_key q) = Some q0" "finalizers (pmeta q) = []" "dying ref_lib (pmeta q0)" for w q q0
    using that by (simp add: site_put_pool_def lookup_remove_by)
  have st: "case site_pool w (pool_key q) of None \<Rightarrow> \<exists>x. site_put_pool_status q w = (x, w) \<and> missing ref_lib x
      | Some q0 \<Rightarrow> \<exists>x q1 w'. site_put_pool_status q w = (x, w') \<and> same_pool_object q0 q1 \<and>
          site_pool w' = (site_pool w)(pool_key q \<mapsto> q1) \<and> site_obj w' = site_obj w \<and> site_store w' = site_store w" for w q
  proof (cases "site_pool w (pool_key q)")
    case None
    then show ?thesis by (simp add: site_put_pool_status_def missing_found)
  next
    case (Some q0)
    let ?q = "q0\<lparr>pstatus := pstatus q\<rparr>"
    have key: "pool_key ?q = pool_key q" using lookup_by_key[OF Some] by (simp add: pool_key_def)
    have "lookup_by pool_key (store_by pool_key ?q (sitePools w)) = (site_pool w)(pool_key q \<mapsto> ?q)"
      using lookup_store_by[of pool_key "sitePools w" ?q] Some key by simp
    moreover have "same_pool_object q0 ?q" using key lookup_by_key[OF Some] by (simp add: same_pool_object_def same_pool_def)
    ultimately show ?thesis using Some by (auto simp: site_put_pool_status_def)
  qed
  show ?thesis unfolding pool_service_def site_pools_ops using get lst del upd st by blast
qed

text \<open>A pool under deletion with an allocated member and one that was never touched, beside a stranger.\<close>

definition site_member :: "string \<Rightarrow> string list \<Rightarrow> string \<Rightarrow> gomap option \<Rightarrow> bmi" where
  "site_member name fs h ls = demo_bmi\<lparr>
     imeta := (imeta demo_bmi)\<lparr>objName := name, objLabels := ls, finalizers := fs\<rparr>,
     ispec := (ispec demo_bmi)\<lparr>externalHostID := h\<rparr>\<rparr>"

definition site_leaving :: pool where
  "site_leaving = demo_pool\<lparr>pmeta := (pmeta demo_pool)\<lparr>deletionTimestamp := Some 5\<rparr>\<rparr>"

definition site_start :: site where
  "site_start = \<lparr>
     siteObjs = [
       site_member ''one'' [BareMetalInstanceInventoryFinalizer, BareMetalInstanceManagementFinalizer] ''metal/a''
         (Some [(BareMetalPoolLabelKey, ''p1'')]),
       site_member ''two'' [] '''' (Some [(BareMetalPoolLabelKey, ''p1'')]),
       site_member ''stranger'' [BareMetalInstanceInventoryFinalizer] ''metal/b'' None],
     sitePools = [site_leaving], siteHosts = demo_bmhs\<rparr>"

lemma site_start_hosts: "siteHosts site_start = demo_bmhs"
  by (simp add: site_start_def)

lemma site_start_obj:
  "site_obj site_start = [(''ns'', ''stranger'') \<mapsto> site_member ''stranger'' [BareMetalInstanceInventoryFinalizer] ''metal/b'' None,
     (''ns'', ''two'') \<mapsto> site_member ''two'' [] '''' (Some [(BareMetalPoolLabelKey, ''p1'')]),
     (''ns'', ''one'') \<mapsto> site_member ''one'' [BareMetalInstanceInventoryFinalizer, BareMetalInstanceManagementFinalizer]
       ''metal/a'' (Some [(BareMetalPoolLabelKey, ''p1'')])]"
  by (rule ext) (simp add: site_start_def lookup_by_def site_member_def bmi_key_def demo_bmi_def)

theorem pool_deletion_completes_witness:
  "\<exists>p'. take_down site_pools site_instances (''ns'', ''pool'') [(''ns'', ''one''), (''ns'', ''two'')]
       \<lparr>plocks = no_locks, pworld = site_start\<rparr> = (Returns ok_done, p') \<and>
     site_pool (pworld p') (''ns'', ''pool'') = None \<and> site_obj (pworld p') (''ns'', ''one'') = None \<and>
     site_obj (pworld p') (''ns'', ''stranger'') \<noteq> None \<and>
     (\<exists>x. site_store (pworld p') (''metal'', ''a'') = Some x \<and> bmhConsumerRef x = None)"
proof -
  let ?p = "\<lparr>plocks = no_locks, pworld = site_start\<rparr>" and ?ks = "[(''ns'', ''one''), (''ns'', ''two'')]"
  have pool: "site_pool (pworld ?p) (''ns'', ''pool'') = Some site_leaving"
    by (simp add: site_start_def lookup_by_def site_leaving_def demo_pool_def demo_bmi_def pool_key_def)
  have q: "dying (pLib site_pools) (pmeta site_leaving)" "set (finalizers (pmeta site_leaving)) = {BareMetalPoolFinalizer}"
    "\<not> runs_pool_template (profile_of site_pools site_leaving)" "pLib site_pools = rLib site_instances"
    by (simp_all add: site_leaving_def demo_pool_def site_pools_ops site_instances_ops ref_lib_def runs_pool_template_def profile_of_def)
  have host: "ParseHostID ''metal/a'' = Inr (''metal'', ''a'')" "ref_store demo_bmhs (''metal'', ''a'') \<noteq> None"
    by (simp add: ParseHostID_demo) (simp add: ref_store_def demo_bmhs_def demo_bmh_def bmh_key_def)
  have members: "set ?ks = {bk. \<exists>b. site_obj (pworld ?p) bk = Some b \<and> in_pool site_leaving b}"
    by (auto simp: site_start_obj in_pool_def site_member_def site_leaving_def demo_pool_def demo_bmi_def split: if_splits)
  have ok: "releasable site_store (pworld ?p) b \<and> (dying (rLib site_instances) (imeta b) \<longrightarrow> finalizers (imeta b) \<noteq> [])"
    if "bk \<in> set ?ks" "site_obj (pworld ?p) bk = Some b" for bk b
    using that host by (auto simp: site_start_obj releasable_def uses_template_def site_member_def demo_bmi_def
        site_start_hosts site_instances_ops ref_lib_def split: if_splits)
  have locks: "held (plocks ?p) = {}" by simp
  obtain p' where p': "take_down site_pools site_instances (''ns'', ''pool'') ?ks ?p = (Returns ok_done, p')"
    "site_pool (pworld p') = (site_pool (pworld ?p))((''ns'', ''pool'') := None)"
    "site_obj (pworld p') = site_obj (pworld ?p) |` (- set ?ks)"
    "hosts_freed (hosts_held (site_obj (pworld ?p)) (set ?ks)) (site_store (pworld ?p)) (site_store (pworld p'))"
    using pool_deletion_completes[OF site_instance_operator site_pool_service q(4) pool q(1-3) members _ locks] ok by blast
  have "(''metal'', ''a'') \<in> hosts_held (site_obj (pworld ?p)) (set ?ks)"
    using host by (simp add: in_hosts_held site_start_obj holds_def site_member_def)
  then have "\<exists>x. site_store (pworld p') (''metal'', ''a'') = Some x \<and> bmhConsumerRef x = None"
    using p'(4) unfolding hosts_freed_def by blast
  then show ?thesis using p'(1-3) by (intro exI[of _ p']) (simp add: restrict_map_def site_start_obj)
qed

end
