(* ===== verification/Instance_Wellformed.thy ===== *)
theory Instance_Wellformed
  imports Allocation_Refinement
begin

text \<open>
  The well-formedness of the stored instances: how host, finalizers and deletion of an object belong
  together. Every write of the instance controller keeps it, on every path of \<open>Reconcile\<close>, errors and
  the writes of other clients between two requests included.
\<close>

section \<open>Well-formed objects\<close>

text \<open>
  An allocated instance names its host; the management finalizer is only there on an allocated instance
  that has the inventory finalizer too; and an allocated instance that is not being deleted has the
  inventory finalizer, so that it cannot vanish with its host.
\<close>

definition well_formed :: "lib \<Rightarrow> bmi \<Rightarrow> bool" where
  "well_formed L b \<longleftrightarrow>
     (hostClass (ispec b) \<noteq> '''' \<longrightarrow> externalHostID (ispec b) \<noteq> '''') \<and>
     (BareMetalInstanceManagementFinalizer \<in> set (finalizers (imeta b)) \<longrightarrow>
        BareMetalInstanceInventoryFinalizer \<in> set (finalizers (imeta b)) \<and> hostClass (ispec b) \<noteq> '''') \<and>
     (time_IsZero L (deletionTimestamp (imeta b)) \<and> hostClass (ispec b) \<noteq> '''' \<longrightarrow>
        BareMetalInstanceInventoryFinalizer \<in> set (finalizers (imeta b)))"

lemma well_formed_frame:
  "ispec b' = ispec b \<Longrightarrow> imeta b' = imeta b \<Longrightarrow> well_formed L b' = well_formed L b"
  by (simp add: well_formed_def)

lemma well_formed_same: "same_object b b' \<Longrightarrow> well_formed L b' = well_formed L b"
  by (simp add: well_formed_def same_object_def)

lemma well_formed_status [simp]:
  "well_formed L (set_bmi_condition L' t s reason m b) = well_formed L b"
  "well_formed L (set_phase ph b) = well_formed L b"
  by (simp_all add: well_formed_def)

definition stored_well_formed :: "lib \<Rightarrow> ('w \<Rightarrow> string \<times> string \<Rightarrow> bmi option) \<Rightarrow> 'w \<Rightarrow> bool" where
  "stored_well_formed L objs w \<longleftrightarrow> (\<forall>k b. objs w k = Some b \<longrightarrow> well_formed L b)"

lemma stored_well_formedD: "stored_well_formed L objs w \<Longrightarrow> objs w k = Some b \<Longrightarrow> well_formed L b"
  unfolding stored_well_formed_def by blast

lemma stored_well_formed_upd:
  assumes "stored_well_formed L objs w" and "objs w' = (objs w)(k := x)" and "\<And>b. x = Some b \<Longrightarrow> well_formed L b"
  shows "stored_well_formed L objs w'"
  unfolding stored_well_formed_def
proof (intro allI impI)
  fix k' b assume "objs w' k' = Some b"
  then show "well_formed L b" using assms stored_well_formedD[OF assms(1)] by (cases "k' = k") auto
qed

lemma stored_well_formed_cong: "objs w' = objs w \<Longrightarrow> stored_well_formed L objs w' = stored_well_formed L objs w"
  by (simp add: stored_well_formed_def)

definition keeps_well_formed :: "lib \<Rightarrow> ('w \<Rightarrow> string \<times> string \<Rightarrow> bmi option) \<Rightarrow> 'w \<Rightarrow> 'w \<Rightarrow> bool" where
  "keeps_well_formed L objs w w' \<longleftrightarrow> (stored_well_formed L objs w \<longrightarrow> stored_well_formed L objs w')"

text \<open>
  The API server, with other clients that keep the objects well-formed acting before each of its answers:
  a read shows the stored object; an update stores the object that is sent, removes it or fails;
  a status update leaves spec and metadata. A write that fails may have been carried out.
\<close>

definition stores_objects :: "('p, 'w) bmi_reconciler \<Rightarrow> ('w \<Rightarrow> string \<times> string \<Rightarrow> bmi option) \<Rightarrow> bool" where
  "stores_objects r objs \<longleftrightarrow>
     (\<forall>k w x w'. rGet r k w = (x, w') \<longrightarrow> keeps_well_formed (rLib r) objs w w' \<and>
        (\<forall>b. x = Inr b \<longrightarrow> objs w' k = Some b)) \<and>
     (\<forall>b w x w'. rUpdate r b w = (x, w') \<longrightarrow> (\<forall>b'. x = Inr b' \<longrightarrow> same_object b b') \<and>
        (\<exists>w1. keeps_well_formed (rLib r) objs w w1 \<and>
           (objs w' = objs w1 \<or> objs w' = (objs w1)(bmi_key b := None) \<or>
            (\<exists>b'. same_object b b' \<and> objs w' = (objs w1)(bmi_key b \<mapsto> b'))))) \<and>
     (\<forall>b w x w'. rStatusUpdate r b w = (x, w') \<longrightarrow> (\<forall>b'. x = Inr b' \<longrightarrow> objs w' (bmi_key b) = Some b') \<and>
        (\<exists>w1. keeps_well_formed (rLib r) objs w w1 \<and>
           (objs w' = objs w1 \<or> (\<exists>b0 b'. objs w1 (bmi_key b) = Some b0 \<and> same_object b0 b' \<and>
              objs w' = (objs w1)(bmi_key b \<mapsto> b')))))"

text \<open>The object in memory and all stored ones are well-formed.\<close>

abbreviation sound :: "('p, 'w) bmi_reconciler \<Rightarrow> ('w \<Rightarrow> string \<times> string \<Rightarrow> bmi option) \<Rightarrow> bmi \<times> 'w \<Rightarrow> bool" where
  "sound r objs \<equiv> \<lambda>(b, w). stored_well_formed (rLib r) objs w \<and> well_formed (rLib r) b"

lemma stores_objectsD:
  assumes "stores_objects r objs"
  shows "rGet r k w = (x, w') \<Longrightarrow> keeps_well_formed (rLib r) objs w w' \<and> (\<forall>b. x = Inr b \<longrightarrow> objs w' k = Some b)"
    and "rUpdate r b w = (x, w') \<Longrightarrow> (\<forall>b'. x = Inr b' \<longrightarrow> same_object b b') \<and>
        (\<exists>w1. keeps_well_formed (rLib r) objs w w1 \<and>
           (objs w' = objs w1 \<or> objs w' = (objs w1)(bmi_key b := None) \<or>
            (\<exists>b'. same_object b b' \<and> objs w' = (objs w1)(bmi_key b \<mapsto> b'))))"
    and "rStatusUpdate r b w = (x, w') \<Longrightarrow> (\<forall>b'. x = Inr b' \<longrightarrow> objs w' (bmi_key b) = Some b') \<and>
        (\<exists>w1. keeps_well_formed (rLib r) objs w w1 \<and>
           (objs w' = objs w1 \<or> (\<exists>b0 b'. objs w1 (bmi_key b) = Some b0 \<and> same_object b0 b' \<and>
              objs w' = (objs w1)(bmi_key b \<mapsto> b'))))"
proof -
  note S = assms[unfolded stores_objects_def]
  note S2 = conjunct2[OF S]
  show "rGet r k w = (x, w') \<Longrightarrow> keeps_well_formed (rLib r) objs w w' \<and> (\<forall>b. x = Inr b \<longrightarrow> objs w' k = Some b)"
    by (rule conjunct1[OF S, THEN spec, THEN spec, THEN spec, THEN spec, THEN mp])
  show "rUpdate r b w = (x, w') \<Longrightarrow> (\<forall>b'. x = Inr b' \<longrightarrow> same_object b b') \<and>
        (\<exists>w1. keeps_well_formed (rLib r) objs w w1 \<and>
           (objs w' = objs w1 \<or> objs w' = (objs w1)(bmi_key b := None) \<or>
            (\<exists>b'. same_object b b' \<and> objs w' = (objs w1)(bmi_key b \<mapsto> b'))))"
    by (rule conjunct1[OF S2, THEN spec, THEN spec, THEN spec, THEN spec, THEN mp])
  show "rStatusUpdate r b w = (x, w') \<Longrightarrow> (\<forall>b'. x = Inr b' \<longrightarrow> objs w' (bmi_key b) = Some b') \<and>
        (\<exists>w1. keeps_well_formed (rLib r) objs w w1 \<and>
           (objs w' = objs w1 \<or> (\<exists>b0 b'. objs w1 (bmi_key b) = Some b0 \<and> same_object b0 b' \<and>
              objs w' = (objs w1)(bmi_key b \<mapsto> b'))))"
    by (rule conjunct2[OF S2, THEN spec, THEN spec, THEN spec, THEN spec, THEN mp])
qed

lemma get_sound:
  assumes "stores_objects r objs" and "stored_well_formed (rLib r) objs w" and "rGet r k w = (x, w')"
  shows "stored_well_formed (rLib r) objs w'" and "x = Inr b \<Longrightarrow> well_formed (rLib r) b"
proof -
  have g: "keeps_well_formed (rLib r) objs w w'" "x = Inr b \<Longrightarrow> objs w' k = Some b"
    using stores_objectsD(1)[OF assms(1,3)] by blast+
  show w': "stored_well_formed (rLib r) objs w'" using g(1) assms(2) by (simp add: keeps_well_formed_def)
  show "x = Inr b \<Longrightarrow> well_formed (rLib r) b" using g(2) stored_well_formedD[OF w'] by blast
qed

lemma update_sound:
  assumes "stores_objects r objs" and "sound r objs (b, w)" and "rUpdate r b w = (x, w')"
  shows "stored_well_formed (rLib r) objs w'" and "x = Inr b' \<Longrightarrow> same_object b b' \<and> well_formed (rLib r) b'"
proof -
  from stores_objectsD(2)[OF assms(1,3)] obtain w1 where k: "keeps_well_formed (rLib r) objs w w1"
    and w': "objs w' = objs w1 \<or> objs w' = (objs w1)(bmi_key b := None) \<or>
      (\<exists>b'. same_object b b' \<and> objs w' = (objs w1)(bmi_key b \<mapsto> b'))"
    and same: "x = Inr b' \<Longrightarrow> same_object b b'"
    by blast
  have w1: "stored_well_formed (rLib r) objs w1" using k assms(2) by (simp add: keeps_well_formed_def)
  from w' consider "objs w' = objs w1" | "objs w' = (objs w1)(bmi_key b := None)"
    | c where "same_object b c" "objs w' = (objs w1)(bmi_key b \<mapsto> c)" by blast
  then show "stored_well_formed (rLib r) objs w'"
  proof cases
    case 1
    then show ?thesis using w1 stored_well_formed_cong by metis
  next
    case 2
    then show ?thesis by (rule stored_well_formed_upd[OF w1]) simp
  next
    case 3
    show ?thesis by (rule stored_well_formed_upd[OF w1 3(2)]) (use well_formed_same[OF 3(1)] assms(2) in simp)
  qed
  show "x = Inr b' \<Longrightarrow> same_object b b' \<and> well_formed (rLib r) b'" using same assms(2) well_formed_same by simp
qed

lemma status_sound:
  assumes "stores_objects r objs" and "stored_well_formed (rLib r) objs w" and "rStatusUpdate r b w = (x, w')"
  shows "stored_well_formed (rLib r) objs w'" and "x = Inr b' \<Longrightarrow> well_formed (rLib r) b'"
proof -
  from stores_objectsD(3)[OF assms(1,3)] obtain w1 where k: "keeps_well_formed (rLib r) objs w w1"
    and w': "objs w' = objs w1 \<or> (\<exists>b0 b'. objs w1 (bmi_key b) = Some b0 \<and> same_object b0 b' \<and>
      objs w' = (objs w1)(bmi_key b \<mapsto> b'))"
    and st: "x = Inr b' \<Longrightarrow> objs w' (bmi_key b) = Some b'"
    by blast
  have w1: "stored_well_formed (rLib r) objs w1" using k assms(2) by (simp add: keeps_well_formed_def)
  show w: "stored_well_formed (rLib r) objs w'"
    using w'
  proof
    assume "objs w' = objs w1"
    then show ?thesis using w1 stored_well_formed_cong by metis
  next
    assume "\<exists>b0 b'. objs w1 (bmi_key b) = Some b0 \<and> same_object b0 b' \<and> objs w' = (objs w1)(bmi_key b \<mapsto> b')"
    then obtain b0 b' where b: "objs w1 (bmi_key b) = Some b0" "same_object b0 b'" "objs w' = (objs w1)(bmi_key b \<mapsto> b')"
      by blast
    show ?thesis
      by (rule stored_well_formed_upd[OF w1 b(3)]) (use well_formed_same[OF b(2)] stored_well_formedD[OF w1 b(1)] in simp)
  qed
  show "x = Inr b' \<Longrightarrow> well_formed (rLib r) b'" using st stored_well_formedD[OF w] by blast
qed

lemma sound_stable: "status_stable (keeps_well_formed (rLib r) objs) (sound r objs)"
  unfolding status_stable_def
proof (intro conjI allI impI)
  fix b b' :: bmi and w assume "sound r objs (b, w)" "ispec b' = ispec b" "imeta b' = imeta b"
  then show "sound r objs (b', w)" using well_formed_frame[of b' b] by simp
qed (simp add: keeps_well_formed_def)

lemma sound_saved:
  assumes "stores_objects r objs"
  shows "status_saved r (sound r objs)"
  unfolding status_saved_def
proof (intro allI impI)
  fix b w x w' assume "sound r objs (b, w)" and st: "rStatusUpdate r b w = (x, w')"
  then show "sound r objs (case x of Inl _ \<Rightarrow> b | Inr b' \<Rightarrow> b', w')"
    using status_sound[OF assms _ st] by (cases x) auto
qed

section \<open>The handlers\<close>

definition inventory_keeps :: "('p, 'w) bmi_reconciler \<Rightarrow> ('w \<Rightarrow> 'w \<Rightarrow> bool) \<Rightarrow> bool" where
  "inventory_keeps r R \<longleftrightarrow>
     (\<forall>h c ls w x w'. AssignHost (InventoryClient r) h c ls w = (x, w') \<longrightarrow> R w w') \<and>
     (\<forall>h ks w x w'. UnassignHost (InventoryClient r) h ks w = (x, w') \<longrightarrow> R w w')"

text \<open>The surroundings of one worker: nobody else breaks the well-formedness of the objects either.\<close>

definition sound_surroundings :: "('p, 'w) bmi_reconciler \<Rightarrow> ('w \<Rightarrow> string \<times> string \<Rightarrow> bmi option) \<Rightarrow> bool" where
  "sound_surroundings r objs \<longleftrightarrow> lib_laws (rLib r) \<and> stores_objects r objs \<and>
     services_keep r (keeps_well_formed (rLib r) objs) \<and> inventory_keeps r (keeps_well_formed (rLib r) objs) \<and>
     lifecycle_keeps r (keeps_well_formed (rLib r) objs)"

lemma surroundings:
  assumes "sound_surroundings r objs"
  shows "lib_laws (rLib r)" and "stores_objects r objs" and "lifecycle_keeps r (keeps_well_formed (rLib r) objs)"
    and "services_keep r (keeps_well_formed (rLib r) objs)"
    and "AssignHost (InventoryClient r) h c ls w = (x, w') \<Longrightarrow> stored_well_formed (rLib r) objs w \<Longrightarrow>
      stored_well_formed (rLib r) objs w'"
    and "UnassignHost (InventoryClient r) h ks w = (y, w') \<Longrightarrow> stored_well_formed (rLib r) objs w \<Longrightarrow>
      stored_well_formed (rLib r) objs w'"
    and "FindFreeHost (InventoryClient r) m w = (z, w') \<Longrightarrow> stored_well_formed (rLib r) objs w \<Longrightarrow>
      stored_well_formed (rLib r) objs w'"
    and "reconcile_restart_and_power r b w = (res, b', w') \<Longrightarrow> stored_well_formed (rLib r) objs w \<Longrightarrow>
      stored_well_formed (rLib r) objs w'"
proof -
  note S = assms[unfolded sound_surroundings_def]
  show "lib_laws (rLib r)" "stores_objects r objs" "lifecycle_keeps r (keeps_well_formed (rLib r) objs)"
    and V: "services_keep r (keeps_well_formed (rLib r) objs)" using S by blast+
  have I: "inventory_keeps r (keeps_well_formed (rLib r) objs)" using S by blast
  show "AssignHost (InventoryClient r) h c ls w = (x, w') \<Longrightarrow> stored_well_formed (rLib r) objs w \<Longrightarrow>
      stored_well_formed (rLib r) objs w'"
    using I unfolding inventory_keeps_def keeps_well_formed_def by blast
  show "UnassignHost (InventoryClient r) h ks w = (y, w') \<Longrightarrow> stored_well_formed (rLib r) objs w \<Longrightarrow>
      stored_well_formed (rLib r) objs w'"
    using I unfolding inventory_keeps_def keeps_well_formed_def by blast
  show "FindFreeHost (InventoryClient r) m w = (z, w') \<Longrightarrow> stored_well_formed (rLib r) objs w \<Longrightarrow>
      stored_well_formed (rLib r) objs w'"
    using services_keep_find[OF V] unfolding keeps_well_formed_def by blast
  show "reconcile_restart_and_power r b w = (res, b', w') \<Longrightarrow> stored_well_formed (rLib r) objs w \<Longrightarrow>
      stored_well_formed (rLib r) objs w'"
    using restart_and_power_frame[OF V] unfolding keeps_well_formed_def by blast
qed

text \<open>What the allocation writes.\<close>

lemma well_formed_waiting:
  "hostClass (ispec b) = '''' \<Longrightarrow> BareMetalInstanceManagementFinalizer \<notin> set (finalizers (imeta b)) \<Longrightarrow> well_formed L b"
  by (simp add: well_formed_def)

lemma select_host_sound:
  assumes S: "sound_surroundings r objs" and "stored_well_formed (rLib r) objs w" and "hostClass (ispec b) = ''''"
    and "BareMetalInstanceManagementFinalizer \<notin> set (finalizers (imeta b))" and run: "select_host r b w = (res, b', w')"
  shows "stored_well_formed (rLib r) objs w'"
proof -
  obtain x w1 where find: "FindFreeHost (InventoryClient r) (match_expressions b) w = (x, w1)" by fastforce
  have w1: "stored_well_formed (rLib r) objs w1" by (rule surroundings(7)[OF S find assms(2)])
  have "stored_well_formed (rLib r) objs w2" if "rUpdate r (set_externalHostID h b) w1 = (y, w2)" for h y w2
    by (rule update_sound(1)[OF surroundings(2)[OF S] _ that]) (use w1 assms(3,4) in \<open>simp add: well_formed_waiting\<close>)
  then show ?thesis using run find w1
    by (auto simp: select_host_def Let_def split: sum.splits option.splits prod.splits)
qed

lemma acquire_host_sound:
  assumes S: "sound_surroundings r objs" and "stored_well_formed (rLib r) objs w" and "hostClass (ispec b) = ''''"
    and "BareMetalInstanceManagementFinalizer \<notin> set (finalizers (imeta b))" and "externalHostID (ispec b) \<noteq> ''''"
    and "BareMetalInstanceInventoryFinalizer \<in> set (finalizers (imeta b))" and run: "acquire_host r b w = (res, b', w')"
  shows "stored_well_formed (rLib r) objs w'"
proof -
  obtain x w1 where assign: "AssignHost (InventoryClient r) (externalHostID (ispec b)) (objUID (imeta b)) (combined_labels b) w
      = (x, w1)" by fastforce
  have w1: "stored_well_formed (rLib r) objs w1" by (rule surroundings(5)[OF S assign assms(2)])
  have "stored_well_formed (rLib r) objs w2" if "rUpdate r (set_externalHostID '''' b) w1 = (y, w2)" for y w2
    by (rule update_sound(1)[OF surroundings(2)[OF S] _ that]) (use w1 assms(3,4) in \<open>simp add: well_formed_waiting\<close>)
  moreover have "stored_well_formed (rLib r) objs w2"
    if "rUpdate r (b\<lparr>ispec := (ispec b)\<lparr>hostClass := c, networkClass := n\<rparr>\<rparr>) w1 = (y, w2)" for c n y w2
    by (rule update_sound(1)[OF surroundings(2)[OF S] _ that]) (use w1 assms(4-6) in \<open>simp add: well_formed_def\<close>)
  ultimately show ?thesis using run assign w1
    by (auto simp: acquire_host_def Let_def split: sum.splits option.splits prod.splits)
qed

lemma reconcileInventory_sound:
  assumes S: "sound_surroundings r objs" and "sound r objs (b, pworld p)" and free: "hostClass (ispec b) = ''''"
    and run: "reconcileInventory r b p = (res, b', p')"
  shows "stored_well_formed (rLib r) objs (pworld p')"
proof -
  have L: "lib_laws (rLib r)" by (rule surroundings(1)[OF S])
  have mgmt: "BareMetalInstanceManagementFinalizer \<notin> set (finalizers (imeta b))"
    using assms(2) free by (simp add: well_formed_def)
  let ?b = "cond r HostConditionAllocated ConditionFalse HostConditionReasonProgressing
                ''Allocating BareMetalInstance'' (set_phase BareMetalInstancePhaseAllocating b)"
  obtain fs added where add: "AddFinalizer (rLib r) (finalizers (imeta b)) BareMetalInstanceInventoryFinalizer
      = (fs, added)" by fastforce
  then have fs: "set fs = insert BareMetalInstanceInventoryFinalizer (set (finalizers (imeta b)))"
    using lib_AddFinalizer(1)[OF L, of "finalizers (imeta b)" BareMetalInstanceInventoryFinalizer] by simp
  let ?x = "set_bmi_finalizers fs ?b"
  have x: "hostClass (ispec ?x) = ''''" "BareMetalInstanceManagementFinalizer \<notin> set (finalizers (imeta ?x))"
    "BareMetalInstanceInventoryFinalizer \<in> set (finalizers (imeta ?x))" using free mgmt fs by simp_all
  have w: "stored_well_formed (rLib r) objs (pworld p)" using assms(2) by simp
  have "stored_well_formed (rLib r) objs w2" if "rUpdate r ?x (pworld p) = (y, w2)" for y w2
    by (rule update_sound(1)[OF surroundings(2)[OF S] _ that]) (use w x(1,2) well_formed_waiting in auto)
  then show ?thesis
    using run add w select_host_sound[OF S w x(1,2)] acquire_host_sound[OF S w x(1,2) _ x(3)]
    by (auto simp: reconcileInventory_def Let_def split: if_splits prod.splits sum.splits)
qed

text \<open>What the management of an allocated instance writes: its own finalizer.\<close>

lemma reconcileManagement_sound:
  assumes S: "sound_surroundings r objs" and "sound r objs (b, w)" and "hostClass (ispec b) \<noteq> ''''"
    and "time_IsZero (rLib r) (deletionTimestamp (imeta b))" and run: "reconcileManagement r b w = (res, b', w')"
  shows "stored_well_formed (rLib r) objs w'"
proof -
  have L: "lib_laws (rLib r)" by (rule surroundings(1)[OF S])
  obtain fs added where add: "AddFinalizer (rLib r) (finalizers (imeta b)) BareMetalInstanceManagementFinalizer
      = (fs, added)" by fastforce
  then have "set fs = insert BareMetalInstanceManagementFinalizer (set (finalizers (imeta b)))"
    using lib_AddFinalizer(1)[OF L, of "finalizers (imeta b)" BareMetalInstanceManagementFinalizer] by simp
  moreover have "BareMetalInstanceInventoryFinalizer \<in> set (finalizers (imeta b))"
    using assms(2-4) by (simp add: well_formed_def)
  ultimately have x: "sound r objs (set_bmi_finalizers fs b, w)" using assms(2,3) by (simp add: well_formed_def)
  have upd: "stored_well_formed (rLib r) objs w1" if "rUpdate r (set_bmi_finalizers fs b) w = (y, w1)" for y w1
    by (rule update_sound(1)[OF surroundings(2)[OF S] x that])
  have prov: "stored_well_formed (rLib r) objs w1"
    if "reconcileProvisioning r (set_bmi_finalizers fs b) w = (y, b1, w1)" for y b1 w1
    using reconcileProvisioning_frame[OF surroundings(4,3)[OF S] sound_stable sound_saved[OF surroundings(2)[OF S]] x that]
    by simp
  show ?thesis
    using run add x
    by (auto simp: reconcileManagement_def Let_def split: prod.splits if_splits sum.splits option.splits
        dest!: upd prov surroundings(8)[OF S])
qed

text \<open>What a deletion writes.\<close>

definition drop_management_finalizer ::
    "('p, 'w) bmi_reconciler \<Rightarrow> bmi \<Rightarrow> 'w \<Rightarrow> outcome option \<times> bmi \<times> 'w" where
  "drop_management_finalizer r b w =
     (let b = set_bmi_finalizers (fst (RemoveFinalizer (rLib r) (finalizers (imeta b)) BareMetalInstanceManagementFinalizer)) b
      in case rUpdate r b w of (Inl err, w1) \<Rightarrow> (Some (failed_with err), b, w1) | (Inr b', w1) \<Rightarrow> (None, b', w1))"

lemma management_cleanup_unfold:
  assumes "lib_laws (rLib r)" and "BareMetalInstanceManagementFinalizer \<in> set (finalizers (imeta b))"
  shows "management_cleanup r b w =
    (let b = set_phase BareMetalInstancePhaseDeleting b
     in if \<not> uses_template b then drop_management_finalizer r b w
        else if ProvisioningProvider r = None then (Some ok_done,
          cond r HostConditionDeprovisionTemplateComplete ConditionFalse HostConditionReasonTemplateFailed
            ''Provisioning provider not configured'' (set_phase BareMetalInstancePhaseFailed b), w)
        else case reconcileDeprovisioning r b w of ((result, finished, err), b1, w1) \<Rightarrow>
          if err \<noteq> None then (Some (result, err), b1, w1)
          else if \<not> finished then (Some (result, None), b1, w1)
          else drop_management_finalizer r b1 w1)"
  using assms
  by (cases "uses_template (set_phase BareMetalInstancePhaseDeleting b)")
    (auto simp: management_cleanup_def drop_management_finalizer_def Let_def split: prod.split sum.split)

text \<open>Where an object stands after its management part is gone.\<close>

definition unmanaged :: "lib \<Rightarrow> bmi \<Rightarrow> bool" where
  "unmanaged L b \<longleftrightarrow> well_formed L b \<and> \<not> time_IsZero L (deletionTimestamp (imeta b)) \<and>
     BareMetalInstanceManagementFinalizer \<notin> set (finalizers (imeta b))"

lemma drop_management_sound:
  assumes S: "sound_surroundings r objs" and "sound r objs (b, w)" and "\<not> time_IsZero (rLib r) (deletionTimestamp (imeta b))"
    and run: "drop_management_finalizer r b w = (out, b', w')"
  shows "stored_well_formed (rLib r) objs w' \<and> (out = None \<longrightarrow> unmanaged (rLib r) b')"
proof -
  let ?fs = "fst (RemoveFinalizer (rLib r) (finalizers (imeta b)) BareMetalInstanceManagementFinalizer)"
  have fs: "set ?fs = set (finalizers (imeta b)) - {BareMetalInstanceManagementFinalizer}"
    using surroundings(1)[OF S] by simp
  then have x: "sound r objs (set_bmi_finalizers ?fs b, w)" using assms(2) by (auto simp: well_formed_def)
  obtain y v where upd: "rUpdate r (set_bmi_finalizers ?fs b) w = (y, v)" by fastforce
  note u = update_sound[OF surroundings(2)[OF S] x upd]
  have "unmanaged (rLib r) c" if "y = Inr c" for c
    using u(2)[OF that] fs assms(3) by (auto simp: unmanaged_def same_object_def)
  then show ?thesis using run upd u(1) by (auto simp: drop_management_finalizer_def Let_def split: sum.splits)
qed

lemma management_cleanup_sound:
  assumes S: "sound_surroundings r objs" and "sound r objs (b, w)" and dying: "\<not> time_IsZero (rLib r) (deletionTimestamp (imeta b))"
    and run: "management_cleanup r b w = (out, b1, w1)"
  shows "stored_well_formed (rLib r) objs w1 \<and> (out = None \<longrightarrow> unmanaged (rLib r) b1)"
proof (cases "BareMetalInstanceManagementFinalizer \<in> set (finalizers (imeta b))")
  case False
  then show ?thesis using run assms(2,3) surroundings(1)[OF S] by (simp add: management_cleanup_def unmanaged_def)
next
  case True
  let ?P = "\<lambda>(c, v). sound r objs (c, v) \<and> deletionTimestamp (imeta c) = deletionTimestamp (imeta b)"
  let ?b = "set_phase BareMetalInstancePhaseDeleting b"
  have stable: "status_stable (keeps_well_formed (rLib r) objs) ?P"
    unfolding status_stable_def
  proof (intro conjI allI impI)
    fix c c' :: bmi and v assume "?P (c, v)" "ispec c' = ispec c" "imeta c' = imeta c"
    then show "?P (c', v)" using well_formed_frame[of c' c] by simp
  qed (simp add: keeps_well_formed_def)
  have drop: "stored_well_formed (rLib r) objs v' \<and> (out = None \<longrightarrow> unmanaged (rLib r) c')"
    if "?P (c, v)" "drop_management_finalizer r c v = (out, c', v')" for c v c' v'
    by (rule drop_management_sound[OF S _ _ that(2)]) (use that(1) dying in auto)
  have start: "?P (?b, w)" using assms(2) by simp
  obtain res fin err c v where d: "reconcileDeprovisioning r ?b w = ((res, fin, err), c, v)" by (metis prod.exhaust)
  have P: "?P (c, v)" by (rule reconcileDeprovisioning_keeps[OF surroundings(3)[OF S] stable start d])
  note mc = run[unfolded management_cleanup_unfold[OF surroundings(1)[OF S] True] Let_def d prod.case]
  consider "\<not> uses_template ?b" | "uses_template ?b" "ProvisioningProvider r = None"
    | "uses_template ?b" "ProvisioningProvider r \<noteq> None" "err = None" "fin"
    | "uses_template ?b" "ProvisioningProvider r \<noteq> None" "\<not> (err = None \<and> fin)" by blast
  then show ?thesis
  proof cases
    case 1
    then show ?thesis using mc drop[OF start] by simp
  next
    case 2
    then show ?thesis using mc assms(2) by auto
  next
    case 3
    then show ?thesis using mc drop[OF P] by (simp split: if_splits)
  next
    case 4
    then show ?thesis using mc P by (auto split: if_splits)
  qed
qed

lemma drop_inventory_finalizer_sound:
  assumes S: "sound_surroundings r objs" and "sound r objs (b, w)" and "\<not> time_IsZero (rLib r) (deletionTimestamp (imeta b))"
    and "BareMetalInstanceManagementFinalizer \<notin> set (finalizers (imeta b))"
    and run: "drop_inventory_finalizer r b w = (res, b', w')"
  shows "stored_well_formed (rLib r) objs w'"
proof -
  obtain fs rem where fs: "RemoveFinalizer (rLib r) (finalizers (imeta b)) BareMetalInstanceInventoryFinalizer = (fs, rem)" by fastforce
  then have "set fs = set (finalizers (imeta b)) - {BareMetalInstanceInventoryFinalizer}"
    using lib_RemoveFinalizer(1)[OF surroundings(1)[OF S], of "finalizers (imeta b)" BareMetalInstanceInventoryFinalizer] by simp
  then have x: "sound r objs (set_bmi_finalizers fs b, w)" using assms(2-4) by (simp add: well_formed_def)
  have "stored_well_formed (rLib r) objs v" if "rUpdate r (set_bmi_finalizers fs b) w = (y, v)" for y v
    by (rule update_sound(1)[OF surroundings(2)[OF S] x that])
  then show ?thesis using run fs assms(2)
    by (auto simp: drop_inventory_finalizer_def Let_def split: if_splits prod.splits sum.splits)
qed

lemma handleDeletion_sound:
  assumes S: "sound_surroundings r objs" and "sound r objs (b, pworld p)" and "\<not> time_IsZero (rLib r) (deletionTimestamp (imeta b))"
    and run: "handleDeletion r b p = (res, b', p')"
  shows "stored_well_formed (rLib r) objs (pworld p')"
proof -
  obtain out b1 w1 where mc: "management_cleanup r b (pworld p) = (out, b1, w1)" by (metis prod.exhaust)
  note c = management_cleanup_sound[OF S assms(2,3) mc]
  show ?thesis
  proof (cases out)
    case (Some o1)
    then show ?thesis using run mc c by (auto simp: handleDeletion_def)
  next
    case None
    then have ic: "inventory_cleanup r b1 (p\<lparr>pworld := w1\<rparr>) = (res, b', p')" using run mc by (simp add: handleDeletion_def)
    have b1: "unmanaged (rLib r) b1" using c None by simp
    have drop: "stored_well_formed (rLib r) objs v'"
      if "drop_inventory_finalizer r b1 v = (y, d, v')" "stored_well_formed (rLib r) objs v" for v y d v'
      by (rule drop_inventory_finalizer_sound[OF S _ _ _ that(1)]) (use b1 that(2) in \<open>auto simp: unmanaged_def\<close>)
    have free: "stored_well_formed (rLib r) objs v"
      if "UnassignHost (InventoryClient r) h ks w1 = (y, v)" for h ks y v by (rule surroundings(6)[OF S that conjunct1[OF c]])
    show ?thesis using ic c surroundings(1)[OF S]
      by (auto simp: inventory_cleanup_def release_host_def Let_def split: if_splits prod.splits option.splits dest: drop free)
  qed
qed

lemma handleUpdate_sound:
  assumes S: "sound_surroundings r objs" and b: "sound r objs (b, pworld p)" and live: "time_IsZero (rLib r) (deletionTimestamp (imeta b))"
    and run: "handleUpdate r b p = (res, b', p')"
  shows "stored_well_formed (rLib r) objs (pworld p')"
proof (cases "hostClass (ispec b) = ''''")
  case True
  then show ?thesis using run b reconcileInventory_sound[OF S b True] by (auto simp: handleUpdate_def Let_def split: if_splits)
next
  case False
  then show ?thesis using run b reconcileManagement_sound[OF S b False live]
    by (auto simp: handleUpdate_def Let_def split: if_splits prod.splits)
qed

section \<open>Property\<close>

text \<open>C7: Every call of \<open>Reconcile\<close> keeps all stored instances well-formed, on every path, with failing requests and
  with other clients that write well-formed objects between any two of its requests: afterwards as
  before an allocated instance names its host, carries the inventory finalizer unless it is being
  deleted, and the management finalizer is only found together with the inventory finalizer on an
  allocated instance.\<close>

theorem reconcile_keeps_objects_well_formed:
  assumes S: "sound_surroundings r objs" and "stored_well_formed (rLib r) objs (pworld p)"
    and run: "Reconcile r k p = (res, p')"
  shows "stored_well_formed (rLib r) objs (pworld p')"
proof -
  obtain x w1 where get: "rGet r k (pworld p) = (x, w1)" by fastforce
  note g = get_sound[OF surroundings(2)[OF S] assms(2) get]
  show ?thesis
  proof (cases x)
    case (Inl e)
    then show ?thesis using run get g(1) by (auto simp: Reconcile_def)
  next
    case (Inr b)
    let ?q = "p\<lparr>pworld := w1\<rparr>"
    have b: "sound r objs (b, pworld ?q)" using g Inr by simp
    have run: "Reconcile r k p = (case (if \<not> time_IsZero (rLib r) (deletionTimestamp (imeta b))
        then handleDeletion r b ?q else handleUpdate r b ?q) of (res1, b1, p1) \<Rightarrow>
      if rDeepEqual r (istatus b1) (istatus b) then (res1, p1)
      else case rStatusUpdate r b1 (pworld p1) of
          (Inl e, v) \<Rightarrow> if IgnoreNotFound (rLib r) (Some e) \<noteq> None then ((fst res1, Some e), p1\<lparr>pworld := v\<rparr>) else (res1, p1\<lparr>pworld := v\<rparr>)
        | (Inr _, v) \<Rightarrow> (res1, p1\<lparr>pworld := v\<rparr>))"
      using get Inr by (simp add: Reconcile_def Let_def)
    obtain res1 b1 p1 where h: "(if \<not> time_IsZero (rLib r) (deletionTimestamp (imeta b))
        then handleDeletion r b ?q else handleUpdate r b ?q) = (res1, b1, p1)" by (metis prod.exhaust)
    have p1: "stored_well_formed (rLib r) objs (pworld p1)"
    proof (cases "time_IsZero (rLib r) (deletionTimestamp (imeta b))")
      case True
      then show ?thesis using h handleUpdate_sound[OF S b True] by simp
    next
      case False
      then show ?thesis using h handleDeletion_sound[OF S b False] by simp
    qed
    then have "stored_well_formed (rLib r) objs v" if "rStatusUpdate r b1 (pworld p1) = (y, v)" for y v
      using status_sound(1)[OF surroundings(2)[OF S] _ that] by blast
    then show ?thesis using assms(3) p1 unfolding run h
      by (fastforce split: if_splits prod.splits sum.splits)
  qed
qed

lemma demo_stores: "stores_objects demo_operator dObjs"
proof -
  have get: "keeps_well_formed ref_lib dObjs w w' \<and> (\<forall>b. x = Inr b \<longrightarrow> dObjs w' k = Some b)"
    if "demo_get k w = (x, w')" for k w x w'
    using demo_get_cases[OF that] by (auto simp: keeps_well_formed_def)
  have put: "(\<forall>b'. x = Inr b' \<longrightarrow> same_object b b') \<and> (\<exists>w1. keeps_well_formed ref_lib dObjs w w1 \<and>
      (dObjs w' = dObjs w1 \<or> dObjs w' = (dObjs w1)(bmi_key b := None) \<or>
       (\<exists>b'. same_object b b' \<and> dObjs w' = (dObjs w1)(bmi_key b \<mapsto> b'))))"
    if "demo_put b w = (x, w')" for b w x w'
    using that by (intro conjI exI[of _ w]) (auto simp: demo_put_def same_object_def keeps_well_formed_def split: if_splits)
  have st: "(\<forall>b'. x = Inr b' \<longrightarrow> dObjs w' (bmi_key b) = Some b') \<and> (\<exists>w1. keeps_well_formed ref_lib dObjs w w1 \<and>
      (dObjs w' = dObjs w1 \<or> (\<exists>b0 b'. dObjs w1 (bmi_key b) = Some b0 \<and> same_object b0 b' \<and>
         dObjs w' = (dObjs w1)(bmi_key b \<mapsto> b'))))"
    if status: "demo_put_status b w = (x, w')" for b w x w'
  proof -
    have same: "same_object b0 (b0\<lparr>istatus := s\<rparr>)" for b0 s by (simp add: same_object_def)
    have idle: "keeps_well_formed ref_lib dObjs w w" by (simp add: keeps_well_formed_def)
    consider "w' = w" "\<And>b'. x \<noteq> Inr b'"
      | b0 where "dObjs w (bmi_key b) = Some b0" "x = Inr (b0\<lparr>istatus := istatus b\<rparr>)"
          "dObjs w' = (dObjs w)(bmi_key b \<mapsto> b0\<lparr>istatus := istatus b\<rparr>)"
      using status by (cases "dObjs w (bmi_key b)") (auto simp: demo_put_status_def demo_get_def Let_def split: if_splits)
    then show ?thesis
      by cases (use same idle in \<open>auto simp del: split_paired_Ex intro!: exI[of _ w]\<close>)
  qed
  show ?thesis unfolding stores_objects_def demo_operator_ops using get put st by blast
qed

lemma demo_surroundings: "sound_surroundings demo_operator dObjs"
proof -
  have keep: "keeps_well_formed ref_lib dObjs w w'" if "dObjs w' = dObjs w" for w w'
    using stored_well_formed_cong[of dObjs, OF that] by (simp add: keeps_well_formed_def)
  have assign: "dObjs w' = dObjs w" if "metal3_AssignHost demo_cluster_metal3 h c ls w = (x, w')" for h c ls w x w'
    using that by (auto simp: metal3_AssignHost_def demo_cluster_metal3_def demo_hosts_api_def bmh_api_at_def at_part_def
        Let_def split: if_splits sum.splits prod.splits)
  have unassign: "dObjs w' = dObjs w" if "metal3_UnassignHost demo_cluster_metal3 h ks w = (x, w')" for h ks w x w'
    using that by (auto simp: metal3_UnassignHost_def demo_cluster_metal3_def demo_hosts_api_def bmh_api_at_def at_part_def
        Let_def split: if_splits sum.splits prod.splits)
  have "services_keep demo_operator (keeps_well_formed ref_lib dObjs)"
    unfolding services_keep_def
    by (auto simp: demo_operator_def metal3_inventory_client_def keeps_well_formed_def reflp_def transp_def
        dest: demo_FindFreeHost)
  moreover have "inventory_keeps demo_operator (keeps_well_formed ref_lib dObjs)"
    unfolding inventory_keeps_def demo_operator_ops metal3_inventory_client_def
    by (auto intro: keep dest: assign unassign)
  moreover have "lifecycle_keeps demo_operator (keeps_well_formed ref_lib dObjs)"
    unfolding lifecycle_keeps_def demo_operator_def by auto
  ultimately show ?thesis
    using ref_lib_laws demo_stores unfolding sound_surroundings_def demo_operator_ops by blast
qed

text \<open>An instance that has picked the free host \<open>metal/b\<close>; the call allocates it.\<close>

definition demo_picked :: bmi where
  "demo_picked = (demo_selected ''metal/b'')\<lparr>
     imeta := (imeta (demo_selected ''metal/b''))\<lparr>finalizers := [BareMetalInstanceInventoryFinalizer]\<rparr>\<rparr>"

theorem reconcile_keeps_objects_well_formed_witness:
  "stored_well_formed ref_lib dObjs (pworld (snd (Reconcile demo_operator (''ns'', ''bmi'')
     \<lparr>plocks = no_locks, pworld = \<lparr>dObjs = [(''ns'', ''bmi'') \<mapsto> demo_picked], dHosts = demo_bmhs\<rparr>\<rparr>)))"
proof -
  let ?p = "\<lparr>plocks = no_locks, pworld = \<lparr>dObjs = [(''ns'', ''bmi'') \<mapsto> demo_picked], dHosts = demo_bmhs\<rparr>\<rparr>"
  have "well_formed ref_lib demo_picked" by (simp add: well_formed_def demo_picked_def demo_selected_def demo_bmi_def)
  then have start: "stored_well_formed (rLib demo_operator) dObjs (pworld ?p)"
    by (simp add: stored_well_formed_def demo_operator_ops)
  obtain res p' where run: "Reconcile demo_operator (''ns'', ''bmi'') ?p = (res, p')" by fastforce
  show ?thesis
    using reconcile_keeps_objects_well_formed[OF demo_surroundings start run] run by (simp add: demo_operator_ops)
qed

end
