(* ===== verification/Backends.thy ===== *)
theory Backends
  imports Inventory_Metal3 Inventory_OpenStack Management_Metal3 Management_OpenStack
begin

text \<open>
  The constructors of the four backends: what they read of the configuration, in which order they
  call the Kubernetes and OpenStack libraries, and what they hand to the clients. The libraries'
  own constructors are the fields of \<open>k8s_setup\<close> and \<open>openstack_setup\<close>.
\<close>

section \<open>Metal3\<close>

record ('rc, 'dc, 'w) k8s_setup =
  AddToScheme :: "go_error option"
  ctrl_GetConfig :: "'w \<Rightarrow> (go_error + 'rc) \<times> 'w"
  NewDiscoveryClientForConfig :: "'rc \<Rightarrow> go_error + 'dc"
  ServerResourcesForGroupVersion :: "'dc \<Rightarrow> string \<Rightarrow> 'w \<Rightarrow> go_error option \<times> 'w"
  client_New :: "'rc \<Rightarrow> 'w \<Rightarrow> (go_error + 'w bmh_api) \<times> 'w"

definition validateBareMetalHostCRD :: "('rc, 'dc, 'w) k8s_setup \<Rightarrow> 'rc \<Rightarrow> 'w \<Rightarrow> go_error option \<times> 'w" where
  "validateBareMetalHostCRD K restConfig w =
     (case NewDiscoveryClientForConfig K restConfig of
        Inl err \<Rightarrow> (Some (ErrorWrap ''failed to create discovery client'' err), w)
      | Inr dc \<Rightarrow>
          (case ServerResourcesForGroupVersion K dc ''metal3.io/v1alpha1'' w of
             (Some err, w1) \<Rightarrow>
               (Some (ErrorWrap ''metal3 backend configured but BareMetalHost CRD is not installed'' err), w1)
           | (None, w1) \<Rightarrow> (None, w1)))"

text \<open>\<open>draws\<close> is the source of the random numbers \<open>FindFreeHost\<close> shuffles with.\<close>

definition NewMetal3Client ::
    "('rc, 'dc, 'w) k8s_setup \<Rightarrow> ('w \<Rightarrow> nat \<Rightarrow> nat) \<Rightarrow> inventory_config \<Rightarrow> 'w \<Rightarrow> (go_error + 'w metal3_inventory) \<times> 'w" where
  "NewMetal3Client K draws cfg w =
     (case parseMetal3Namespace cfg of
        Inl err \<Rightarrow> (Inl err, w)
      | Inr namespace \<Rightarrow>
          (case AddToScheme K of
             Some err \<Rightarrow> (Inl (ErrorWrap ''failed to add metal3 types to scheme'' err), w)
           | None \<Rightarrow>
               (case ctrl_GetConfig K w of
                  (Inl err, w1) \<Rightarrow> (Inl (ErrorWrap ''failed to load kubernetes config'' err), w1)
                | (Inr restConfig, w1) \<Rightarrow>
                    (case validateBareMetalHostCRD K restConfig w1 of
                       (Some err, w2) \<Rightarrow> (Inl err, w2)
                     | (None, w2) \<Rightarrow>
                         (case client_New K restConfig w2 of
                            (Inl err, w3) \<Rightarrow> (Inl (ErrorWrap ''failed to create kubernetes client'' err), w3)
                          | (Inr k8sClient, w3) \<Rightarrow>
                              (Inr \<lparr>m3client = k8sClient, m3namespace = namespace, m3hostClass = invHostClass cfg,
                                 m3networkClass = invNetworkClass cfg, m3draws = draws\<rparr>, w3))))))"

definition NewMetal3ManagementClient ::
    "('rc, 'dc, 'w) k8s_setup \<Rightarrow> management_config \<Rightarrow> 'w \<Rightarrow> (go_error + 'w metal3_management) \<times> 'w" where
  "NewMetal3ManagementClient K cfg w =
     (case parseMetal3ManagementNamespace cfg of
        Inl err \<Rightarrow> (Inl err, w)
      | Inr namespace \<Rightarrow>
          (case AddToScheme K of
             Some err \<Rightarrow> (Inl (ErrorWrap ''failed to add metal3 types to scheme'' err), w)
           | None \<Rightarrow>
               (case ctrl_GetConfig K w of
                  (Inl err, w1) \<Rightarrow> (Inl (ErrorWrap ''failed to load kubernetes config'' err), w1)
                | (Inr restConfig, w1) \<Rightarrow>
                    (case client_New K restConfig w1 of
                       (Inl err, w2) \<Rightarrow> (Inl (ErrorWrap ''failed to create kubernetes client'' err), w2)
                     | (Inr k8sClient, w2) \<Rightarrow>
                         (Inr \<lparr>mmclient = k8sClient, mmnamespace = namespace\<rparr>, w2)))))"

section \<open>OpenStack\<close>

text \<open>The fields of \<open>clientconfig.Cloud\<close> the code reads; the authentication data stays abstract but for
  the flag the code sets.\<close>

record 'a auth_info =
  authData :: 'a
  AllowReauth :: bool

record 'a cloud =
  cloudCloud :: string
  cloudAuthType :: string
  cloudAuthInfo :: "'a auth_info option"
  cloudRegionName :: string
  cloudEndpointType :: string

record endpoint_opts =
  eoRegion :: string
  eoAvailability :: string

record ('a, 'pc, 'c, 'w) openstack_setup =
  json_cloud :: "json \<Rightarrow> go_error + 'a cloud"
  zero_auth :: 'a
  AuthenticatedClient :: "'a cloud \<Rightarrow> 'w \<Rightarrow> (go_error + 'pc) \<times> 'w"
  NewBareMetalV1 :: "'pc \<Rightarrow> endpoint_opts \<Rightarrow> go_error + 'c"
  set_Microversion :: "string \<Rightarrow> 'c \<Rightarrow> 'c"

definition zero_cloud :: "'a cloud" where
  "zero_cloud = \<lparr>cloudCloud = '''', cloudAuthType = '''', cloudAuthInfo = None, cloudRegionName = '''',
     cloudEndpointType = ''''\<rparr>"

definition no_endpoint_opts :: endpoint_opts where
  "no_endpoint_opts = \<lparr>eoRegion = '''', eoAvailability = ''''\<rparr>"

definition newServiceClientFactory ::
    "('a, 'pc, 'c, 'w) openstack_setup \<Rightarrow> inventory_config \<Rightarrow> 'w \<Rightarrow> (go_error + 'c) \<times> 'w" where
  "newServiceClientFactory S cfg w =
     (case (case map_of (entries (invOptions cfg)) ''openstack'' of
              None \<Rightarrow> Inr zero_cloud | Some openstackOpts \<Rightarrow> json_cloud S openstackOpts) of
        Inl err \<Rightarrow> (Inl err, w)
      | Inr cloud \<Rightarrow>
          (let auth = (case cloudAuthInfo cloud of
                         None \<Rightarrow> \<lparr>authData = zero_auth S, AllowReauth = False\<rparr> | Some a \<Rightarrow> a);
               cloud = cloud\<lparr>cloudAuthInfo := Some (auth\<lparr>AllowReauth := True\<rparr>)\<rparr>
           in case AuthenticatedClient S cloud w of
                (Inl err, w1) \<Rightarrow> (Inl err, w1)
              | (Inr providerClient, w1) \<Rightarrow>
                  (case NewBareMetalV1 S providerClient no_endpoint_opts of
                     Inl err \<Rightarrow> (Inl err, w1)
                   | Inr ironicClient \<Rightarrow> (Inr (set_Microversion S ''latest'' ironicClient), w1))))"

definition NewOpenStackClient ::
    "('a, 'pc, 'c, 'w) openstack_setup \<Rightarrow> ('c, 'w) ironic_api \<Rightarrow> ('w \<Rightarrow> nat \<Rightarrow> nat \<Rightarrow> nat) \<Rightarrow> inventory_config \<Rightarrow> 'w
      \<Rightarrow> (go_error + ('c \<times> ('c, 'w) openstack_inventory)) \<times> 'w" where
  "NewOpenStackClient S A draws cfg w =
     (case newServiceClientFactory S cfg w of
        (Inl err, w1) \<Rightarrow> (Inl err, w1)
      | (Inr sc, w1) \<Rightarrow>
          (Inr (sc, \<lparr>osApi = A, newServiceClient = newServiceClientFactory S cfg, osHostClass = invHostClass cfg,
             osNetworkClass = invNetworkClass cfg, osDraws = draws\<rparr>), w1))"

text \<open>The factory of the management backend; its errors hide the credentials.\<close>

definition mgmt_factory ::
    "('a, 'pc, 'c, 'w) openstack_setup \<Rightarrow> 'a cloud \<Rightarrow> 'w \<Rightarrow> (go_error + 'c) \<times> 'w" where
  "mgmt_factory S cloud w =
     (case AuthenticatedClient S cloud w of
        (Inl _, w1) \<Rightarrow>
          (Inl (ErrorText ''failed to create authenticated client (check cloud credentials and endpoint configuration)''), w1)
      | (Inr providerClient, w1) \<Rightarrow>
          (case NewBareMetalV1 S providerClient
                  \<lparr>eoRegion = cloudRegionName cloud, eoAvailability = cloudEndpointType cloud\<rparr> of
             Inl _ \<Rightarrow>
               (Inl (ErrorText ''failed to create baremetal client (check endpoint configuration and region)''), w1)
           | Inr ironicClient \<Rightarrow> (Inr ironicClient, w1)))"

definition mgmt_NewOpenStackClient ::
    "('a, 'pc, 'c, 'w) openstack_setup \<Rightarrow> ('c, 'w) ironic_api \<Rightarrow> ('c \<Rightarrow> string) \<Rightarrow> management_config option \<Rightarrow> 'w
      \<Rightarrow> (go_error + ('c \<times> ('c, 'w) openstack_management)) \<times> 'w" where
  "mgmt_NewOpenStackClient S A endpoint cfg w =
     (case (case cfg of
              None \<Rightarrow> Inr zero_cloud
            | Some cfg \<Rightarrow>
                (case map_of (entries (mgmtOptions cfg)) ''openstack'' of
                   None \<Rightarrow> Inr zero_cloud | Some openstackOpts \<Rightarrow> json_cloud S openstackOpts)) of
        Inl _ \<Rightarrow> (Inl (ErrorText ''failed to unmarshal openstack options (check cloud configuration)''), w)
      | Inr cloud \<Rightarrow>
          (case mgmt_factory S cloud w of
             (Inl err, w1) \<Rightarrow> (Inl err, w1)
           | (Inr sc, w1) \<Rightarrow>
               (Inr (sc, \<lparr>omApi = A, omNewServiceClient = (\<lambda>v. case mgmt_factory S cloud v of
                     (Inl err, v1) \<Rightarrow> (Inl err, v1) | (Inr c, v1) \<Rightarrow> (Inr (Some c), v1)),
                   Endpoint = endpoint\<rparr>), w1)))"

section \<open>What the constructors promise\<close>

lemma parsed_namespace_nonempty:
  "parseMetal3Namespace cfg = Inr ns \<Longrightarrow> ns \<noteq> ''''"
  "parseMetal3ManagementNamespace cfg' = Inr ns' \<Longrightarrow> ns' \<noteq> ''''"
  by (auto simp: parseMetal3Namespace_def parseMetal3ManagementNamespace_def split: option.splits if_splits)

text \<open>A Metal3 inventory client exists only in a cluster with the Metal3 resources, for a configured
  namespace, and reports the configured classes.\<close>

lemma new_metal3_client:
  assumes "NewMetal3Client K draws cfg w = (Inr m, w')"
  shows "m3namespace m \<noteq> '''' \<and> parseMetal3Namespace cfg = Inr (m3namespace m) \<and>
    m3hostClass m = invHostClass cfg \<and> m3networkClass m = invNetworkClass cfg \<and>
    (\<exists>rc w1 w2. validateBareMetalHostCRD K rc w1 = (None, w2))"
  using assms parsed_namespace_nonempty(1)
  by (fastforce simp: NewMetal3Client_def split: sum.splits prod.splits option.splits)

text \<open>
  The two OpenStack clients pick their Ironic endpoint differently: the inventory client asks for no
  region and no endpoint type, whatever the cloud says, while the management client asks for those of
  the cloud. With more than one region in the catalogue they may end up on different services.
\<close>

lemma inventory_endpoint_ignores_region:
  assumes "newServiceClientFactory S cfg w = (Inr c, w')"
  shows "\<exists>pc c0. NewBareMetalV1 S pc no_endpoint_opts = Inr c0 \<and> c = set_Microversion S ''latest'' c0"
  using assms by (auto simp: newServiceClientFactory_def Let_def split: option.splits sum.splits prod.splits)

lemma management_endpoint_follows_region:
  assumes "mgmt_factory S cloud w = (Inr c, w')"
  shows "\<exists>pc. NewBareMetalV1 S pc \<lparr>eoRegion = cloudRegionName cloud, eoAvailability = cloudEndpointType cloud\<rparr> = Inr c"
  using assms by (auto simp: mgmt_factory_def split: sum.splits prod.splits)

end
