(* ===== verification/Setup.thy ===== *)
theory Setup
  imports Instance_Controller Pool_Controller
begin

text \<open>
  Process start: \<open>internal/helpers/getenvwithdefault.go\<close> and the part of \<open>cmd/main.go\<close> that reads the
  environment and the configuration files, builds the provisioning provider and the backends, and
  registers the two controllers. The environment, the files, the YAML decoders, the duration parser
  and the controller manager are the fields of \<open>setup_env\<close>; the process-global registry of profiles
  is passed along.
\<close>

section \<open>Environment variables\<close>

fun digits_value :: "int \<Rightarrow> string \<Rightarrow> int option" where
  "digits_value acc [] = Some acc"
| "digits_value acc (c # cs) =
     (if CHR ''0'' \<le> c \<and> c \<le> CHR ''9'' then digits_value (10 * acc + (of_char c - 48)) cs else None)"

definition strconv_Atoi :: "string \<Rightarrow> go_error + int" where
  "strconv_Atoi s =
     (let (neg, t) = (case s of [] \<Rightarrow> (False, [])
                      | c # cs \<Rightarrow> if c = CHR ''-'' then (True, cs) else if c = CHR ''+'' then (False, cs) else (False, s))
      in if t = [] then Inl (ForeignError ''invalid syntax'')
         else case digits_value 0 t of
           None \<Rightarrow> Inl (ForeignError ''invalid syntax'')
         | Some v \<Rightarrow>
             (let v = (if neg then - v else v)
              in if - (2 ^ 63) \<le> v \<and> v < 2 ^ 63 then Inr v else Inl (ForeignError ''value out of range'')))"

definition strconv_ParseBool :: "string \<Rightarrow> go_error + bool" where
  "strconv_ParseBool s =
     (if s \<in> set [''1'', ''t'', ''T'', ''true'', ''TRUE'', ''True''] then Inr True
      else if s \<in> set [''0'', ''f'', ''F'', ''false'', ''FALSE'', ''False''] then Inr False
      else Inl (ForeignError ''invalid syntax''))"

text \<open>
  \<open>GetEnvWithDefault\<close> at a type \<open>'a\<close>: \<open>conv\<close> is the case of the type switch for it, \<open>None\<close> for a type
  the switch does not know.
\<close>

definition GetEnvWithDefault ::
    "(string \<Rightarrow> string) \<Rightarrow> (string \<Rightarrow> go_error + 'a) option \<Rightarrow> string \<Rightarrow> 'a \<Rightarrow> ('a \<Rightarrow> bool) list \<Rightarrow> 'a" where
  "GetEnvWithDefault getenv conv name defaultValue validators =
     (let val = getenv name in
      if val = '''' then defaultValue
      else case conv of
        None \<Rightarrow> defaultValue
      | Some parse \<Rightarrow>
          (case parse val of
             Inl err \<Rightarrow> defaultValue
           | Inr result \<Rightarrow> if list_all (\<lambda>v. v result) validators then result else defaultValue))"

lemma getenv_valid:
  assumes "\<And>v. v \<in> set validators \<Longrightarrow> v dflt"
  shows "v \<in> set validators \<Longrightarrow> v (GetEnvWithDefault getenv conv name dflt validators)"
  using assms by (auto simp: GetEnvWithDefault_def Let_def list_all_iff split: option.split sum.split)

lemma getenv_unset [simp]: "getenv name = '''' \<Longrightarrow> GetEnvWithDefault getenv conv name dflt vs = dflt"
  by (simp add: GetEnvWithDefault_def)

section \<open>The setup functions\<close>

record ('p, 'a, 'w) setup_env =
  Getenv :: "string \<Rightarrow> string"
  ReadFile :: "string \<Rightarrow> go_error + string"
  IsNotExist :: "go_error \<Rightarrow> bool"
  yaml_profiles :: "string \<Rightarrow> go_error + profile option list"
  yaml_inventory :: "string \<Rightarrow> go_error + inventory_config"
  yaml_management :: "string \<Rightarrow> go_error + management_config"
  ParseDuration :: "string \<Rightarrow> go_error + duration"
  label_validators :: validators
  aap_NewClient :: "string \<Rightarrow> string \<Rightarrow> bool \<Rightarrow> 'a"
  provisioning_NewProvider :: "'a \<Rightarrow> string \<Rightarrow> go_error + 'p"
  inventory_newClientFuncs :: "(string \<times> (inventory_config \<Rightarrow> 'w \<Rightarrow> (go_error + 'w inventory_client) \<times> 'w)) list"
  management_newClientFuncs :: "(string \<times> (management_config \<Rightarrow> 'w \<Rightarrow> (go_error + 'w management_client) \<times> 'w)) list"
  DefaultStatusPollInterval :: duration
  DefaultMaxJobHistory :: int
  pool_SetupWithManager :: "('p, 'w) pool_reconciler \<Rightarrow> go_error option"
  instance_SetupWithManager :: "('p, 'w) bmi_reconciler \<Rightarrow> int \<Rightarrow> go_error option"

abbreviation env_string :: "('p, 'a, 'w) setup_env \<Rightarrow> string \<Rightarrow> string \<Rightarrow> string" where
  "env_string E name dflt \<equiv> GetEnvWithDefault (Getenv E) (Some Inr) name dflt []"

abbreviation env_duration :: "('p, 'a, 'w) setup_env \<Rightarrow> string \<Rightarrow> duration \<Rightarrow> duration" where
  "env_duration E name dflt \<equiv> GetEnvWithDefault (Getenv E) (Some (ParseDuration E)) name dflt []"

text \<open>The provider; without a URL and a token there is none and workflows are disabled.\<close>

definition setup_provider :: "('p, 'a, 'w) setup_env \<Rightarrow> go_error + 'p option" where
  "setup_provider E =
     (let aapURL = env_string E ''OSAC_AAP_URL'' '''';
          aapToken = env_string E ''OSAC_AAP_TOKEN'' ''''
      in if aapURL \<noteq> '''' \<and> aapToken \<noteq> '''' then
           (let insecureSkipVerify = GetEnvWithDefault (Getenv E) (Some strconv_ParseBool)
                                       ''OSAC_AAP_INSECURE_SKIP_VERIFY'' False [];
                templatePrefix = env_string E ''OSAC_AAP_TEMPLATE_PREFIX'' ''osac'';
                aapClient = aap_NewClient E aapURL aapToken insecureSkipVerify
            in case provisioning_NewProvider E aapClient templatePrefix of
                 Inl err \<Rightarrow> Inl err | Inr p \<Rightarrow> Inr (Some p))
         else Inr None)"

text \<open>Loading the profiles: a missing file is no error.\<close>

definition setup_profiles :: "('p, 'a, 'w) setup_env \<Rightarrow> registry \<Rightarrow> load_result \<times> registry" where
  "setup_profiles E reg =
     (case ReadFile E (env_string E ''OSAC_PROFILE_CONFIG_PATH'' ''/etc/osac/profile/profile.yaml'') of
        Inl err \<Rightarrow> if \<not> IsNotExist E err then (LoadFailed err, reg) else (Loaded, reg)
      | Inr profileData \<Rightarrow>
          (case yaml_profiles E profileData of
             Inl err \<Rightarrow> (LoadFailed err, reg)
           | Inr profiles \<Rightarrow> LoadProfiles (label_validators E) profiles reg))"

datatype 'r setup_result = Registered 'r | SetupFailed go_error | SetupPanics

text \<open>The first argument is a reconciler with the manager's services filled in.\<close>

definition setupBareMetalPoolController ::
    "('p, 'w) pool_reconciler \<Rightarrow> ('p, 'a, 'w) setup_env \<Rightarrow> 'p option \<Rightarrow> registry
      \<Rightarrow> ('p, 'w) pool_reconciler setup_result \<times> registry" where
  "setupBareMetalPoolController services E provisioningProvider reg =
     (case setup_profiles E reg of
        (LoadPanics, reg1) \<Rightarrow> (SetupPanics, reg1)
      | (LoadFailed err, reg1) \<Rightarrow> (SetupFailed err, reg1)
      | (Loaded, reg1) \<Rightarrow>
          (let r = NewBareMetalPoolReconciler (DefaultStatusPollInterval E) (DefaultMaxJobHistory E)
                (services\<lparr>registeredProfiles := reg1, provider := provisioningProvider,
                   HostReadyPollIntervalDuration :=
                     env_duration E ''OSAC_HOST_READY_POLL_INTERVAL'' DefaultHostReadyPollIntervalDuration,
                   HostDeletionPollIntervalDuration :=
                     env_duration E ''OSAC_HOST_DELETION_POLL_INTERVAL'' DefaultHostDeletionPollIntervalDuration,
                   ProvisionJobPollIntervalDuration :=
                     env_duration E ''OSAC_AAP_STATUS_POLL_INTERVAL'' (DefaultStatusPollInterval E),
                   MaxJobHistory := GetEnvWithDefault (Getenv E) (Some strconv_Atoi) ''OSAC_MAX_JOB_HISTORY''
                     (DefaultMaxJobHistory E) []\<rparr>)
           in case pool_SetupWithManager E r of
                Some err \<Rightarrow> (SetupFailed (ErrorWrap ''unable to create controller'' err), reg1)
              | None \<Rightarrow> (Registered r, reg1)))"

text \<open>A file that must exist, decoded.\<close>

definition setup_config :: "('p, 'a, 'w) setup_env \<Rightarrow> string \<Rightarrow> string \<Rightarrow> (string \<Rightarrow> go_error + 'b) \<Rightarrow> string \<Rightarrow> go_error + 'b" where
  "setup_config E envName path decode kind =
     (case ReadFile E (env_string E envName path) of
        Inl err \<Rightarrow> Inl (ErrorWrap (''failed to read '' @ kind @ '' config file'') err)
      | Inr data \<Rightarrow>
          (case decode data of
             Inl err \<Rightarrow> Inl (ErrorWrap (''failed to parse '' @ kind @ '' config'') err)
           | Inr cfg \<Rightarrow> Inr cfg))"

definition setup_inventory :: "('p, 'a, 'w) setup_env \<Rightarrow> 'w \<Rightarrow> (go_error + 'w inventory_client) \<times> 'w" where
  "setup_inventory E w =
     (case setup_config E ''OSAC_INVENTORY_CONFIG_PATH'' ''/etc/osac/inventory/inventory.yaml'' (yaml_inventory E) ''inventory'' of
        Inl err \<Rightarrow> (Inl err, w)
      | Inr cfg \<Rightarrow>
          (case inventory_NewClient (inventory_newClientFuncs E) cfg w of
             (Inl err, w1) \<Rightarrow> (Inl (ErrorWrap ''failed to create inventory client'' err), w1)
           | (Inr None, w1) \<Rightarrow> (Inl (ErrorText (''unsupported inventory type '' @ go_quote (invType cfg))), w1)
           | (Inr (Some c), w1) \<Rightarrow> (Inr c, w1)))"

text \<open>\<open>management.NewClient\<close> fails for an unknown type, so the source's test for a nil client after it
  has nothing left to find.\<close>

definition setup_management :: "('p, 'a, 'w) setup_env \<Rightarrow> 'w \<Rightarrow> (go_error + 'w management_client) \<times> 'w" where
  "setup_management E w =
     (case setup_config E ''OSAC_MANAGEMENT_CONFIG_PATH'' ''/etc/osac/management/management.yaml'' (yaml_management E) ''management'' of
        Inl err \<Rightarrow> (Inl err, w)
      | Inr cfg \<Rightarrow>
          (case management_NewClient (management_newClientFuncs E) (Some cfg) w of
             (Inl err, w1) \<Rightarrow> (Inl (ErrorWrap ''failed to create management client'' err), w1)
           | (Inr c, w1) \<Rightarrow> (Inr c, w1)))"

text \<open>The result holds the number of concurrent workers too.\<close>

definition setupBareMetalInstanceController ::
    "('p, 'w) bmi_reconciler \<Rightarrow> ('p, 'a, 'w) setup_env \<Rightarrow> 'p option \<Rightarrow> 'w
      \<Rightarrow> (('p, 'w) bmi_reconciler \<times> int) setup_result \<times> 'w" where
  "setupBareMetalInstanceController services E provisioningProvider w =
     (case setup_inventory E w of
        (Inl err, w1) \<Rightarrow> (SetupFailed err, w1)
      | (Inr inventoryClient, w1) \<Rightarrow>
          (case setup_management E w1 of
             (Inl err, w2) \<Rightarrow> (SetupFailed err, w2)
           | (Inr managementClient, w2) \<Rightarrow>
               (let maxConcurrentReconciles = GetEnvWithDefault (Getenv E) (Some strconv_Atoi)
                      ''OSAC_BAREMETALINSTANCE_MAX_CONCURRENT_RECONCILES'' 1 [\<lambda>v. 0 < v];
                    r = NewBareMetalInstanceReconciler (DefaultStatusPollInterval E)
                      (services\<lparr>InventoryClient := inventoryClient, ManagementClient := managementClient,
                         ProvisioningProvider := provisioningProvider,
                         NoFreeHostsPollIntervalDuration :=
                           env_duration E ''OSAC_NO_FREE_HOSTS_POLL_INTERVAL'' DefaultNoFreeHostsPollIntervalDuration,
                         TryLockFailPollIntervalDuration :=
                           env_duration E ''OSAC_TRY_LOCK_FAIL_POLL_INTERVAL'' DefaultTryLockFailPollIntervalDuration,
                         ManagementRecheckIntervalDuration :=
                           env_duration E ''OSAC_MANAGEMENT_RECHECK_INTERVAL'' DefaultManagementRecheckIntervalDuration,
                         ProvisionPollIntervalDuration :=
                           env_duration E ''OSAC_PROVISION_POLL_INTERVAL'' (DefaultStatusPollInterval E)\<rparr>)
                in case instance_SetupWithManager E r maxConcurrentReconciles of
                     Some err \<Rightarrow> (SetupFailed (ErrorWrap ''baremetalinstance controller'' err), w2)
                   | None \<Rightarrow> (Registered (r, maxConcurrentReconciles), w2))))"

text \<open>The order of \<open>main\<close>; every failure ends the process with \<open>os.Exit(1)\<close>.\<close>

datatype ('p, 'w) started =
    Exits
  | Crashes
  | Running "('p, 'w) pool_reconciler" "('p, 'w) bmi_reconciler" int

definition start_controllers ::
    "('p, 'w) pool_reconciler \<Rightarrow> ('p, 'w) bmi_reconciler \<Rightarrow> ('p, 'a, 'w) setup_env \<Rightarrow> registry \<Rightarrow> 'w
      \<Rightarrow> ('p, 'w) started \<times> registry \<times> 'w" where
  "start_controllers poolServices instanceServices E reg w =
     (case setup_provider E of
        Inl err \<Rightarrow> (Exits, reg, w)
      | Inr provisioningProvider \<Rightarrow>
          (case setupBareMetalPoolController poolServices E provisioningProvider reg of
             (SetupPanics, reg1) \<Rightarrow> (Crashes, reg1, w)
           | (SetupFailed err, reg1) \<Rightarrow> (Exits, reg1, w)
           | (Registered pr, reg1) \<Rightarrow>
               (case setupBareMetalInstanceController instanceServices E provisioningProvider w of
                  (SetupPanics, w1) \<Rightarrow> (Crashes, reg1, w1)
                | (SetupFailed err, w1) \<Rightarrow> (Exits, reg1, w1)
                | (Registered (br, workers), w1) \<Rightarrow> (Running pr br workers, reg1, w1))))"

section \<open>What a started process has\<close>

lemma digits_range: "strconv_Atoi s = Inr v \<Longrightarrow> - (2 ^ 63) \<le> v \<and> v < 2 ^ 63"
  by (auto simp: strconv_Atoi_def Let_def split: prod.splits if_splits option.splits)

lemma workers_range:
  "let n = GetEnvWithDefault getenv (Some strconv_Atoi) name 1 [\<lambda>v. 0 < v] in 1 \<le> n \<and> n < 2 ^ 63"
  using digits_range by (fastforce simp: GetEnvWithDefault_def Let_def split: sum.split)

lemma registered_pool:
  assumes "setupBareMetalPoolController services E prov reg = (Registered pr, reg')"
    and "0 < DefaultStatusPollInterval E" and "0 < DefaultMaxJobHistory E"
  shows "0 < HostReadyPollIntervalDuration pr" and "0 < HostDeletionPollIntervalDuration pr"
    and "0 < ProvisionJobPollIntervalDuration pr" and "0 < MaxJobHistory pr"
    and "provider pr = prov" and "registeredProfiles pr = reg'" and "setup_profiles E reg = (Loaded, reg')"
  using assms default_intervals_positive
  by (auto simp: setupBareMetalPoolController_def NewBareMetalPoolReconciler_def Let_def interval_or_positive
      split: prod.splits load_result.splits option.splits)

lemma registered_instance:
  assumes "setupBareMetalInstanceController services E prov w = (Registered (br, n), w')"
    and "0 < DefaultStatusPollInterval E"
  shows "0 < NoFreeHostsPollIntervalDuration br" and "0 < TryLockFailPollIntervalDuration br"
    and "0 < ManagementRecheckIntervalDuration br" and "0 < ProvisionPollIntervalDuration br"
    and "1 \<le> n \<and> n < 2 ^ 63" and "ProvisioningProvider br = prov"
  using assms default_intervals_positive workers_range[unfolded Let_def]
  by (auto simp: setupBareMetalInstanceController_def NewBareMetalInstanceReconciler_def Let_def interval_or_positive
      split: prod.splits sum.splits option.splits)

lemma setup_profiles_valid:
  assumes "registry_valid (label_validators E) reg" and "setup_profiles E reg = (x, reg')"
  shows "registry_valid (label_validators E) reg'"
proof -
  have "registry_valid (label_validators E) reg1" if "LoadProfiles (label_validators E) ps reg = (y, reg1)" for ps y reg1
    using load_keeps_valid[OF assms(1), of ps] that by simp
  then show ?thesis using assms by (auto simp: setup_profiles_def split: sum.splits if_splits)
qed

lemma provider_configured:
  "setup_provider E = Inr prov \<Longrightarrow>
     prov \<noteq> None \<longleftrightarrow> env_string E ''OSAC_AAP_URL'' '''' \<noteq> '''' \<and> env_string E ''OSAC_AAP_TOKEN'' '''' \<noteq> ''''"
  by (auto simp: setup_provider_def Let_def split: if_splits sum.splits)

section \<open>Property\<close>

text \<open>C34: Whatever the environment variables and the files hold, a process that gets to run its controllers
  runs them with positive poll and recheck intervals (no reconcile is repeated without a pause), a
  positive job history and at least one worker, within the range of an \<open>int\<close>; both controllers share
  the provider, which exists exactly when a URL and a token are set, and the pool controller reads
  a registry of valid profiles.\<close>

theorem started_with_sane_values:
  assumes "0 < DefaultStatusPollInterval E" and "0 < DefaultMaxJobHistory E"
    and "registry_valid (label_validators E) reg"
    and run: "start_controllers poolServices instanceServices E reg w = (Running pr br workers, reg', w')"
  shows "(0 < HostReadyPollIntervalDuration pr \<and> 0 < HostDeletionPollIntervalDuration pr \<and>
      0 < ProvisionJobPollIntervalDuration pr \<and> 0 < MaxJobHistory pr) \<and>
    (0 < NoFreeHostsPollIntervalDuration br \<and> 0 < TryLockFailPollIntervalDuration br \<and>
      0 < ManagementRecheckIntervalDuration br \<and> 0 < ProvisionPollIntervalDuration br) \<and>
    (1 \<le> workers \<and> workers < 2 ^ 63) \<and>
    provider pr = ProvisioningProvider br \<and>
    (provider pr \<noteq> None \<longleftrightarrow> env_string E ''OSAC_AAP_URL'' '''' \<noteq> '''' \<and> env_string E ''OSAC_AAP_TOKEN'' '''' \<noteq> '''') \<and>
    registeredProfiles pr = reg' \<and> registry_valid (label_validators E) reg'"
proof -
  from run obtain prov where prov: "setup_provider E = Inr prov"
    and pool: "setupBareMetalPoolController poolServices E prov reg = (Registered pr, reg')"
    and inst: "setupBareMetalInstanceController instanceServices E prov w = (Registered (br, workers), w')"
    by (auto simp: start_controllers_def split: sum.splits prod.splits setup_result.splits)
  show ?thesis
    using registered_pool[OF pool assms(1,2)] registered_instance[OF inst assms(1)] provider_configured[OF prov]
      setup_profiles_valid[OF assms(3)] by metis
qed

text \<open>An environment with a zero poll interval, a negative number of workers and a profile file.\<close>

definition demo_env :: "(unit, unit, unit) setup_env" where
  "demo_env = \<lparr>
     Getenv = (\<lambda>n. if n = ''OSAC_BAREMETALINSTANCE_MAX_CONCURRENT_RECONCILES'' then ''-4''
                   else if n = ''OSAC_NO_FREE_HOSTS_POLL_INTERVAL'' then ''0s''
                   else if n = ''OSAC_MAX_JOB_HISTORY'' then ''25'' else ''''),
     ReadFile = (\<lambda>path. Inr path), IsNotExist = (\<lambda>e. False),
     yaml_profiles = (\<lambda>s. Inr [Some (demo_profile ''a'')]),
     yaml_inventory = (\<lambda>s. Inr \<lparr>invName = ''i'', invType = ''metal3'', invOptions = None, invHostClass = ''metal3'',
        invNetworkClass = ''net''\<rparr>),
     yaml_management = (\<lambda>s. Inr \<lparr>mgmtName = ''m'', mgmtType = ''metal3'', mgmtOptions = None\<rparr>),
     ParseDuration = (\<lambda>s. Inr 0), label_validators = demo_validators,
     aap_NewClient = (\<lambda>u t k. ()), provisioning_NewProvider = (\<lambda>c p. Inr ()),
     inventory_newClientFuncs = [(''metal3'', \<lambda>cfg w. (Inr \<lparr>FindFreeHost = (\<lambda>m w. (Inr None, w)),
        AssignHost = (\<lambda>h c ls w. (Inr None, w)), UnassignHost = (\<lambda>h ks w. (None, w))\<rparr>, w))],
     management_newClientFuncs = [(''metal3'', \<lambda>cfg w. (Inr \<lparr>GetPowerState = (\<lambda>h w. (Inr None, w)),
        SetPowerState = (\<lambda>h t w. (None, w)), TriggerRestart = (\<lambda>h w. (None, w)),
        IsRestartComplete = (\<lambda>h w. (Inr True, w))\<rparr>, w))],
     DefaultStatusPollInterval = 30 * second, DefaultMaxJobHistory = 10,
     pool_SetupWithManager = (\<lambda>r. None), instance_SetupWithManager = (\<lambda>r n. None)\<rparr>"

lemma demo_env_parsing:
  "strconv_Atoi ''-4'' = Inr (- 4)" "strconv_Atoi ''25'' = Inr 25"
  "strconv_Atoi ''9223372036854775808'' = Inl (ForeignError ''value out of range'')"
  "strconv_Atoi ''+'' = Inl (ForeignError ''invalid syntax'')"
  by (simp_all add: strconv_Atoi_def Let_def less_eq_char_def)

theorem started_with_sane_values_witness:
  "\<forall>poolServices instanceServices. \<exists>pr br n reg w.
     start_controllers poolServices instanceServices demo_env [] () = (Running pr br n, reg, w) \<and>
     0 < NoFreeHostsPollIntervalDuration br \<and> 1 \<le> n \<and> registry_valid demo_validators reg"
proof (intro allI)
  fix poolServices :: "(unit, unit) pool_reconciler" and instanceServices :: "(unit, unit) bmi_reconciler"
  obtain pr br n reg w where run: "start_controllers poolServices instanceServices demo_env [] () = (Running pr br n, reg, w)"
    by (simp add: start_controllers_def setup_provider_def setupBareMetalPoolController_def setup_profiles_def
        setupBareMetalInstanceController_def setup_inventory_def setup_management_def setup_config_def
        inventory_NewClient_def management_NewClient_def GetEnvWithDefault_def demo_env_def demo_profile_def
        demo_validators_def demo_env_parsing Let_def)
  have pos: "0 < DefaultStatusPollInterval demo_env" "0 < DefaultMaxJobHistory demo_env"
    "label_validators demo_env = demo_validators"
    by (simp_all add: demo_env_def second_def)
  have "registry_valid (label_validators demo_env) []" by (simp add: registry_valid_def)
  from started_with_sane_values[OF pos(1,2) this run]
  show "\<exists>pr br n reg w. start_controllers poolServices instanceServices demo_env [] () = (Running pr br n, reg, w) \<and>
      0 < NoFreeHostsPollIntervalDuration br \<and> 1 \<le> n \<and> registry_valid demo_validators reg"
    using run pos(3) by auto
qed

end
