(* ===== verification/Process_Start.thy ===== *)
theory Process_Start
  imports Setup
begin

text \<open>
  The process around the two controllers: \<open>main\<close> of \<open>cmd/main.go\<close> from the command line to the start of
  the manager. What the standard library does with the command line (\<open>flag\<close>) and with paths
  (\<open>path/filepath\<close>) is modelled; the certificate watchers, the cluster's configuration and the manager
  are the fields of \<open>process_env\<close>. The theory \<open>Setup\<close> has what \<open>main\<close> does between building the
  manager and starting it.
\<close>

section \<open>The command line\<close>

text \<open>
  The variables of \<open>main\<close>. Packages that the program imports register flags of their own (\<open>kubeconfig\<close>,
  the options of the logger); what these are set to is collected in the last field.
\<close>

record main_flags =
  metricsAddr :: string
  metricsCertPath :: string
  metricsCertName :: string
  metricsCertKey :: string
  webhookCertPath :: string
  webhookCertName :: string
  webhookCertKey :: string
  enableLeaderElection :: bool
  probeAddr :: string
  secureMetrics :: bool
  enableHTTP2 :: bool
  foreignFlags :: "(string \<times> string) list"

definition main_flags_init :: main_flags where
  "main_flags_init = \<lparr>metricsAddr = ''0'', metricsCertPath = '''', metricsCertName = ''tls.crt'', metricsCertKey = ''tls.key'',
     webhookCertPath = '''', webhookCertName = ''tls.crt'', webhookCertKey = ''tls.key'', enableLeaderElection = False,
     probeAddr = '':8081'', secureMetrics = True, enableHTTP2 = False, foreignFlags = []\<rparr>"

datatype flag_var =
    StringVar "string \<Rightarrow> main_flags \<Rightarrow> main_flags"
  | BoolVar "bool \<Rightarrow> main_flags \<Rightarrow> main_flags"

definition main_flag_table :: "(string \<times> flag_var) list" where
  "main_flag_table = [
     (''metrics-bind-address'', StringVar (\<lambda>v f. f\<lparr>metricsAddr := v\<rparr>)),
     (''health-probe-bind-address'', StringVar (\<lambda>v f. f\<lparr>probeAddr := v\<rparr>)),
     (''leader-elect'', BoolVar (\<lambda>v f. f\<lparr>enableLeaderElection := v\<rparr>)),
     (''metrics-secure'', BoolVar (\<lambda>v f. f\<lparr>secureMetrics := v\<rparr>)),
     (''webhook-cert-path'', StringVar (\<lambda>v f. f\<lparr>webhookCertPath := v\<rparr>)),
     (''webhook-cert-name'', StringVar (\<lambda>v f. f\<lparr>webhookCertName := v\<rparr>)),
     (''webhook-cert-key'', StringVar (\<lambda>v f. f\<lparr>webhookCertKey := v\<rparr>)),
     (''metrics-cert-path'', StringVar (\<lambda>v f. f\<lparr>metricsCertPath := v\<rparr>)),
     (''metrics-cert-name'', StringVar (\<lambda>v f. f\<lparr>metricsCertName := v\<rparr>)),
     (''metrics-cert-key'', StringVar (\<lambda>v f. f\<lparr>metricsCertKey := v\<rparr>)),
     (''enable-http2'', BoolVar (\<lambda>v f. f\<lparr>enableHTTP2 := v\<rparr>))]"

text \<open>A flag of another package: whether it is boolean, and which values it takes.\<close>

record foreign_flag =
  is_bool_flag :: bool
  accepts :: "string \<Rightarrow> bool"

definition flag_is_bool :: "(string \<Rightarrow> foreign_flag option) \<Rightarrow> string \<Rightarrow> bool option" where
  "flag_is_bool foreign name =
     (case map_of main_flag_table name of
        Some (StringVar put) \<Rightarrow> Some False
      | Some (BoolVar put) \<Rightarrow> Some True
      | None \<Rightarrow> map_option is_bool_flag (foreign name))"

definition set_flag :: "(string \<Rightarrow> foreign_flag option) \<Rightarrow> string \<Rightarrow> string \<Rightarrow> main_flags \<Rightarrow> main_flags option" where
  "set_flag foreign name val fl =
     (case map_of main_flag_table name of
        Some (StringVar put) \<Rightarrow> Some (put val fl)
      | Some (BoolVar put) \<Rightarrow> (case strconv_ParseBool val of Inl err \<Rightarrow> None | Inr v \<Rightarrow> Some (put v fl))
      | None \<Rightarrow>
          (case foreign name of
             None \<Rightarrow> None
           | Some g \<Rightarrow> if accepts g val then Some (fl\<lparr>foreignFlags := foreignFlags fl @ [(name, val)]\<rparr>) else None))"

text \<open>
  \<open>flag.Parse\<close> of the standard library. A word is a flag (with a value after an equals sign, or without),
  the end of the flags, or no flag; flags end at the first word that is none.
\<close>

datatype flag_word = NoFlag | BadFlag | FlagWord string "string option"

definition flag_word :: "string \<Rightarrow> flag_word" where
  "flag_word s =
     (if length s < 2 \<or> s ! 0 \<noteq> CHR ''-'' then NoFlag
      else if s = ''--'' then NoFlag
      else let name = drop (if s ! 1 = CHR ''-'' then 2 else 1) s in
        if name = '''' \<or> hd name = CHR ''-'' \<or> hd name = CHR ''='' then BadFlag
        else FlagWord (takeWhile (\<lambda>c. c \<noteq> CHR ''='') name)
               (case dropWhile (\<lambda>c. c \<noteq> CHR ''='') name of [] \<Rightarrow> None | _ # v \<Rightarrow> Some v))"

datatype flag_outcome = Parsed main_flags | FlagHelp | FlagError

fun flag_Parse :: "(string \<Rightarrow> foreign_flag option) \<Rightarrow> main_flags \<Rightarrow> string list \<Rightarrow> flag_outcome" where
  "flag_Parse foreign fl [] = Parsed fl"
| "flag_Parse foreign fl (s # args) =
     (case flag_word s of
        NoFlag \<Rightarrow> Parsed fl
      | BadFlag \<Rightarrow> FlagError
      | FlagWord name val \<Rightarrow>
          (case flag_is_bool foreign name of
             None \<Rightarrow> if name = ''help'' \<or> name = ''h'' then FlagHelp else FlagError
           | Some True \<Rightarrow>
               (case set_flag foreign name (case val of None \<Rightarrow> ''true'' | Some v \<Rightarrow> v) fl of
                  None \<Rightarrow> FlagError | Some fl' \<Rightarrow> flag_Parse foreign fl' args)
           | Some False \<Rightarrow>
               (case val of
                  Some v \<Rightarrow> (case set_flag foreign name v fl of
                      None \<Rightarrow> FlagError | Some fl' \<Rightarrow> flag_Parse foreign fl' args)
                | None \<Rightarrow>
                    (case args of
                       [] \<Rightarrow> FlagError
                     | v # args' \<Rightarrow> (case set_flag foreign name v fl of
                           None \<Rightarrow> FlagError | Some fl' \<Rightarrow> flag_Parse foreign fl' args')))))"

section \<open>Paths\<close>

text \<open>\<open>filepath.Clean\<close> and \<open>filepath.Join\<close> on a Unix system.\<close>

fun clean_parts :: "bool \<Rightarrow> string list \<Rightarrow> string list \<Rightarrow> string list" where
  "clean_parts rooted out [] = rev out"
| "clean_parts rooted out (p # ps) =
     (if p = '''' \<or> p = ''.'' then clean_parts rooted out ps
      else if p = ''..'' then
        (case out of
           [] \<Rightarrow> clean_parts rooted (if rooted then [] else [p]) ps
         | q # out' \<Rightarrow> clean_parts rooted (if q = ''..'' then p # out else out') ps)
      else clean_parts rooted (p # out) ps)"

definition filepath_Clean :: "string \<Rightarrow> string" where
  "filepath_Clean path =
     (if path = '''' then ''.''
      else let rooted = (hd path = CHR ''/'');
               parts = clean_parts rooted [] (strings_SplitN path (CHR ''/'') (Suc (length path)));
               joined = strings_Join parts ''/''
           in if rooted then CHR ''/'' # joined else if parts = [] then ''.'' else joined)"

definition filepath_Join :: "string \<Rightarrow> string \<Rightarrow> string" where
  "filepath_Join dir name =
     (if dir \<noteq> '''' then filepath_Clean (dir @ ''/'' @ name)
      else if name \<noteq> '''' then filepath_Clean name else '''')"

section \<open>The TLS options\<close>

text \<open>\<open>'c\<close> is the type of certificate watchers; \<open>GetCertificate\<close> names the watcher whose method it is.\<close>

record 'c tls_config =
  NextProtos :: "string list"
  GetCertificate :: "'c option"

type_synonym 'c tls_opt = "'c tls_config \<Rightarrow> 'c tls_config"

definition disableHTTP2 :: "'c tls_opt" where
  "disableHTTP2 c = c\<lparr>NextProtos := [''http/1.1'']\<rparr>"

definition serve_certificate :: "'c \<Rightarrow> 'c tls_opt" where
  "serve_certificate watcher config = config\<lparr>GetCertificate := Some watcher\<rparr>"

definition initial_tls_opts :: "main_flags \<Rightarrow> 'c tls_opt list" where
  "initial_tls_opts fl = (if \<not> enableHTTP2 fl then [disableHTTP2] else [])"

text \<open>
  Both servers append to the one slice \<open>tlsOpts\<close>. It has no spare capacity (it is nil, or the result of
  appending one element to a nil slice), so that each append copies it and none can overwrite the
  other's element.
\<close>

definition with_certificate :: "'c tls_opt list \<Rightarrow> 'c option \<Rightarrow> 'c tls_opt list" where
  "with_certificate opts watcher =
     (case watcher of None \<Rightarrow> opts | Some c \<Rightarrow> opts @ [serve_certificate c])"

text \<open>What a server does with its options: it applies them in order to its own configuration.\<close>

definition apply_tls_opts :: "'c tls_opt list \<Rightarrow> 'c tls_config \<Rightarrow> 'c tls_config" where
  "apply_tls_opts opts cfg = fold (\<lambda>opt c. opt c) opts cfg"

lemma apply_tls_opts_simps [simp]:
  "apply_tls_opts [] cfg = cfg"
  "apply_tls_opts (opts @ [f]) cfg = f (apply_tls_opts opts cfg)"
  "apply_tls_opts (f # opts) cfg = apply_tls_opts opts (f cfg)"
  by (simp_all add: apply_tls_opts_def)

lemma server_protocols:
  "NextProtos (apply_tls_opts (with_certificate (initial_tls_opts fl) c) cfg) =
     (if enableHTTP2 fl then NextProtos cfg else [''http/1.1''])"
  by (simp add: with_certificate_def initial_tls_opts_def disableHTTP2_def serve_certificate_def split: option.split)

lemma server_certificate:
  "GetCertificate (apply_tls_opts (with_certificate (initial_tls_opts fl) c) cfg) =
     (case c of None \<Rightarrow> GetCertificate cfg | Some watcher \<Rightarrow> Some watcher)"
  by (simp add: with_certificate_def initial_tls_opts_def disableHTTP2_def serve_certificate_def split: option.split)

section \<open>The manager\<close>

record 'c metrics_options =
  BindAddress :: string
  SecureServing :: bool
  metricsTLSOpts :: "'c tls_opt list"
  WithAuthenticationAndAuthorization :: bool

record 'c manager_options =
  Metrics :: "'c metrics_options"
  WebhookServerTLSOpts :: "'c tls_opt list"
  HealthProbeBindAddress :: string
  LeaderElection :: bool
  LeaderElectionID :: string
  CacheNamespaces :: "(string \<times> string list) list"

text \<open>The manager when it is started, with what was added to it.\<close>

record ('c, 'p, 'w) manager =
  mgrOptions :: "'c manager_options"
  poolController :: "('p, 'w) pool_reconciler"
  instanceController :: "('p, 'w) bmi_reconciler"
  instanceWorkers :: int
  runnables :: "'c list"
  healthzChecks :: "string list"
  readyzChecks :: "string list"

text \<open>
  The services of the process. \<open>GetConfig\<close> is given the flags of other packages, since \<open>kubeconfig\<close>
  is one of them; \<open>GetConfigOrDie\<close> exits when it fails.
\<close>

record ('k, 'c, 'p, 'w) process_env =
  foreign_flags :: "string \<Rightarrow> foreign_flag option"
  certwatcher_New :: "string \<Rightarrow> string \<Rightarrow> go_error + 'c"
  GetConfig :: "(string \<times> string) list \<Rightarrow> go_error + 'k"
  NewManager :: "'k \<Rightarrow> 'c manager_options \<Rightarrow> go_error option"
  manager_Add :: "'c \<Rightarrow> go_error option"
  AddHealthzCheck :: "string \<Rightarrow> go_error option"
  AddReadyzCheck :: "string \<Rightarrow> go_error option"
  manager_Start :: "('c, 'p, 'w) manager \<Rightarrow> go_error option"

definition new_cert_watcher ::
    "('k, 'c, 'p, 'w) process_env \<Rightarrow> string \<Rightarrow> string \<Rightarrow> string \<Rightarrow> go_error + 'c option" where
  "new_cert_watcher P certPath certName certKey =
     (if length certPath > 0 then
        (case certwatcher_New P (filepath_Join certPath certName) (filepath_Join certPath certKey) of
           Inl err \<Rightarrow> Inl err | Inr watcher \<Rightarrow> Inr (Some watcher))
      else Inr None)"

definition metrics_server_options :: "main_flags \<Rightarrow> 'c option \<Rightarrow> 'c metrics_options" where
  "metrics_server_options fl metricsCertWatcher =
     \<lparr>BindAddress = metricsAddr fl, SecureServing = secureMetrics fl,
      metricsTLSOpts = with_certificate (initial_tls_opts fl) metricsCertWatcher,
      WithAuthenticationAndAuthorization = secureMetrics fl\<rparr>"

definition manager_config :: "main_flags \<Rightarrow> string \<Rightarrow> 'c option \<Rightarrow> 'c option \<Rightarrow> 'c manager_options" where
  "manager_config fl namespace webhookCertWatcher metricsCertWatcher =
     \<lparr>Metrics = metrics_server_options fl metricsCertWatcher,
      WebhookServerTLSOpts = with_certificate (initial_tls_opts fl) webhookCertWatcher,
      HealthProbeBindAddress = probeAddr fl,
      LeaderElection = enableLeaderElection fl,
      LeaderElectionID = ''89c2406a.openshift.io'',
      CacheNamespaces = [(''BareMetalPool'', [namespace]), (''BareMetalInstance'', [namespace])]\<rparr>"

definition add_cert_watcher ::
    "('k, 'c, 'p, 'w) process_env \<Rightarrow> 'c option \<Rightarrow> ('c, 'p, 'w) manager \<Rightarrow> go_error + ('c, 'p, 'w) manager" where
  "add_cert_watcher P watcher m =
     (case watcher of
        None \<Rightarrow> Inr m
      | Some c \<Rightarrow> (case manager_Add P c of
            Some err \<Rightarrow> Inl err | None \<Rightarrow> Inr (m\<lparr>runnables := runnables m @ [c]\<rparr>)))"

section \<open>The main function\<close>

text \<open>
  How the process ends: it exits with a status before the manager is started, it crashes, or it has
  started the manager, which later returns (status 0) or fails (status 1).
\<close>

datatype ('c, 'p, 'w) process_end =
    Exited nat
  | Crashed
  | Served nat "('c, 'p, 'w) manager"

text \<open>The part of \<open>main\<close> after the controllers are set up.\<close>

definition serve_manager ::
    "('k, 'c, 'p, 'w) process_env \<Rightarrow> 'c option \<Rightarrow> 'c option \<Rightarrow> ('c, 'p, 'w) manager \<Rightarrow> ('c, 'p, 'w) process_end" where
  "serve_manager P metricsCertWatcher webhookCertWatcher m =
     (case add_cert_watcher P metricsCertWatcher m of
        Inl err \<Rightarrow> Exited 1
      | Inr m1 \<Rightarrow>
          (case add_cert_watcher P webhookCertWatcher m1 of
             Inl err \<Rightarrow> Exited 1
           | Inr m2 \<Rightarrow>
               (case AddHealthzCheck P ''healthz'' of
                  Some err \<Rightarrow> Exited 1
                | None \<Rightarrow>
                    (case AddReadyzCheck P ''readyz'' of
                       Some err \<Rightarrow> Exited 1
                     | None \<Rightarrow>
                         (let m3 = m2\<lparr>healthzChecks := healthzChecks m2 @ [''healthz''],
                                      readyzChecks := readyzChecks m2 @ [''readyz'']\<rparr>
                          in case manager_Start P m3 of Some err \<Rightarrow> Served 1 m3 | None \<Rightarrow> Served 0 m3)))))"

definition start_manager ::
    "('k, 'c, 'p, 'w) process_env \<Rightarrow> ('p, 'a, 'w) setup_env \<Rightarrow> ('p, 'w) pool_reconciler \<Rightarrow> ('p, 'w) bmi_reconciler
      \<Rightarrow> main_flags \<Rightarrow> 'c option \<Rightarrow> 'c option \<Rightarrow> registry \<Rightarrow> 'w \<Rightarrow> ('c, 'p, 'w) process_end \<times> registry \<times> 'w" where
  "start_manager P E poolServices instanceServices fl webhookCertWatcher metricsCertWatcher reg w =
     (let namespace = Getenv E ''OSAC_BARE_METAL_FULFILLMENT_NAMESPACE'';
          opts = manager_config fl namespace webhookCertWatcher metricsCertWatcher
      in if namespace = '''' then (Exited 1, reg, w)
         else case GetConfig P (foreignFlags fl) of
           Inl err \<Rightarrow> (Exited 1, reg, w)
         | Inr config \<Rightarrow>
             (case NewManager P config opts of
                Some err \<Rightarrow> (Exited 1, reg, w)
              | None \<Rightarrow>
                  (case start_controllers poolServices instanceServices E reg w of
                     (Exits, reg1, w1) \<Rightarrow> (Exited 1, reg1, w1)
                   | (Crashes, reg1, w1) \<Rightarrow> (Crashed, reg1, w1)
                   | (Running pr br n, reg1, w1) \<Rightarrow>
                       (serve_manager P metricsCertWatcher webhookCertWatcher
                          \<lparr>mgrOptions = opts, poolController = pr, instanceController = br, instanceWorkers = n,
                           runnables = [], healthzChecks = [], readyzChecks = []\<rparr>, reg1, w1))))"

definition main ::
    "('k, 'c, 'p, 'w) process_env \<Rightarrow> ('p, 'a, 'w) setup_env \<Rightarrow> ('p, 'w) pool_reconciler \<Rightarrow> ('p, 'w) bmi_reconciler
      \<Rightarrow> string list \<Rightarrow> registry \<Rightarrow> 'w \<Rightarrow> ('c, 'p, 'w) process_end \<times> registry \<times> 'w" where
  "main P E poolServices instanceServices args reg w =
     (case flag_Parse (foreign_flags P) main_flags_init args of
        FlagHelp \<Rightarrow> (Exited 0, reg, w)
      | FlagError \<Rightarrow> (Exited 2, reg, w)
      | Parsed fl \<Rightarrow>
          (case new_cert_watcher P (webhookCertPath fl) (webhookCertName fl) (webhookCertKey fl) of
             Inl err \<Rightarrow> (Exited 1, reg, w)
           | Inr webhookCertWatcher \<Rightarrow>
               (case new_cert_watcher P (metricsCertPath fl) (metricsCertName fl) (metricsCertKey fl) of
                  Inl err \<Rightarrow> (Exited 1, reg, w)
                | Inr metricsCertWatcher \<Rightarrow>
                    start_manager P E poolServices instanceServices fl webhookCertWatcher metricsCertWatcher reg w)))"

section \<open>Properties\<close>

lemma new_cert_watcher_cases:
  assumes "new_cert_watcher P path name key = Inr watcher"
  shows "case watcher of
      None \<Rightarrow> path = ''''
    | Some c \<Rightarrow> path \<noteq> '''' \<and> certwatcher_New P (filepath_Join path name) (filepath_Join path key) = Inr c"
  using assms by (auto simp: new_cert_watcher_def split: if_splits sum.splits)

lemma add_cert_watcher_cases:
  "add_cert_watcher P watcher m = Inr m' \<Longrightarrow>
     m' = m\<lparr>runnables := runnables m @ (case watcher of None \<Rightarrow> [] | Some c \<Rightarrow> [c])\<rparr>"
  by (auto simp: add_cert_watcher_def split: option.splits)

lemma served_manager:
  assumes "serve_manager P metricsCertWatcher webhookCertWatcher m = Served code m'"
  shows "m' = m\<lparr>runnables := runnables m @ (case metricsCertWatcher of None \<Rightarrow> [] | Some c \<Rightarrow> [c])
                  @ (case webhookCertWatcher of None \<Rightarrow> [] | Some c \<Rightarrow> [c]),
                healthzChecks := healthzChecks m @ [''healthz''], readyzChecks := readyzChecks m @ [''readyz'']\<rparr>"
    and "code = (if manager_Start P m' = None then 0 else 1)"
  using assms by (auto simp: serve_manager_def Let_def dest!: add_cert_watcher_cases split: sum.splits option.splits)

text \<open>What \<open>main\<close> has gone through when it starts the manager.\<close>

lemma main_served:
  assumes "main P E poolServices instanceServices args reg w = (Served code m, reg', w')"
  obtains fl webhookCertWatcher metricsCertWatcher pr br n where
    "flag_Parse (foreign_flags P) main_flags_init args = Parsed fl"
    and "new_cert_watcher P (webhookCertPath fl) (webhookCertName fl) (webhookCertKey fl) = Inr webhookCertWatcher"
    and "new_cert_watcher P (metricsCertPath fl) (metricsCertName fl) (metricsCertKey fl) = Inr metricsCertWatcher"
    and "Getenv E ''OSAC_BARE_METAL_FULFILLMENT_NAMESPACE'' \<noteq> ''''"
    and "start_controllers poolServices instanceServices E reg w = (Running pr br n, reg', w')"
    and "m = \<lparr>mgrOptions = manager_config fl (Getenv E ''OSAC_BARE_METAL_FULFILLMENT_NAMESPACE'')
                           webhookCertWatcher metricsCertWatcher,
              poolController = pr, instanceController = br, instanceWorkers = n,
              runnables = (case metricsCertWatcher of None \<Rightarrow> [] | Some c \<Rightarrow> [c])
                          @ (case webhookCertWatcher of None \<Rightarrow> [] | Some c \<Rightarrow> [c]),
              healthzChecks = [''healthz''], readyzChecks = [''readyz'']\<rparr>"
    and "code = (if manager_Start P m = None then 0 else 1)"
proof -
  from assms obtain fl where fl: "flag_Parse (foreign_flags P) main_flags_init args = Parsed fl"
    by (auto simp: main_def split: flag_outcome.splits)
  with assms obtain wc mc where wc: "new_cert_watcher P (webhookCertPath fl) (webhookCertName fl) (webhookCertKey fl) = Inr wc"
    and mc: "new_cert_watcher P (metricsCertPath fl) (metricsCertName fl) (metricsCertKey fl) = Inr mc"
    and st: "start_manager P E poolServices instanceServices fl wc mc reg w = (Served code m, reg', w')"
    by (auto simp: main_def split: sum.splits)
  let ?ns = "Getenv E ''OSAC_BARE_METAL_FULFILLMENT_NAMESPACE''"
  from st have ns: "?ns \<noteq> ''''" by (auto simp: start_manager_def Let_def split: if_splits)
  from st obtain pr br n where run: "start_controllers poolServices instanceServices E reg w = (Running pr br n, reg', w')"
    and sv: "serve_manager P mc wc
        \<lparr>mgrOptions = manager_config fl ?ns wc mc, poolController = pr, instanceController = br, instanceWorkers = n,
         runnables = [], healthzChecks = [], readyzChecks = []\<rparr> = Served code m"
    by (auto simp: start_manager_def Let_def split: if_splits sum.splits option.splits prod.splits started.splits)
  show ?thesis using that[OF fl wc mc ns run] served_manager[OF sv] by simp
qed

text \<open>C35: A process that gets to start its manager serves what its command line and its environment asked
  for and nothing wider. Unless HTTP/2 was enabled explicitly, both servers speak HTTP/1.1 only,
  whatever they are configured with. A server with a certificate directory serves the certificate of
  a watcher on exactly the two files of that directory, never the other server's, and that watcher
  is run by the manager; without a directory it keeps what it has. A secure metrics endpoint checks
  who asks. The cache, and so both controllers, see the pools and instances of the one configured
  namespace, which is not empty; the controllers have been set up and both probes are served.\<close>

theorem served_as_asked:
  assumes "main P E poolServices instanceServices args reg w = (Served code m, reg', w')"
  shows "\<exists>fl. flag_Parse (foreign_flags P) main_flags_init args = Parsed fl \<and>
    (let metrics = apply_tls_opts (metricsTLSOpts (Metrics (mgrOptions m)));
         webhook = apply_tls_opts (WebhookServerTLSOpts (mgrOptions m));
         namespace = Getenv E ''OSAC_BARE_METAL_FULFILLMENT_NAMESPACE''
     in (\<forall>cfg. NextProtos (metrics cfg) = (if enableHTTP2 fl then NextProtos cfg else [''http/1.1''])) \<and>
        (\<forall>cfg. NextProtos (webhook cfg) = (if enableHTTP2 fl then NextProtos cfg else [''http/1.1''])) \<and>
        (if metricsCertPath fl = '''' then \<forall>cfg. GetCertificate (metrics cfg) = GetCertificate cfg
         else \<exists>c. c \<in> set (runnables m) \<and> (\<forall>cfg. GetCertificate (metrics cfg) = Some c) \<and>
           certwatcher_New P (filepath_Join (metricsCertPath fl) (metricsCertName fl))
             (filepath_Join (metricsCertPath fl) (metricsCertKey fl)) = Inr c) \<and>
        (if webhookCertPath fl = '''' then \<forall>cfg. GetCertificate (webhook cfg) = GetCertificate cfg
         else \<exists>c. c \<in> set (runnables m) \<and> (\<forall>cfg. GetCertificate (webhook cfg) = Some c) \<and>
           certwatcher_New P (filepath_Join (webhookCertPath fl) (webhookCertName fl))
             (filepath_Join (webhookCertPath fl) (webhookCertKey fl)) = Inr c) \<and>
        SecureServing (Metrics (mgrOptions m)) = secureMetrics fl \<and>
        WithAuthenticationAndAuthorization (Metrics (mgrOptions m)) = secureMetrics fl \<and>
        BindAddress (Metrics (mgrOptions m)) = metricsAddr fl \<and>
        namespace \<noteq> '''' \<and>
        map_of (CacheNamespaces (mgrOptions m)) ''BareMetalPool'' = Some [namespace] \<and>
        map_of (CacheNamespaces (mgrOptions m)) ''BareMetalInstance'' = Some [namespace] \<and>
        start_controllers poolServices instanceServices E reg w =
          (Running (poolController m) (instanceController m) (instanceWorkers m), reg', w') \<and>
        healthzChecks m = [''healthz''] \<and> readyzChecks m = [''readyz''])"
proof -
  from assms obtain fl wc mc pr br n where fl: "flag_Parse (foreign_flags P) main_flags_init args = Parsed fl"
    and wc: "new_cert_watcher P (webhookCertPath fl) (webhookCertName fl) (webhookCertKey fl) = Inr wc"
    and mc: "new_cert_watcher P (metricsCertPath fl) (metricsCertName fl) (metricsCertKey fl) = Inr mc"
    and rest: "Getenv E ''OSAC_BARE_METAL_FULFILLMENT_NAMESPACE'' \<noteq> ''''"
      "start_controllers poolServices instanceServices E reg w = (Running pr br n, reg', w')"
    and m: "m = \<lparr>mgrOptions = manager_config fl (Getenv E ''OSAC_BARE_METAL_FULFILLMENT_NAMESPACE'') wc mc,
              poolController = pr, instanceController = br, instanceWorkers = n,
              runnables = (case mc of None \<Rightarrow> [] | Some c \<Rightarrow> [c]) @ (case wc of None \<Rightarrow> [] | Some c \<Rightarrow> [c]),
              healthzChecks = [''healthz''], readyzChecks = [''readyz'']\<rparr>"
    by (rule main_served)
  show ?thesis
    using fl rest new_cert_watcher_cases[OF wc] new_cert_watcher_cases[OF mc]
    by (intro exI[of _ fl])
      (auto simp: m manager_config_def metrics_server_options_def server_protocols server_certificate Let_def
        split: option.splits)
qed

text \<open>A process with certificates for the metrics endpoint only.\<close>

definition demo_process :: "(unit, string \<times> string, unit, unit) process_env" where
  "demo_process = \<lparr>foreign_flags = (\<lambda>n. None), certwatcher_New = (\<lambda>c k. Inr (c, k)), GetConfig = (\<lambda>fs. Inr ()),
     NewManager = (\<lambda>k opts. None), manager_Add = (\<lambda>c. None), AddHealthzCheck = (\<lambda>n. None),
     AddReadyzCheck = (\<lambda>n. None), manager_Start = (\<lambda>m. None)\<rparr>"

definition demo_process_setup :: "(unit, unit, unit) setup_env" where
  "demo_process_setup = demo_env\<lparr>Getenv :=
     (\<lambda>n. if n = ''OSAC_BARE_METAL_FULFILLMENT_NAMESPACE'' then ''osac'' else Getenv demo_env n)\<rparr>"

definition demo_args :: "string list" where
  "demo_args = [''-leader-elect'', ''--metrics-cert-path=/certs/.'', ''--metrics-bind-address'', '':8443'']"

definition demo_flags :: main_flags where
  "demo_flags = main_flags_init\<lparr>enableLeaderElection := True, metricsCertPath := ''/certs/.'', metricsAddr := '':8443''\<rparr>"

lemma demo_args_parsed: "flag_Parse foreign main_flags_init demo_args = Parsed demo_flags"
  by (simp add: demo_args_def demo_flags_def flag_word_def flag_is_bool_def set_flag_def main_flag_table_def
      main_flags_init_def strconv_ParseBool_def)

lemma demo_flags_fields:
  "metricsCertPath demo_flags = ''/certs/.''" "metricsCertName demo_flags = ''tls.crt''"
  "metricsCertKey demo_flags = ''tls.key''" "webhookCertPath demo_flags = ''''"
  "secureMetrics demo_flags" "\<not> enableHTTP2 demo_flags"
  by (simp_all add: demo_flags_def main_flags_init_def)

lemma demo_paths:
  "filepath_Join ''/certs/.'' ''tls.crt'' = ''/certs/tls.crt''" "filepath_Join ''/certs/.'' ''tls.key'' = ''/certs/tls.key''"
  "filepath_Join ''certs/../..'' ''tls.crt'' = ''../tls.crt''" "filepath_Join ''/certs'' '''' = ''/certs''"
  by (simp_all add: filepath_Join_def filepath_Clean_def Let_def)

lemma demo_controllers:
  obtains pr br n reg w where "start_controllers poolServices instanceServices demo_process_setup [] () = (Running pr br n, reg, w)"
  by (simp add: demo_process_setup_def
      start_controllers_def setup_provider_def setupBareMetalPoolController_def setup_profiles_def
      setupBareMetalInstanceController_def setup_inventory_def setup_management_def setup_config_def
      inventory_NewClient_def management_NewClient_def GetEnvWithDefault_def demo_env_def demo_profile_def
      demo_validators_def demo_env_parsing Let_def)

lemma demo_process_served:
  obtains m reg w where
    "main demo_process demo_process_setup poolServices instanceServices demo_args [] () = (Served 0 m, reg, w)"
proof -
  obtain pr br n reg w where "start_controllers poolServices instanceServices demo_process_setup [] () = (Running pr br n, reg, w)"
    by (rule demo_controllers)
  moreover have "Getenv demo_process_setup ''OSAC_BARE_METAL_FULFILLMENT_NAMESPACE'' \<noteq> ''''"
    by (simp add: demo_process_setup_def)
  ultimately show ?thesis
    using that by (simp add: main_def demo_args_parsed demo_flags_fields start_manager_def serve_manager_def new_cert_watcher_def
        add_cert_watcher_def demo_process_def Let_def)
qed

theorem served_as_asked_witness:
  "\<forall>poolServices instanceServices. \<exists>m reg w.
     main demo_process demo_process_setup poolServices instanceServices demo_args [] () = (Served 0 m, reg, w) \<and>
     (\<forall>cfg. NextProtos (apply_tls_opts (metricsTLSOpts (Metrics (mgrOptions m))) cfg) = [''http/1.1'']) \<and>
     (\<forall>cfg. GetCertificate (apply_tls_opts (metricsTLSOpts (Metrics (mgrOptions m))) cfg) =
        Some (''/certs/tls.crt'', ''/certs/tls.key'')) \<and>
     (\<forall>cfg. GetCertificate (apply_tls_opts (WebhookServerTLSOpts (mgrOptions m)) cfg) = GetCertificate cfg) \<and>
     WithAuthenticationAndAuthorization (Metrics (mgrOptions m)) \<and>
     map_of (CacheNamespaces (mgrOptions m)) ''BareMetalPool'' = Some [''osac'']"
proof (intro allI)
  fix poolServices :: "(unit, unit) pool_reconciler" and instanceServices :: "(unit, unit) bmi_reconciler"
  obtain m reg w where run:
    "main demo_process demo_process_setup poolServices instanceServices demo_args [] () = (Served 0 m, reg, w)"
    by (rule demo_process_served)
  have env: "Getenv demo_process_setup ''OSAC_BARE_METAL_FULFILLMENT_NAMESPACE'' = ''osac''"
    "certwatcher_New demo_process = (\<lambda>c k. Inr (c, k))"
    by (simp_all add: demo_process_setup_def demo_process_def)
  have "\<exists>m reg w. main demo_process demo_process_setup poolServices instanceServices demo_args [] () = (Served 0 m, reg, w) \<and> P m"
    if "P m" for P using run that by blast
  then show "\<exists>m reg w.
     main demo_process demo_process_setup poolServices instanceServices demo_args [] () = (Served 0 m, reg, w) \<and>
     (\<forall>cfg. NextProtos (apply_tls_opts (metricsTLSOpts (Metrics (mgrOptions m))) cfg) = [''http/1.1'']) \<and>
     (\<forall>cfg. GetCertificate (apply_tls_opts (metricsTLSOpts (Metrics (mgrOptions m))) cfg) =
        Some (''/certs/tls.crt'', ''/certs/tls.key'')) \<and>
     (\<forall>cfg. GetCertificate (apply_tls_opts (WebhookServerTLSOpts (mgrOptions m)) cfg) = GetCertificate cfg) \<and>
     WithAuthenticationAndAuthorization (Metrics (mgrOptions m)) \<and>
     map_of (CacheNamespaces (mgrOptions m)) ''BareMetalPool'' = Some [''osac'']"
    using served_as_asked[OF run] by (auto simp: demo_args_parsed env demo_flags_fields demo_paths Let_def)
qed

section \<open>Every flag sets its own variable\<close>

definition render_flag :: "string \<Rightarrow> string \<Rightarrow> string" where
  "render_flag name val = ''--'' @ name @ ''='' @ val"

definition render_bool :: "bool \<Rightarrow> string" where
  "render_bool b = (if b then ''true'' else ''false'')"

lemma ParseBool_render [simp]: "strconv_ParseBool (render_bool b) = Inr b"
  by (simp add: strconv_ParseBool_def render_bool_def)

lemma flag_word_render:
  assumes "name \<noteq> ''''" and "hd name \<noteq> CHR ''-''" and eq: "CHR ''='' \<notin> set name"
  shows "flag_word (render_flag name val) = FlagWord name (Some val)"
proof -
  have "takeWhile (\<lambda>c. c \<noteq> CHR ''='') (name @ CHR ''='' # val) = name"
    "dropWhile (\<lambda>c. c \<noteq> CHR ''='') (name @ CHR ''='' # val) = CHR ''='' # val"
    using eq by (auto simp: takeWhile_append dropWhile_append)
  moreover have "hd (name @ CHR ''='' # val) \<noteq> CHR ''-''" "hd (name @ CHR ''='' # val) \<noteq> CHR ''=''"
    using assms by (cases name; auto)+
  ultimately show ?thesis using assms(1) by (simp add: flag_word_def render_flag_def Let_def)
qed

lemma flag_Parse_render:
  assumes "name \<noteq> ''''" and "hd name \<noteq> CHR ''-''" and "CHR ''='' \<notin> set name" and "flag_is_bool foreign name \<noteq> None"
  shows "flag_Parse foreign fl (render_flag name val # args) =
    (case set_flag foreign name val fl of None \<Rightarrow> FlagError | Some fl' \<Rightarrow> flag_Parse foreign fl' args)"
  using assms by (auto simp: flag_word_render split: bool.splits)

definition render_main_flags :: "main_flags \<Rightarrow> string list" where
  "render_main_flags fl = [
     render_flag ''metrics-bind-address'' (metricsAddr fl),
     render_flag ''metrics-secure'' (render_bool (secureMetrics fl)),
     render_flag ''metrics-cert-path'' (metricsCertPath fl),
     render_flag ''metrics-cert-name'' (metricsCertName fl),
     render_flag ''metrics-cert-key'' (metricsCertKey fl),
     render_flag ''webhook-cert-path'' (webhookCertPath fl),
     render_flag ''webhook-cert-name'' (webhookCertName fl),
     render_flag ''webhook-cert-key'' (webhookCertKey fl),
     render_flag ''health-probe-bind-address'' (probeAddr fl),
     render_flag ''leader-elect'' (render_bool (enableLeaderElection fl)),
     render_flag ''enable-http2'' (render_bool (enableHTTP2 fl))]"

text \<open>C36: Writing the settings of \<open>main\<close> as command-line flags and parsing them gives the settings back, whatever
  strings they hold (equals signs, dashes, nothing) and whatever the variables held before: each of the
  eleven flags sets its own variable and no other, and parsing goes on after them.\<close>

theorem command_line_roundtrip:
  "flag_Parse foreign fl0 (render_main_flags fl @ args) =
     flag_Parse foreign (fl\<lparr>foreignFlags := foreignFlags fl0\<rparr>) args"
proof -
  have "flag_Parse foreign fl0 (render_main_flags fl @ args) =
      flag_Parse foreign (fl0\<lparr>metricsAddr := metricsAddr fl, secureMetrics := secureMetrics fl,
        metricsCertPath := metricsCertPath fl, metricsCertName := metricsCertName fl,
        metricsCertKey := metricsCertKey fl, webhookCertPath := webhookCertPath fl,
        webhookCertName := webhookCertName fl, webhookCertKey := webhookCertKey fl, probeAddr := probeAddr fl,
        enableLeaderElection := enableLeaderElection fl, enableHTTP2 := enableHTTP2 fl\<rparr>) args"
    by (simp add: render_main_flags_def flag_Parse_render set_flag_def flag_is_bool_def main_flag_table_def del: flag_Parse.simps(2))
  then show ?thesis by (cases fl; cases fl0) simp
qed

end
