(* ===== verification/Spec2Isabelle.thy ===== *)
theory Spec2Isabelle
  imports Host_Lock Api_Types Inventory_Metal3 Inventory_OpenStack Management_Metal3 Management_OpenStack
    Instance_Properties Allocation_Progress Allocation_OpenStack Power_Progress Deletion_Progress Instance_Wellformed Profiles Pool_Properties Backends Process_Start
begin

text \<open>
  The bare-metal fulfillment operator: a Kubernetes operator written in Go. Users (or the controller
  of a \<open>BareMetalPool\<close>) create \<open>BareMetalInstance\<close> objects; the instance controller allocates a
  physical host for each of them in an inventory, runs its provisioning workflow, drives its power
  and restarts, and releases the host when the object is deleted. The pool controller keeps, for
  every host type, the number of instances its spec asks for.

  \<^bold>\<open>How the program is modelled.\<close> Every function of the code that is modelled is one HOL definition
  with the source's name (a prefix keeps apart functions of different packages with one name), and
  loops and long branches are definitions of their own that the caller uses. A Go struct is a record,
  an enum a datatype, a map with string keys an association list \<open>gomap\<close> without duplicate keys (a nil
  map is \<open>None\<close>), an \<open>int32\<close> or \<open>int64\<close> a word, an \<open>error\<close> a value of \<open>go_error\<close>, a pair of a value and an
  error a sum. A reconcile returns its \<open>outcome\<close>, a requeue interval and an optional error. Panics
  (an index out of range, a nil dereference) are results too. The outside world is a type variable
  \<open>'w\<close>, threaded through every call that leaves the process; what lies behind it is a record of
  functions (\<open>lib\<close>, \<open>bmh_api\<close>, \<open>ironic_api\<close>, the fields of the two reconcilers), and what a theorem needs
  of these functions is a named predicate with a concrete instance that satisfies it: \<open>lib_laws\<close>
  with \<open>ref_lib\<close>, \<open>bmh_laws\<close> with \<open>ref_bmh_api\<close>, \<open>ironic_laws\<close> with its reference store, and so on.
  In these predicates the relation \<open>env\<close> is what other clients do between two requests of one call.

  \<^bold>\<open>Theories.\<close>
    \<^item> \<open>Prelude\<close>, \<open>Shared\<close>: strings, maps, errors, results and shuffling as Go has them; constants of
      \<open>internal/shared\<close> and the \<open>names\<close> files.
    \<^item> \<open>Host_Lock\<close>: \<open>internal/inventory/lock.go\<close>, the locale \<open>try_lock\<close> with its interpretation, and the
      concurrent workers as a step relation with mutual exclusion.
    \<^item> \<open>Api_Types\<close>: \<open>api/v1alpha1\<close>, both resources, their conditions (locale \<open>status_conditions\<close>) and the
      lookup of the owning pool.
    \<^item> \<open>Provisioning\<close>: the hooks through which the provisioning library works on an object.
    \<^item> \<open>Inventory\<close>, \<open>Metal3_Api\<close>, \<open>Inventory_Metal3\<close>, \<open>Ironic_Api\<close>, \<open>Inventory_OpenStack\<close>:
      \<open>internal/inventory\<close>. The locale \<open>inventory_contract\<close> states what assigning and unassigning do to
      the mark of a host, other writers included; both backends interpret it, Metal3 on top of
      the optimistic concurrency of Kubernetes, OpenStack on JSON patches of a node.
    \<^item> \<open>Management\<close>, \<open>Management_Metal3\<close>, \<open>Management_OpenStack\<close>: \<open>internal/management\<close> with the locale
      \<open>power_control\<close> and its two interpretations; power requests, restarts, and the retry after an
      authentication error.
    \<^item> \<open>Backends\<close>: the constructors of the four backends.
    \<^item> \<open>Instance_Controller\<close>, \<open>Instance_Properties\<close>: \<open>internal/controller/baremetalinstance_controller.go\<close>,
      and the lemmas and properties of single calls of its handlers: locks, labels, power, restart,
      deletion, allocation. The lemmas on allocation are proved inside \<open>inventory_contract\<close>.
    \<^item> \<open>Instance_Frames\<close>: what the calls of the instance controller to its backends and to the provisioning
      library leave alone (locale \<open>kept_by_services\<close>), for any relation between the world before and after.
    \<^item> \<open>Instance_Wellformed\<close>: which host fields and finalizers of a stored instance belong together, kept
      by every reconcile on every path while other clients write too.
    \<^item> \<open>Allocation_Protocol\<close>, \<open>Allocation_Refinement\<close>, \<open>Allocation_Progress\<close>: the composition of many
      instances, workers and users. The protocol is the abstract specification (claims and marks,
      one atomic request per step, invariant \<open>exclusive\<close>); the refinement shows that every call of
      \<open>Reconcile\<close>, interleaved with others and failing anywhere, is a path of it, and lifts the
      invariant to runs of the operator; progress shows that three calls allocate a host.
    \<^item> \<open>Allocation_OpenStack\<close>: the same refinement for the OpenStack backend, whose requests patch a
      node and may be interleaved with those of others one by one; a path of the same protocol.
    \<^item> \<open>Power_Progress\<close>: the requeue loop of an allocated instance. The locale \<open>settling_power\<close> states
      what a backend owes whose hosts follow a request after finitely many reads; the loop then
      terminates with the instance Ready. Interpreted by the Metal3 backend with a bare metal
      operator that brings the observed power to the wanted one.
    \<^item> \<open>Deletion_Progress\<close>: the two controllers together on one cluster; the deletion of a pool takes down
      exactly its instances, frees exactly their hosts and ends.
    \<^item> \<open>Profiles\<close>: \<open>internal/profile/profile.go\<close>, the registry and the check of template parameters.
    \<^item> \<open>Pool_Controller\<close>, \<open>Pool_Properties\<close>: \<open>internal/controller/baremetalpool_controller.go\<close>; convergence
      of the replica counts, absence of panics, readiness and deletion.
    \<^item> \<open>Setup\<close>, \<open>Process_Start\<close>: \<open>internal/helpers\<close> and \<open>cmd/main.go\<close>. \<open>Setup\<close> configures the two controllers
      from the environment and the files; \<open>Process_Start\<close> is \<open>main\<close> around it, from the command line (with
      the parser of the \<open>flag\<close> package) over the TLS options and certificates of the two servers to the
      start of the manager.

  \<^bold>\<open>Termination and bounds.\<close> No definition uses fuel. All loops of the code are over lists and are
  structural recursions, except the loop that deletes surplus instances, a \<open>function\<close> whose measure
  is the length of the list it shortens. The work queue, which calls \<open>Reconcile\<close> again as long as it
  asks for it, may go on for ever and is a \<open>partial_function\<close> with \<open>None\<close> for that (\<open>requeue_loop\<close>);
  it returns because a call that asks again either lets the host come closer to the wanted power
  state, or has sent the one request that was missing, or finds the state settled that the call
  before it could not yet report. Replica counts are 32-bit words; the theorem on their
  convergence assumes fewer than \<open>2 ^ 31\<close> listed instances and no negative count in the spec, so
  that the difference the code computes has the right sign.

  \<^bold>\<open>Concurrency.\<close> The interleaving of several workers is modelled at two levels: the locks alone, step
  by step (\<open>Host_Lock\<close>), and the requests of whole reconciles through \<open>env\<close> and the relation \<open>others\<close>
  (\<open>Allocation_Refinement\<close>, \<open>Allocation_OpenStack\<close>). There a concurrent change of the very object a worker has read is left
  out, since the worker's next update then fails with a conflict, and the mark of the host whose
  lock the worker holds is left alone by the others.
  The service client of the OpenStack management backend is shared by all workers and replaced after
  an authentication error; \<open>withAuthRetry\<close> is the call of one worker, whose second attempt uses the
  client it has created itself and not one that another worker stored in between.

  \<^bold>\<open>Where the code is wrong.\<close> Some properties state behaviour that is a defect: a deletion frees a
  host that is marked for someone else and so leads to two instances on one host; a restart request
  that arrives during a power transition is acknowledged and lost; a persistent label that overrides
  a plain one is removed on release; a user label can replace the mark of an OpenStack host; a pool
  stays Ready while instances are being created.

  \<^bold>\<open>Not modelled.\<close>
    \<^item> The inside of the libraries the code calls: the Kubernetes client and its cache, gophercloud, the
      provisioning library and its workflow engine, the YAML parser, \<open>time.ParseDuration\<close>, the random
      source. They are parameters. The cache in particular is one more reason for a stale read; the
      laws assume that a read returns the stored object.
    \<^item> Logging, tracing contexts and deep copies, which do not influence results; values are copied
      by definition in HOL.
    \<^item> The inside of the manager, of its two servers and of the certificate watchers: parameters of
      \<open>Process_Start\<close>. What a server does with its TLS options is that it applies them in order.
    \<^item> The registration of the API group with the scheme and \<open>zz_generated.deepcopy.go\<close>: framework calls
      and generated code without logic of their own.
    \<^item> Accessors for tests in the Metal3 backends.
\<close>

end
